theory Spec2Isabelle
  imports Main "HOL-Library.Word" "HOL-Library.Sublist"
begin

unbundle bit_operations_syntax

section \<open>JavaScript values\<close>

text \<open>
  The script \<^verbatim>\<open>scripts/migrate-legacy-users.ts\<close> is embedded function by function.
  A JavaScript string is modelled by the bytes of its UTF-8 encoding (\<^typ>\<open>string\<close>);
  every pattern the script searches for or inserts is ASCII, so searching, replacing and
  concatenating commute with that encoding. A binary string (the argument of
  \<^verbatim>\<open>btoa\<close>, the result of \<^verbatim>\<open>atob\<close>) is modelled by its code units, which are bytes.
\<close>

type_synonym byte = "8 word"

datatype 'a nullish = Null | Undefined | Val 'a

text \<open>
  A thrown value. Every value thrown in the script is an \<^verbatim>\<open>Error\<close> instance: a
  \<^verbatim>\<open>DOMException\<close> (name, message) from \<^verbatim>\<open>atob\<close> or \<^verbatim>\<open>crypto.subtle\<close>, a
  \<^verbatim>\<open>SyntaxError\<close> from \<^verbatim>\<open>JSON.parse\<close> (carrying the rejected text; its message is
  generated by the engine), a \<^verbatim>\<open>TypeError\<close> of the engine (carrying the expression that
  was evaluated), a \<^verbatim>\<open>RangeError\<close> of the engine (carrying the function whose call ran
  out of room), or an \<^verbatim>\<open>Error\<close> the script constructs itself (carrying its message).
\<close>

datatype error =
    DOMException string string
  | SyntaxError string
  | TypeError string
  | RangeError string
  | Error string

text \<open>
  The outcome of a call: it returns, it throws, or the input lies beyond what this
  embedding covers (\<open>Beyond\<close>: numbers that need floating-point formatting, strings that
  are not well-formed Unicode, values nested so deep that the stack of the engine
  matters, and result sets that are not of the shape the store returns). \<open>Beyond\<close> is
  never caught and never counts as a result.
\<close>

datatype 'a result = Return 'a | Throw error | Beyond

fun andThen :: "'a result \<Rightarrow> ('a \<Rightarrow> 'b result) \<Rightarrow> 'b result" where
  "andThen (Return x) f = f x"
| "andThen (Throw e) f = Throw e"
| "andThen Beyond f = Beyond"

section \<open>Numbers and \<^verbatim>\<open>parseInt\<close>\<close>

text \<open>
  The Number values the script computes are the results of \<^verbatim>\<open>parseInt(s, 10)\<close>:
  \<open>NaN\<close> or an integer. \<open>Finite i\<close> stands for the Number nearest to the integer \<open>i\<close>.
\<close>

datatype jsnumber = NaN | Finite int

definition wsAscii :: "char \<Rightarrow> bool" where
  "wsAscii c = (c \<in> set [CHR 0x09, CHR 0x0A, CHR 0x0B, CHR 0x0C, CHR 0x0D, CHR 0x20])"

text \<open>
  The white space and line terminators of ECMAScript beyond ASCII, in UTF-8:
  U+00A0, U+1680, U+2000 to U+200A, U+2028, U+2029, U+202F, U+205F, U+3000, U+FEFF.
\<close>

definition wsMultibyte :: "string list" where
  "wsMultibyte =
     [[CHR 0xC2, CHR 0xA0], [CHR 0xE1, CHR 0x9A, CHR 0x80],
      [CHR 0xE2, CHR 0x80, CHR 0x80], [CHR 0xE2, CHR 0x80, CHR 0x81],
      [CHR 0xE2, CHR 0x80, CHR 0x82], [CHR 0xE2, CHR 0x80, CHR 0x83],
      [CHR 0xE2, CHR 0x80, CHR 0x84], [CHR 0xE2, CHR 0x80, CHR 0x85],
      [CHR 0xE2, CHR 0x80, CHR 0x86], [CHR 0xE2, CHR 0x80, CHR 0x87],
      [CHR 0xE2, CHR 0x80, CHR 0x88], [CHR 0xE2, CHR 0x80, CHR 0x89],
      [CHR 0xE2, CHR 0x80, CHR 0x8A], [CHR 0xE2, CHR 0x80, CHR 0xA8],
      [CHR 0xE2, CHR 0x80, CHR 0xA9], [CHR 0xE2, CHR 0x80, CHR 0xAF],
      [CHR 0xE2, CHR 0x81, CHR 0x9F], [CHR 0xE3, CHR 0x80, CHR 0x80],
      [CHR 0xEF, CHR 0xBB, CHR 0xBF]]"

text \<open>The number of bytes of the white-space character a string starts with, or 0.\<close>

definition wsLength :: "string \<Rightarrow> nat" where
  "wsLength s =
     (case s of
        [] \<Rightarrow> 0
      | c # cs \<Rightarrow>
          if wsAscii c then 1
          else (case filter (\<lambda>w. prefix w s) wsMultibyte of [] \<Rightarrow> 0 | w # ws \<Rightarrow> length w))"

text \<open>\<^verbatim>\<open>String.prototype.trimStart\<close>: white-space characters are removed one at a time.\<close>

function trimStart :: "string \<Rightarrow> string" where
  "trimStart s = (if wsLength s = 0 then s else trimStart (drop (wsLength s) s))"
  by pat_completeness auto
termination
  by (relation "measure length") (auto simp: wsLength_def split: list.splits)

declare trimStart.simps [simp del]

definition isDigit :: "char \<Rightarrow> bool" where
  "isDigit c = (48 \<le> (of_char c :: nat) \<and> (of_char c :: nat) \<le> 57)"

definition digitValue :: "char \<Rightarrow> nat" where
  "digitValue c = of_char c - 48"

definition digitsValue :: "string \<Rightarrow> nat" where
  "digitsValue ds = foldl (\<lambda>acc c. 10 * acc + digitValue c) 0 ds"

text \<open>
  \<^verbatim>\<open>parseInt(s, 10)\<close> (ECMAScript 19.2.5): skip leading white space, read an optional
  sign, take the longest run of decimal digits; no digit gives \<open>NaN\<close>. With radix 10 a
  prefix \<^verbatim>\<open>0x\<close> is not stripped.
\<close>

definition parseInt10 :: "string \<Rightarrow> jsnumber" where
  "parseInt10 inputString =
     (let S = trimStart inputString;
          negative = (S \<noteq> [] \<and> hd S = CHR ''-'');
          S' = (if S \<noteq> [] \<and> (hd S = CHR ''+'' \<or> hd S = CHR ''-'') then tl S else S);
          Z = takeWhile isDigit S'
      in if Z = [] then NaN
         else Finite (if negative then - int (digitsValue Z) else int (digitsValue Z)))"

text \<open>The decimal digits of a natural number.\<close>

fun decimal :: "nat \<Rightarrow> string" where
  "decimal n =
     (if n < 10 then [char_of (48 + n)]
      else decimal (n div 10) @ [char_of (48 + n mod 10)])"

declare decimal.simps [simp del]

text \<open>
  \<^verbatim>\<open>Number::toString\<close> as a template literal applies it. An integer of magnitude up to
  \<open>2^53\<close> is a Number exactly and prints as its decimal digits (\<^verbatim>\<open>-0\<close> prints as
  \<^verbatim>\<open>0\<close>); a larger one is rounded to a double and printed with the shortest digits that
  read back, which is beyond this embedding.
\<close>

definition numberToString :: "jsnumber \<Rightarrow> string result" where
  "numberToString x =
     (case x of
        NaN \<Rightarrow> Return ''NaN''
      | Finite i \<Rightarrow>
          if \<bar>i\<bar> \<le> 2 ^ 53
          then Return ((if i < 0 then ''-'' else '''') @ decimal (nat \<bar>i\<bar>))
          else Beyond)"

section \<open>JSON values\<close>

text \<open>
  The values \<^verbatim>\<open>JSON.parse\<close> returns, and \<^verbatim>\<open>undefined\<close> for a property that is
  absent. A number keeps the text it was written with. An object is the list of its
  own properties in the order JavaScript enumerates them.
\<close>

datatype jsval =
    JUndefined
  | JNull
  | JBool bool
  | JNum string
  | JStr string
  | JArr "jsval list"
  | JObj "(string \<times> jsval) list"

text \<open>The internal outcome of a parsing function: a value and the rest of the input.\<close>

datatype 'a parse = Parsed 'a string | Reject | Unrepresentable

definition jsonWs :: "char \<Rightarrow> bool" where
  "jsonWs c = (c \<in> set [CHR 0x20, CHR 0x09, CHR 0x0A, CHR 0x0D])"

definition skipWs :: "string \<Rightarrow> string" where
  "skipWs s = dropWhile jsonWs s"

text \<open>After white space, the input goes on with the character \<open>c\<close>: what follows it.\<close>

definition expect :: "char \<Rightarrow> string \<Rightarrow> string option" where
  "expect c s = (case skipWs s of [] \<Rightarrow> None | d # r \<Rightarrow> if d = c then Some r else None)"

definition hexValue :: "char \<Rightarrow> nat option" where
  "hexValue c =
     (let k = (of_char c :: nat)
      in if 48 \<le> k \<and> k \<le> 57 then Some (k - 48)
         else if 65 \<le> k \<and> k \<le> 70 then Some (k - 55)
         else if 97 \<le> k \<and> k \<le> 102 then Some (k - 87)
         else None)"

text \<open>The code unit written by the four hexadecimal digits after \<^verbatim>\<open>\u\<close>.\<close>

definition hex4 :: "string \<Rightarrow> nat option" where
  "hex4 s =
     (case map hexValue (take 4 s) of
        [Some a, Some b, Some c, Some d] \<Rightarrow> Some (((a * 16 + b) * 16 + c) * 16 + d)
      | _ \<Rightarrow> None)"

text \<open>The UTF-8 encoding of a code point.\<close>

definition utf8 :: "nat \<Rightarrow> string" where
  "utf8 cp =
     (if cp < 0x80 then [char_of cp]
      else if cp < 0x800 then [char_of (0xC0 + cp div 64), char_of (0x80 + cp mod 64)]
      else if cp < 0x10000 then
        [char_of (0xE0 + cp div 4096), char_of (0x80 + cp div 64 mod 64),
         char_of (0x80 + cp mod 64)]
      else
        [char_of (0xF0 + cp div 262144), char_of (0x80 + cp div 4096 mod 64),
         char_of (0x80 + cp div 64 mod 64), char_of (0x80 + cp mod 64)])"

definition simpleEscape :: "char \<Rightarrow> char option" where
  "simpleEscape e =
     (if e = CHR 0x22 then Some (CHR 0x22)
      else if e = CHR 0x5C then Some (CHR 0x5C)
      else if e = CHR ''/'' then Some (CHR ''/'')
      else if e = CHR ''b'' then Some (CHR 0x08)
      else if e = CHR ''f'' then Some (CHR 0x0C)
      else if e = CHR ''n'' then Some (CHR 0x0A)
      else if e = CHR ''r'' then Some (CHR 0x0D)
      else if e = CHR ''t'' then Some (CHR 0x09)
      else None)"

text \<open>
  What a \<^verbatim>\<open>\u\<close> escape stands for, given the input after the \<^verbatim>\<open>u\<close>: the bytes it
  contributes and the number of input characters it takes. A high surrogate followed by
  an escaped low surrogate is one code point; a surrogate on its own has no UTF-8
  encoding and is left out of the embedding.
\<close>

definition unicodeEscape :: "string \<Rightarrow> (string \<times> nat) parse" where
  "unicodeEscape s =
     (case hex4 s of
        None \<Rightarrow> Reject
      | Some u \<Rightarrow>
          if u < 0xD800 \<or> 0xDFFF < u then Parsed (utf8 u, 4) []
          else if u < 0xDC00 \<and> take 2 (drop 4 s) = [CHR 0x5C, CHR ''u''] then
            (case hex4 (drop 6 s) of
               None \<Rightarrow> Reject
             | Some l \<Rightarrow>
                 if 0xDC00 \<le> l \<and> l \<le> 0xDFFF
                 then Parsed (utf8 (0x10000 + (u - 0xD800) * 1024 + (l - 0xDC00)), 10) []
                 else Unrepresentable)
          else Unrepresentable)"

text \<open>The characters of a JSON string, after the opening quote, up to the closing one.\<close>

fun parseChars :: "string \<Rightarrow> string parse" where
  "parseChars [] = Reject"
| "parseChars (c # cs) =
     (if c = CHR 0x22 then Parsed [] cs
      else if c = CHR 0x5C then
        (case cs of
           [] \<Rightarrow> Reject
         | e # es \<Rightarrow>
             if e = CHR ''u'' then
               (case unicodeEscape es of
                  Parsed (bs, k) _ \<Rightarrow>
                    (case parseChars (drop k es) of
                       Parsed str r \<Rightarrow> Parsed (bs @ str) r
                     | Reject \<Rightarrow> Reject
                     | Unrepresentable \<Rightarrow> Unrepresentable)
                | Reject \<Rightarrow> Reject
                | Unrepresentable \<Rightarrow> Unrepresentable)
             else
               (case simpleEscape e of
                  None \<Rightarrow> Reject
                | Some b \<Rightarrow>
                    (case parseChars es of
                       Parsed str r \<Rightarrow> Parsed (b # str) r
                     | Reject \<Rightarrow> Reject
                     | Unrepresentable \<Rightarrow> Unrepresentable)))
      else if (of_char c :: nat) < 0x20 then Reject
      else
        (case parseChars cs of
           Parsed str r \<Rightarrow> Parsed (c # str) r
         | Reject \<Rightarrow> Reject
         | Unrepresentable \<Rightarrow> Unrepresentable))"

text \<open>
  The longest prefix that is a JSON number:
  \<^verbatim>\<open>-? (0 | [1-9][0-9]*) (. [0-9]+)? ([eE] [+-]? [0-9]+)?\<close>.
\<close>

definition lexInt :: "string \<Rightarrow> (string \<times> string) option" where
  "lexInt s =
     (case s of
        [] \<Rightarrow> None
      | c # cs \<Rightarrow>
          if c = CHR ''0'' then Some ([c], cs)
          else if isDigit c then Some (takeWhile isDigit s, dropWhile isDigit s)
          else None)"

definition lexFrac :: "string \<Rightarrow> (string \<times> string) option" where
  "lexFrac s =
     (case s of
        [] \<Rightarrow> Some ([], s)
      | c # cs \<Rightarrow>
          if c = CHR ''.'' then
            (if takeWhile isDigit cs = [] then None
             else Some (c # takeWhile isDigit cs, dropWhile isDigit cs))
          else Some ([], s))"

definition lexExp :: "string \<Rightarrow> (string \<times> string) option" where
  "lexExp s =
     (case s of
        [] \<Rightarrow> Some ([], s)
      | c # cs \<Rightarrow>
          if c = CHR ''e'' \<or> c = CHR ''E'' then
            (let sign = (if cs \<noteq> [] \<and> (hd cs = CHR ''+'' \<or> hd cs = CHR ''-'') then [hd cs] else []);
                 ds = drop (length sign) cs
             in if takeWhile isDigit ds = [] then None
                else Some (c # sign @ takeWhile isDigit ds, dropWhile isDigit ds))
          else Some ([], s))"

definition lexNumber :: "string \<Rightarrow> string parse" where
  "lexNumber s =
     (let sign = (if s \<noteq> [] \<and> hd s = CHR ''-'' then ''-'' else [])
      in case lexInt (drop (length sign) s) of
           None \<Rightarrow> Reject
         | Some (i, r1) \<Rightarrow>
             (case lexFrac r1 of
                None \<Rightarrow> Reject
              | Some (f, r2) \<Rightarrow>
                  (case lexExp r2 of
                     None \<Rightarrow> Reject
                   | Some (e, r3) \<Rightarrow> Parsed (sign @ i @ f @ e) r3)))"

text \<open>
  A property key that is an array index (a canonical numeric string below \<open>2^32 - 1\<close>):
  JavaScript enumerates these first, in ascending order, then the other keys in the
  order they were added.
\<close>

definition isArrayIndex :: "string \<Rightarrow> bool" where
  "isArrayIndex k =
     (k \<noteq> [] \<and> list_all isDigit k \<and> (k = ''0'' \<or> hd k \<noteq> CHR ''0'')
      \<and> length k \<le> 10 \<and> digitsValue k < 2 ^ 32 - 1)"

definition indexBefore :: "string \<Rightarrow> string \<times> jsval \<Rightarrow> bool" where
  "indexBefore k m = (isArrayIndex (fst m) \<and> digitsValue (fst m) < digitsValue k)"

text \<open>\<^verbatim>\<open>CreateDataProperty\<close>: an existing key keeps its place and takes the new value.\<close>

definition objSet :: "(string \<times> jsval) list \<Rightarrow> string \<Rightarrow> jsval \<Rightarrow> (string \<times> jsval) list" where
  "objSet ms k v =
     (if k \<in> set (map fst ms) then map (\<lambda>m. if fst m = k then (k, v) else m) ms
      else if isArrayIndex k
        then takeWhile (indexBefore k) ms @ [(k, v)] @ dropWhile (indexBefore k) ms
      else ms @ [(k, v)])"

text \<open>
  The recursive-descent parser. The first argument bounds the depth of the calls; each
  call is made after at least one character was read, so the length of the text is
  enough (\<open>Unrepresentable\<close> when it runs out).
\<close>

fun parseValue :: "nat \<Rightarrow> string \<Rightarrow> jsval parse"
  and parseElements :: "nat \<Rightarrow> string \<Rightarrow> jsval list parse"
  and parseMembers :: "nat \<Rightarrow> (string \<times> jsval) list \<Rightarrow> string \<Rightarrow> (string \<times> jsval) list parse"
where
  "parseValue 0 s = Unrepresentable"
| "parseValue (Suc n) s =
     (case skipWs s of
        [] \<Rightarrow> Reject
      | c # cs \<Rightarrow>
          if c = CHR 0x7B then
            (case expect (CHR 0x7D) cs of
               Some r \<Rightarrow> Parsed (JObj []) r
             | None \<Rightarrow>
                 (case parseMembers n [] cs of
                    Parsed ms r \<Rightarrow> Parsed (JObj ms) r
                  | Reject \<Rightarrow> Reject
                  | Unrepresentable \<Rightarrow> Unrepresentable))
          else if c = CHR 0x5B then
            (case expect (CHR 0x5D) cs of
               Some r \<Rightarrow> Parsed (JArr []) r
             | None \<Rightarrow>
                 (case parseElements n cs of
                    Parsed vs r \<Rightarrow> Parsed (JArr vs) r
                  | Reject \<Rightarrow> Reject
                  | Unrepresentable \<Rightarrow> Unrepresentable))
          else if c = CHR 0x22 then
            (case parseChars cs of
               Parsed str r \<Rightarrow> Parsed (JStr str) r
             | Reject \<Rightarrow> Reject
             | Unrepresentable \<Rightarrow> Unrepresentable)
          else if prefix ''true'' (c # cs) then Parsed (JBool True) (drop 4 (c # cs))
          else if prefix ''false'' (c # cs) then Parsed (JBool False) (drop 5 (c # cs))
          else if prefix ''null'' (c # cs) then Parsed JNull (drop 4 (c # cs))
          else
            (case lexNumber (c # cs) of
               Parsed lexeme r \<Rightarrow> Parsed (JNum lexeme) r
             | Reject \<Rightarrow> Reject
             | Unrepresentable \<Rightarrow> Unrepresentable))"
| "parseElements 0 s = Unrepresentable"
| "parseElements (Suc n) s =
     (case parseValue n s of
        Parsed v r \<Rightarrow>
          (case expect (CHR 0x2C) r of
             Some r' \<Rightarrow>
               (case parseElements n r' of
                  Parsed vs r'' \<Rightarrow> Parsed (v # vs) r''
                | Reject \<Rightarrow> Reject
                | Unrepresentable \<Rightarrow> Unrepresentable)
           | None \<Rightarrow>
               (case expect (CHR 0x5D) r of
                  Some r' \<Rightarrow> Parsed [v] r'
                | None \<Rightarrow> Reject))
      | Reject \<Rightarrow> Reject
      | Unrepresentable \<Rightarrow> Unrepresentable)"
| "parseMembers 0 acc s = Unrepresentable"
| "parseMembers (Suc n) acc s =
     (case expect (CHR 0x22) s of
        None \<Rightarrow> Reject
      | Some cs \<Rightarrow>
          (case parseChars cs of
             Parsed k r \<Rightarrow>
               (case expect (CHR 0x3A) r of
                  None \<Rightarrow> Reject
                | Some r' \<Rightarrow>
                    (case parseValue n r' of
                       Parsed v r'' \<Rightarrow>
                         (case expect (CHR 0x2C) r'' of
                            Some r3 \<Rightarrow> parseMembers n (objSet acc k v) r3
                          | None \<Rightarrow>
                              (case expect (CHR 0x7D) r'' of
                                 Some r3 \<Rightarrow> Parsed (objSet acc k v) r3
                               | None \<Rightarrow> Reject))
                     | Reject \<Rightarrow> Reject
                     | Unrepresentable \<Rightarrow> Unrepresentable))
           | Reject \<Rightarrow> Reject
           | Unrepresentable \<Rightarrow> Unrepresentable))"

text \<open>
  \<^verbatim>\<open>JSON.parse(text)\<close>: one value, with nothing but white space after it; anything
  else is a \<^verbatim>\<open>SyntaxError\<close>.
\<close>

definition JSON_parse :: "string \<Rightarrow> jsval result" where
  "JSON_parse text =
     (case parseValue (Suc (length text)) text of
        Parsed v r \<Rightarrow> if skipWs r = [] then Return v else Throw (SyntaxError text)
      | Reject \<Rightarrow> Throw (SyntaxError text)
      | Unrepresentable \<Rightarrow> Beyond)"

text \<open>
  Whether the Number a JSON number text denotes is zero: its digits are all zero, or
  its magnitude is at most \<open>2^-1075\<close>, half of the least positive double, and rounds to
  zero.
\<close>

definition numIsZero :: "string \<Rightarrow> bool" where
  "numIsZero lexeme =
     (let body = (if lexeme \<noteq> [] \<and> hd lexeme = CHR ''-'' then tl lexeme else lexeme);
          ip = takeWhile isDigit body;
          r1 = dropWhile isDigit body;
          fp = (if r1 \<noteq> [] \<and> hd r1 = CHR ''.'' then takeWhile isDigit (tl r1) else []);
          r2 = (if r1 \<noteq> [] \<and> hd r1 = CHR ''.'' then dropWhile isDigit (tl r1) else r1);
          ex = (if r2 = [] then (0::int)
                else if hd (tl r2) = CHR ''-'' then - int (digitsValue (tl (tl r2)))
                else if hd (tl r2) = CHR ''+'' then int (digitsValue (tl (tl r2)))
                else int (digitsValue (tl r2)));
          m = digitsValue (ip @ fp);
          e = ex - int (length fp)
      in m = 0 \<or> (e < 0 \<and> m * 2 ^ 1075 \<le> 10 ^ nat (- e)))"

text \<open>\<^verbatim>\<open>ToBoolean\<close>: what \<^verbatim>\<open>!v\<close> negates.\<close>

fun truthy :: "jsval \<Rightarrow> bool" where
  "truthy JUndefined = False"
| "truthy JNull = False"
| "truthy (JBool b) = b"
| "truthy (JNum lexeme) = (\<not> numIsZero lexeme)"
| "truthy (JStr str) = (str \<noteq> [])"
| "truthy (JArr vs) = True"
| "truthy (JObj ms) = True"

definition lookup :: "(string \<times> jsval) list \<Rightarrow> string \<Rightarrow> jsval" where
  "lookup ms k = (case map_of ms k of None \<Rightarrow> JUndefined | Some v \<Rightarrow> v)"

text \<open>
  \<^verbatim>\<open>v.key\<close> for the property names the script reads (\<^verbatim>\<open>kty\<close>, \<^verbatim>\<open>n\<close>, \<^verbatim>\<open>e\<close>,
  \<^verbatim>\<open>d\<close>, \<^verbatim>\<open>results\<close>, \<^verbatim>\<open>encrypted_jwk\<close>, \<^verbatim>\<open>salt\<close>, \<^verbatim>\<open>address\<close>): none of them
  is inherited from a prototype, so only an object has them. Reading a property of
  \<^verbatim>\<open>null\<close> or \<^verbatim>\<open>undefined\<close> throws a \<^verbatim>\<open>TypeError\<close>.
\<close>

fun getProp :: "jsval \<Rightarrow> string \<Rightarrow> jsval result" where
  "getProp JUndefined k = Throw (TypeError k)"
| "getProp JNull k = Throw (TypeError k)"
| "getProp (JObj ms) k = Return (lookup ms k)"
| "getProp v k = Return JUndefined"

text \<open>
  \<^verbatim>\<open>v[0]\<close>. The first code unit of a non-empty string is not computed here.
\<close>

fun getIndex0 :: "jsval \<Rightarrow> jsval result" where
  "getIndex0 JUndefined = Throw (TypeError ''0'')"
| "getIndex0 JNull = Throw (TypeError ''0'')"
| "getIndex0 (JArr vs) = Return (case vs of [] \<Rightarrow> JUndefined | v # _ \<Rightarrow> v)"
| "getIndex0 (JObj ms) = Return (lookup ms ''0'')"
| "getIndex0 (JStr str) = (if str = [] then Return JUndefined else Beyond)"
| "getIndex0 v = Return JUndefined"

text \<open>\<^verbatim>\<open>v.length === 0\<close> for a value that is neither null nor undefined.\<close>

fun lengthIsZero :: "jsval \<Rightarrow> bool" where
  "lengthIsZero (JArr vs) = (vs = [])"
| "lengthIsZero (JStr str) = (str = [])"
| "lengthIsZero (JObj ms) = (case lookup ms ''length'' of JNum lexeme \<Rightarrow> numIsZero lexeme | _ \<Rightarrow> False)"
| "lengthIsZero v = False"

text \<open>
  \<^verbatim>\<open>ToString\<close> of the argument of \<^verbatim>\<open>atob\<close>. Numbers, arrays and objects are not
  converted here.
\<close>

fun toStringArg :: "jsval \<Rightarrow> string result" where
  "toStringArg (JStr str) = Return str"
| "toStringArg JUndefined = Return ''undefined''"
| "toStringArg JNull = Return ''null''"
| "toStringArg (JBool b) = Return (if b then ''true'' else ''false'')"
| "toStringArg v = Beyond"

subsection \<open>\<^verbatim>\<open>JSON.stringify\<close>\<close>

definition hexDigit :: "nat \<Rightarrow> char" where
  "hexDigit k = (if k < 10 then char_of (48 + k) else char_of (87 + k))"

text \<open>\<^verbatim>\<open>QuoteJSONString\<close>, one character at a time.\<close>

definition quoteChar :: "char \<Rightarrow> string" where
  "quoteChar c =
     (if c = CHR 0x22 then [CHR 0x5C, CHR 0x22]
      else if c = CHR 0x5C then [CHR 0x5C, CHR 0x5C]
      else if c = CHR 0x08 then [CHR 0x5C, CHR ''b'']
      else if c = CHR 0x0C then [CHR 0x5C, CHR ''f'']
      else if c = CHR 0x0A then [CHR 0x5C, CHR ''n'']
      else if c = CHR 0x0D then [CHR 0x5C, CHR ''r'']
      else if c = CHR 0x09 then [CHR 0x5C, CHR ''t'']
      else if (of_char c :: nat) < 0x20 then
        [CHR 0x5C, CHR ''u'', CHR ''0'', CHR ''0'',
         hexDigit ((of_char c :: nat) div 16), hexDigit ((of_char c :: nat) mod 16)]
      else [c])"

definition quoteJSONString :: "string \<Rightarrow> string" where
  "quoteJSONString str = [CHR 0x22] @ concat (map quoteChar str) @ [CHR 0x22]"

text \<open>
  The text of a number is printed as it stands when it is an integer in canonical
  decimal form of magnitude up to \<open>2^53\<close>; any other number needs the shortest-digits
  formatting of doubles and is not printed here.
\<close>

definition numberText :: "string \<Rightarrow> string option" where
  "numberText lexeme =
     (let body = (if lexeme \<noteq> [] \<and> hd lexeme = CHR ''-'' then tl lexeme else lexeme)
      in if body \<noteq> [] \<and> list_all isDigit body \<and> (body = ''0'' \<or> hd body \<noteq> CHR ''0'')
            \<and> lexeme \<noteq> ''-0'' \<and> length body \<le> 16 \<and> digitsValue body \<le> 2 ^ 53
         then Some lexeme else None)"

definition joinWith :: "string \<Rightarrow> string list \<Rightarrow> string" where
  "joinWith sep parts = (case parts of [] \<Rightarrow> [] | p # ps \<Rightarrow> p @ concat (map (\<lambda>q. sep @ q) ps))"

text \<open>
  \<^verbatim>\<open>SerializeJSONProperty\<close> without indentation: \<open>None\<close> where a number is not
  printed. In an array \<^verbatim>\<open>undefined\<close> prints as \<^verbatim>\<open>null\<close>; in an object a property
  whose value is \<^verbatim>\<open>undefined\<close> is left out.
\<close>

fun serialize :: "jsval \<Rightarrow> string option"
  and serializeElements :: "jsval list \<Rightarrow> string list option"
  and serializeMembers :: "(string \<times> jsval) list \<Rightarrow> string list option"
where
  "serialize JUndefined = Some ''null''"
| "serialize JNull = Some ''null''"
| "serialize (JBool b) = Some (if b then ''true'' else ''false'')"
| "serialize (JNum lexeme) = numberText lexeme"
| "serialize (JStr str) = Some (quoteJSONString str)"
| "serialize (JArr vs) =
     (case serializeElements vs of
        None \<Rightarrow> None
      | Some parts \<Rightarrow> Some (''['' @ joinWith '','' parts @ '']''))"
| "serialize (JObj ms) =
     (case serializeMembers ms of
        None \<Rightarrow> None
      | Some parts \<Rightarrow> Some ([CHR 0x7B] @ joinWith '','' parts @ [CHR 0x7D]))"
| "serializeElements [] = Some []"
| "serializeElements (v # vs) =
     (case serialize v of
        None \<Rightarrow> None
      | Some p \<Rightarrow> (case serializeElements vs of None \<Rightarrow> None | Some ps \<Rightarrow> Some (p # ps)))"
| "serializeMembers [] = Some []"
| "serializeMembers (m # ms) =
     (if snd m = JUndefined then serializeMembers ms
      else
        (case serialize (snd m) of
           None \<Rightarrow> None
         | Some p \<Rightarrow>
             (case serializeMembers ms of
                None \<Rightarrow> None
              | Some ps \<Rightarrow> Some ((quoteJSONString (fst m) @ '':'' @ p) # ps))))"

text \<open>How deep arrays and objects are nested in a value.\<close>

fun depth :: "jsval \<Rightarrow> nat"
  and depthElements :: "jsval list \<Rightarrow> nat"
  and depthMembers :: "(string \<times> jsval) list \<Rightarrow> nat"
where
  "depth (JArr vs) = Suc (depthElements vs)"
| "depth (JObj ms) = Suc (depthMembers ms)"
| "depth v = 0"
| "depthElements [] = 0"
| "depthElements (v # vs) = max (depth v) (depthElements vs)"
| "depthMembers [] = 0"
| "depthMembers (m # ms) = max (depth (snd m)) (depthMembers ms)"

text \<open>
  \<^verbatim>\<open>JSON.stringify\<close> throws a \<^verbatim>\<open>RangeError\<close> when the value is nested deeper than the
  stack of the engine allows. Where that happens depends on the engine and on the stack
  that is left; up to \<open>maxDepth\<close> levels it does not happen, and deeper values are left
  out of the embedding.
\<close>

definition maxDepth :: nat where
  "maxDepth = 1000"

text \<open>\<^verbatim>\<open>JSON.stringify(value)\<close>: \<^verbatim>\<open>undefined\<close> for \<^verbatim>\<open>undefined\<close>, a string otherwise.\<close>

definition JSON_stringify :: "jsval \<Rightarrow> string nullish result" where
  "JSON_stringify v =
     (if v = JUndefined then Return Undefined
      else if maxDepth < depth v then Beyond
      else (case serialize v of None \<Rightarrow> Beyond | Some text \<Rightarrow> Return (Val text)))"

section \<open>Bytes and text\<close>

definition byteOfChar :: "char \<Rightarrow> byte" where
  "byteOfChar c = word_of_nat (of_char c)"

definition charOfByte :: "byte \<Rightarrow> char" where
  "charOfByte b = char_of (unat b)"

text \<open>
  \<^verbatim>\<open>new TextEncoder().encode(s)\<close>: the UTF-8 bytes of the string, which is what models
  the string. \<^verbatim>\<open>undefined\<close> encodes as the empty string, \<^verbatim>\<open>null\<close> as the text
  \<^verbatim>\<open>null\<close>.
\<close>

definition TextEncoder_encode :: "string nullish \<Rightarrow> byte list" where
  "TextEncoder_encode v =
     (case v of
        Val str \<Rightarrow> map byteOfChar str
      | Null \<Rightarrow> map byteOfChar ''null''
      | Undefined \<Rightarrow> [])"

text \<open>
  The bounds on the byte after a lead byte, and the number of continuation bytes, of a
  UTF-8 sequence (the table of the Encoding Standard); \<open>None\<close> for a byte that starts
  no sequence.
\<close>

definition utf8Lead :: "nat \<Rightarrow> (nat \<times> nat \<times> nat) option" where
  "utf8Lead b =
     (if 0xC2 \<le> b \<and> b \<le> 0xDF then Some (1, 0x80, 0xBF)
      else if b = 0xE0 then Some (2, 0xA0, 0xBF)
      else if b = 0xED then Some (2, 0x80, 0x9F)
      else if 0xE1 \<le> b \<and> b \<le> 0xEF then Some (2, 0x80, 0xBF)
      else if b = 0xF0 then Some (3, 0x90, 0xBF)
      else if b = 0xF4 then Some (3, 0x80, 0x8F)
      else if 0xF1 \<le> b \<and> b \<le> 0xF3 then Some (3, 0x80, 0xBF)
      else None)"

text \<open>How many of the first \<open>n\<close> bytes continue a sequence, the first within the bounds.\<close>

fun continuation :: "nat \<Rightarrow> nat \<Rightarrow> nat \<Rightarrow> byte list \<Rightarrow> nat" where
  "continuation n lo hi [] = 0"
| "continuation n lo hi (b # bs) =
     (if n = 0 then 0
      else if lo \<le> unat b \<and> unat b \<le> hi then Suc (continuation (n - 1) 0x80 0xBF bs)
      else 0)"

definition replacement :: "string" where
  "replacement = [CHR 0xEF, CHR 0xBF, CHR 0xBD]"

text \<open>
  The UTF-8 decoder of the Encoding Standard with replacement: a sequence that is cut
  short or goes out of bounds becomes U+FFFD, and decoding goes on at the byte that
  broke it.
\<close>

fun utf8Decode :: "byte list \<Rightarrow> string" where
  "utf8Decode [] = []"
| "utf8Decode (b # bs) =
     (if unat b < 0x80 then charOfByte b # utf8Decode bs
      else
        (case utf8Lead (unat b) of
           None \<Rightarrow> replacement @ utf8Decode bs
         | Some (n, lo, hi) \<Rightarrow>
             (let k = continuation n lo hi bs
              in if k = n then map charOfByte (b # take n bs) @ utf8Decode (drop n bs)
                 else replacement @ utf8Decode (drop k bs))))"

text \<open>
  \<^verbatim>\<open>new TextDecoder().decode(bytes)\<close>: UTF-8, with a leading byte order mark removed.
\<close>

definition TextDecoder_decode :: "byte list \<Rightarrow> string" where
  "TextDecoder_decode bs =
     utf8Decode (if take 3 bs = [0xEF, 0xBB, 0xBF] then drop 3 bs else bs)"

section \<open>Base64: \<^verbatim>\<open>btoa\<close> and \<^verbatim>\<open>atob\<close>\<close>

text \<open>
  The exceptions of the platform library. A \<^verbatim>\<open>DOMException\<close> that is created without
  a message takes the text its name has in the table of the engine (WebKit, which Bun
  embeds).
\<close>

definition InvalidCharacterError :: error where
  "InvalidCharacterError =
     DOMException ''InvalidCharacterError'' ''The string contains invalid characters.''"

definition OperationError :: error where
  "OperationError =
     DOMException ''OperationError'' ''The operation failed for an operation-specific reason''"

definition b64Char :: "nat \<Rightarrow> char" where
  "b64Char k =
     (if k < 26 then char_of (65 + k)
      else if k < 52 then char_of (71 + k)
      else if k < 62 then char_of (k - 4)
      else if k = 62 then CHR ''+''
      else CHR ''/'')"

definition b64Value :: "char \<Rightarrow> nat option" where
  "b64Value c =
     (let k = (of_char c :: nat)
      in if 65 \<le> k \<and> k \<le> 90 then Some (k - 65)
         else if 97 \<le> k \<and> k \<le> 122 then Some (k - 71)
         else if 48 \<le> k \<and> k \<le> 57 then Some (k + 4)
         else if c = CHR ''+'' then Some 62
         else if c = CHR ''/'' then Some 63
         else None)"

text \<open>
  \<^verbatim>\<open>btoa(String.fromCharCode(...bytes))\<close>: three bytes make four characters, and the
  last group is padded with \<^verbatim>\<open>=\<close>.
\<close>

fun btoa :: "byte list \<Rightarrow> string" where
  "btoa [] = []"
| "btoa [a] =
     [b64Char (unat a div 4), b64Char (unat a mod 4 * 16), CHR ''='', CHR ''='']"
| "btoa [a, b] =
     [b64Char (unat a div 4), b64Char (unat a mod 4 * 16 + unat b div 16),
      b64Char (unat b mod 16 * 4), CHR ''='']"
| "btoa (a # b # c # rest) =
     [b64Char (unat a div 4), b64Char (unat a mod 4 * 16 + unat b div 16),
      b64Char (unat b mod 16 * 4 + unat c div 64), b64Char (unat c mod 64)] @ btoa rest"

text \<open>The six-bit groups of a list of bytes, which \<^verbatim>\<open>btoa\<close> writes as characters.\<close>

fun sextets :: "byte list \<Rightarrow> nat list" where
  "sextets [] = []"
| "sextets [a] = [unat a div 4, unat a mod 4 * 16]"
| "sextets [a, b] = [unat a div 4, unat a mod 4 * 16 + unat b div 16, unat b mod 16 * 4]"
| "sextets (a # b # c # rest) =
     [unat a div 4, unat a mod 4 * 16 + unat b div 16, unat b mod 16 * 4 + unat c div 64,
      unat c mod 64] @ sextets rest"

fun decodeSextets :: "nat list \<Rightarrow> byte list" where
  "decodeSextets (s1 # s2 # s3 # s4 # rest) =
     [word_of_nat (s1 * 4 + s2 div 16), word_of_nat (s2 mod 16 * 16 + s3 div 4),
      word_of_nat (s3 mod 4 * 64 + s4)] @ decodeSextets rest"
| "decodeSextets [s1, s2, s3] =
     [word_of_nat (s1 * 4 + s2 div 16), word_of_nat (s2 mod 16 * 16 + s3 div 4)]"
| "decodeSextets [s1, s2] = [word_of_nat (s1 * 4 + s2 div 16)]"
| "decodeSextets other = []"

definition asciiWs :: "char \<Rightarrow> bool" where
  "asciiWs c = (c \<in> set [CHR 0x09, CHR 0x0A, CHR 0x0C, CHR 0x0D, CHR 0x20])"

definition stripPadding :: "string \<Rightarrow> string" where
  "stripPadding d =
     (if length d mod 4 = 0 then
        (if suffix ''=='' d then take (length d - 2) d
         else if suffix ''='' d then take (length d - 1) d
         else d)
      else d)"

text \<open>
  \<^verbatim>\<open>Uint8Array.from(atob(data), c => c.charCodeAt(0))\<close>: the forgiving-base64 decode of
  the HTML Standard. ASCII white space is removed; when the length is a multiple of
  four, one or two trailing \<^verbatim>\<open>=\<close> are removed; a length that leaves the remainder 1,
  or any character outside the alphabet, throws \<^verbatim>\<open>InvalidCharacterError\<close>.
\<close>

definition atob :: "string \<Rightarrow> byte list result" where
  "atob dat =
     (let d = stripPadding (filter (\<lambda>c. \<not> asciiWs c) dat)
      in if length d mod 4 = 1 \<or> \<not> list_all (\<lambda>c. b64Value c \<noteq> None) d
         then Throw InvalidCharacterError
         else Return (decodeSextets (map (\<lambda>c. the (b64Value c)) d)))"

section \<open>SHA-256, HMAC and PBKDF2\<close>

type_synonym u32 = "32 word"

text \<open>
  The constants of FIPS 180-4 are fractional parts of roots of the first primes. The
  largest \<open>m\<close> below \<open>2^k\<close> with \<open>m^r \<le> n\<close> is found bit by bit.
\<close>

definition isPrime :: "nat \<Rightarrow> bool" where
  "isPrime n = (1 < n \<and> list_all (\<lambda>d. n mod d \<noteq> 0) [2..<n])"

definition rootBits :: "nat \<Rightarrow> nat \<Rightarrow> nat \<Rightarrow> nat" where
  "rootBits r k n = foldl (\<lambda>m i. if (m + 2 ^ i) ^ r \<le> n then m + 2 ^ i else m) 0 (rev [0..<k])"

text \<open>
  \<open>K256\<close>: the first 32 bits of the fractional parts of the cube roots of the first
  sixty-four primes, which are the primes below 312.
\<close>

definition K256 :: "u32 list" where
  "K256 = map (\<lambda>p. word_of_nat (rootBits 3 36 (p * 2 ^ 96))) (filter isPrime [2..<312])"

text \<open>
  \<open>H256\<close>: the first 32 bits of the fractional parts of the square roots of the first
  eight primes.
\<close>

definition H256 :: "u32 list" where
  "H256 = map (\<lambda>p. word_of_nat (rootBits 2 36 (p * 2 ^ 64))) (filter isPrime [2..<20])"

definition Ch :: "u32 \<Rightarrow> u32 \<Rightarrow> u32 \<Rightarrow> u32" where
  "Ch x y z = (x AND y) XOR (NOT x AND z)"

definition Maj :: "u32 \<Rightarrow> u32 \<Rightarrow> u32 \<Rightarrow> u32" where
  "Maj x y z = (x AND y) XOR (x AND z) XOR (y AND z)"

definition Sigma0 :: "u32 \<Rightarrow> u32" where
  "Sigma0 x = word_rotr 2 x XOR word_rotr 13 x XOR word_rotr 22 x"

definition Sigma1 :: "u32 \<Rightarrow> u32" where
  "Sigma1 x = word_rotr 6 x XOR word_rotr 11 x XOR word_rotr 25 x"

definition sigma0 :: "u32 \<Rightarrow> u32" where
  "sigma0 x = word_rotr 7 x XOR word_rotr 18 x XOR drop_bit 3 x"

definition sigma1 :: "u32 \<Rightarrow> u32" where
  "sigma1 x = word_rotr 17 x XOR word_rotr 19 x XOR drop_bit 10 x"

text \<open>Big-endian conversions between bytes and words.\<close>

definition be32 :: "byte list \<Rightarrow> u32" where
  "be32 bs = foldl (\<lambda>acc b. push_bit 8 acc OR ucast b) 0 bs"

definition bytes32 :: "u32 \<Rightarrow> byte list" where
  "bytes32 w = map (\<lambda>i. ucast (drop_bit (8 * (3 - i)) w)) [0..<4]"

definition bytes64 :: "nat \<Rightarrow> byte list" where
  "bytes64 n = map (\<lambda>i. word_of_nat (n div 2 ^ (8 * (7 - i)))) [0..<8]"

fun chunks :: "nat \<Rightarrow> 'a list \<Rightarrow> 'a list list" where
  "chunks n xs = (if n = 0 \<or> xs = [] then [] else take n xs # chunks n (drop n xs))"

declare chunks.simps [simp del]

text \<open>The message schedule: sixteen words of the block, extended to sixty-four.\<close>

fun extend :: "nat \<Rightarrow> u32 list \<Rightarrow> u32 list" where
  "extend 0 w = w"
| "extend (Suc k) w =
     (let t = length w
      in extend k (w @ [sigma1 (w ! (t - 2)) + w ! (t - 7) + sigma0 (w ! (t - 15)) + w ! (t - 16)]))"

definition round256 :: "u32 list \<Rightarrow> u32 \<times> u32 \<Rightarrow> u32 list" where
  "round256 st kw =
     (let a = st ! 0; b = st ! 1; c = st ! 2; d = st ! 3;
          e = st ! 4; f = st ! 5; g = st ! 6; h = st ! 7;
          T1 = h + Sigma1 e + Ch e f g + fst kw + snd kw;
          T2 = Sigma0 a + Maj a b c
      in [T1 + T2, a, b, c, d + T1, e, f, g])"

definition compress :: "u32 list \<Rightarrow> byte list \<Rightarrow> u32 list" where
  "compress H block =
     map2 (+) H (foldl round256 H (zip K256 (extend 48 (map be32 (chunks 4 block)))))"

definition pad256 :: "byte list \<Rightarrow> byte list" where
  "pad256 m = m @ [0x80] @ replicate ((119 - length m mod 64) mod 64) 0 @ bytes64 (8 * length m)"

definition sha256 :: "byte list \<Rightarrow> byte list" where
  "sha256 m = concat (map bytes32 (foldl compress H256 (chunks 64 (pad256 m))))"

text \<open>
  HMAC (RFC 2104) with SHA-256: a key longer than the block of 64 bytes is hashed
  first, and the key is then filled up with zero bytes to the length of the block.
\<close>

definition xorBytes :: "byte list \<Rightarrow> byte list \<Rightarrow> byte list" where
  "xorBytes xs ys = map2 (XOR) xs ys"

definition hmacKey :: "byte list \<Rightarrow> byte list" where
  "hmacKey k =
     (let k' = (if 64 < length k then sha256 k else k) in k' @ replicate (64 - length k') 0)"

definition hmacSha256 :: "byte list \<Rightarrow> byte list \<Rightarrow> byte list" where
  "hmacSha256 k m =
     sha256 (xorBytes (hmacKey k) (replicate 64 0x5c)
             @ sha256 (xorBytes (hmacKey k) (replicate 64 0x36) @ m))"

text \<open>
  PBKDF2 (RFC 8018) for one block of output, which is all a 256-bit key needs:
  \<open>U\<^sub>1 = PRF (P, S || INT 1)\<close>, \<open>U\<^sub>j = PRF (P, U\<^bsub>j-1\<^esub>)\<close>, and the exclusive or of all of them.
\<close>

fun pbkdf2Rounds :: "nat \<Rightarrow> byte list \<Rightarrow> byte list \<Rightarrow> byte list \<Rightarrow> byte list" where
  "pbkdf2Rounds 0 P u acc = acc"
| "pbkdf2Rounds (Suc j) P u acc =
     (let u' = hmacSha256 P u in pbkdf2Rounds j P u' (xorBytes acc u'))"

definition pbkdf2 :: "byte list \<Rightarrow> byte list \<Rightarrow> nat \<Rightarrow> byte list" where
  "pbkdf2 P S c =
     (let u1 = hmacSha256 P (S @ [0, 0, 0, 1]) in pbkdf2Rounds (c - 1) P u1 u1)"

section \<open>AES-256 and the Galois/Counter Mode\<close>

definition sboxTable :: "byte list" where
  "sboxTable =
     [0x63, 0x7c, 0x77, 0x7b, 0xf2, 0x6b, 0x6f, 0xc5, 0x30, 0x01, 0x67, 0x2b,
      0xfe, 0xd7, 0xab, 0x76, 0xca, 0x82, 0xc9, 0x7d, 0xfa, 0x59, 0x47, 0xf0,
      0xad, 0xd4, 0xa2, 0xaf, 0x9c, 0xa4, 0x72, 0xc0, 0xb7, 0xfd, 0x93, 0x26,
      0x36, 0x3f, 0xf7, 0xcc, 0x34, 0xa5, 0xe5, 0xf1, 0x71, 0xd8, 0x31, 0x15,
      0x04, 0xc7, 0x23, 0xc3, 0x18, 0x96, 0x05, 0x9a, 0x07, 0x12, 0x80, 0xe2,
      0xeb, 0x27, 0xb2, 0x75, 0x09, 0x83, 0x2c, 0x1a, 0x1b, 0x6e, 0x5a, 0xa0,
      0x52, 0x3b, 0xd6, 0xb3, 0x29, 0xe3, 0x2f, 0x84, 0x53, 0xd1, 0x00, 0xed,
      0x20, 0xfc, 0xb1, 0x5b, 0x6a, 0xcb, 0xbe, 0x39, 0x4a, 0x4c, 0x58, 0xcf,
      0xd0, 0xef, 0xaa, 0xfb, 0x43, 0x4d, 0x33, 0x85, 0x45, 0xf9, 0x02, 0x7f,
      0x50, 0x3c, 0x9f, 0xa8, 0x51, 0xa3, 0x40, 0x8f, 0x92, 0x9d, 0x38, 0xf5,
      0xbc, 0xb6, 0xda, 0x21, 0x10, 0xff, 0xf3, 0xd2, 0xcd, 0x0c, 0x13, 0xec,
      0x5f, 0x97, 0x44, 0x17, 0xc4, 0xa7, 0x7e, 0x3d, 0x64, 0x5d, 0x19, 0x73,
      0x60, 0x81, 0x4f, 0xdc, 0x22, 0x2a, 0x90, 0x88, 0x46, 0xee, 0xb8, 0x14,
      0xde, 0x5e, 0x0b, 0xdb, 0xe0, 0x32, 0x3a, 0x0a, 0x49, 0x06, 0x24, 0x5c,
      0xc2, 0xd3, 0xac, 0x62, 0x91, 0x95, 0xe4, 0x79, 0xe7, 0xc8, 0x37, 0x6d,
      0x8d, 0xd5, 0x4e, 0xa9, 0x6c, 0x56, 0xf4, 0xea, 0x65, 0x7a, 0xae, 0x08,
      0xba, 0x78, 0x25, 0x2e, 0x1c, 0xa6, 0xb4, 0xc6, 0xe8, 0xdd, 0x74, 0x1f,
      0x4b, 0xbd, 0x8b, 0x8a, 0x70, 0x3e, 0xb5, 0x66, 0x48, 0x03, 0xf6, 0x0e,
      0x61, 0x35, 0x57, 0xb9, 0x86, 0xc1, 0x1d, 0x9e, 0xe1, 0xf8, 0x98, 0x11,
      0x69, 0xd9, 0x8e, 0x94, 0x9b, 0x1e, 0x87, 0xe9, 0xce, 0x55, 0x28, 0xdf,
      0x8c, 0xa1, 0x89, 0x0d, 0xbf, 0xe6, 0x42, 0x68, 0x41, 0x99, 0x2d, 0x0f,
      0xb0, 0x54, 0xbb, 0x16]"

definition sbox :: "byte \<Rightarrow> byte" where
  "sbox b = sboxTable ! unat b"

text \<open>Multiplication by \<open>x\<close> in the field of AES.\<close>

definition xtime :: "byte \<Rightarrow> byte" where
  "xtime b = (if bit b 7 then push_bit 1 b XOR 0x1b else push_bit 1 b)"

definition subWord :: "u32 \<Rightarrow> u32" where
  "subWord w = be32 (map sbox (bytes32 w))"

definition rcon :: "nat \<Rightarrow> u32" where
  "rcon i = push_bit 24 (ucast (((xtime ^^ (i - 1)) 1) :: byte))"

text \<open>The key expansion of FIPS 197 for a key of eight words: sixty words in all.\<close>

fun expandKey :: "nat \<Rightarrow> u32 list \<Rightarrow> u32 list" where
  "expandKey 0 w = w"
| "expandKey (Suc k) w =
     (let i = length w;
          t = w ! (i - 1);
          t' = (if i mod 8 = 0 then subWord (word_rotl 8 t) XOR rcon (i div 8)
                else if i mod 8 = 4 then subWord t
                else t)
      in expandKey k (w @ [w ! (i - 8) XOR t']))"

definition keySchedule :: "byte list \<Rightarrow> byte list list" where
  "keySchedule k = chunks 16 (concat (map bytes32 (expandKey 52 (map be32 (chunks 4 k)))))"

text \<open>The state is the list of its sixteen bytes, column after column.\<close>

definition shiftRows :: "byte list \<Rightarrow> byte list" where
  "shiftRows st = map (\<lambda>i. st ! ((i mod 4) + 4 * ((i div 4 + i mod 4) mod 4))) [0..<16]"

definition mixColumn :: "byte list \<Rightarrow> byte list" where
  "mixColumn col =
     (let a0 = col ! 0; a1 = col ! 1; a2 = col ! 2; a3 = col ! 3
      in [xtime a0 XOR (xtime a1 XOR a1) XOR a2 XOR a3,
          a0 XOR xtime a1 XOR (xtime a2 XOR a2) XOR a3,
          a0 XOR a1 XOR xtime a2 XOR (xtime a3 XOR a3),
          (xtime a0 XOR a0) XOR a1 XOR a2 XOR xtime a3])"

definition mixColumns :: "byte list \<Rightarrow> byte list" where
  "mixColumns st = concat (map mixColumn (chunks 4 st))"

definition aesRound :: "byte list \<Rightarrow> byte list \<Rightarrow> byte list" where
  "aesRound st rk = xorBytes (mixColumns (shiftRows (map sbox st))) rk"

text \<open>The cipher of FIPS 197 with fourteen rounds, on one block of sixteen bytes.\<close>

definition aesEncryptBlock :: "byte list \<Rightarrow> byte list \<Rightarrow> byte list" where
  "aesEncryptBlock k block =
     (let rks = keySchedule k;
          st0 = xorBytes block (rks ! 0);
          st13 = foldl aesRound st0 (take 13 (drop 1 rks))
      in xorBytes (shiftRows (map sbox st13)) (rks ! 14))"

type_synonym u128 = "128 word"

definition be128 :: "byte list \<Rightarrow> u128" where
  "be128 bs = foldl (\<lambda>acc b. push_bit 8 acc OR ucast b) 0 bs"

definition bytes128 :: "u128 \<Rightarrow> byte list" where
  "bytes128 w = map (\<lambda>i. ucast (drop_bit (8 * (15 - i)) w)) [0..<16]"

definition aes :: "byte list \<Rightarrow> u128 \<Rightarrow> u128" where
  "aes k x = be128 (aesEncryptBlock k (bytes128 x))"

text \<open>
  Multiplication in \<open>GF(2^128)\<close> as NIST SP 800-38D writes it: the bits of \<open>x\<close> are read
  from the most significant one, and \<open>v\<close> is shifted right and reduced by \<open>R\<close>.
\<close>

fun gfRounds :: "nat \<Rightarrow> u128 \<Rightarrow> u128 \<Rightarrow> u128 \<Rightarrow> u128" where
  "gfRounds 0 x v z = z"
| "gfRounds (Suc k) x v z =
     gfRounds k x
       (if bit v 0 then drop_bit 1 v XOR push_bit 120 0xE1 else drop_bit 1 v)
       (if bit x k then z XOR v else z)"

definition gfMult :: "u128 \<Rightarrow> u128 \<Rightarrow> u128" where
  "gfMult x y = gfRounds 128 x y 0"

definition padBlock :: "byte list \<Rightarrow> byte list" where
  "padBlock bs = bs @ replicate (16 - length bs) 0"

definition blocks128 :: "byte list \<Rightarrow> u128 list" where
  "blocks128 bs = map (\<lambda>c. be128 (padBlock c)) (chunks 16 bs)"

definition ghash :: "u128 \<Rightarrow> u128 list \<Rightarrow> u128" where
  "ghash h xs = foldl (\<lambda>y x. gfMult (y XOR x) h) 0 xs"

definition lengthBlock :: "nat \<Rightarrow> nat \<Rightarrow> u128" where
  "lengthBlock a c = be128 (bytes64 (8 * a) @ bytes64 (8 * c))"

text \<open>The counter: its last 32 bits are incremented modulo \<open>2^32\<close>.\<close>

definition inc32 :: "u128 \<Rightarrow> u128" where
  "inc32 x = (x AND NOT (mask 32)) OR ((x + 1) AND mask 32)"

definition J0 :: "u128 \<Rightarrow> byte list \<Rightarrow> u128" where
  "J0 h iv =
     (if length iv = 12 then be128 (iv @ [0, 0, 0, 1])
      else ghash h (blocks128 iv @ [lengthBlock 0 (length iv)]))"

fun keystream :: "byte list \<Rightarrow> u128 \<Rightarrow> nat \<Rightarrow> byte list" where
  "keystream k ctr 0 = []"
| "keystream k ctr (Suc n) = bytes128 (aes k ctr) @ keystream k (inc32 ctr) n"

text \<open>\<open>GCTR\<close>: the exclusive or of the data with as much of the key stream.\<close>

definition gctr :: "byte list \<Rightarrow> u128 \<Rightarrow> byte list \<Rightarrow> byte list" where
  "gctr k ctr xs = xorBytes xs (keystream k ctr ((length xs + 15) div 16))"

definition gcmTag :: "byte list \<Rightarrow> byte list \<Rightarrow> byte list \<Rightarrow> byte list" where
  "gcmTag k iv c =
     (let h = aes k 0
      in bytes128 (aes k (J0 h iv) XOR ghash h (blocks128 c @ [lengthBlock 0 (length c)])))"

text \<open>
  \<^verbatim>\<open>crypto.subtle.encrypt({ name: "AES-GCM", iv }, key, plaintext)\<close> with no additional
  data and the default tag of 128 bits: the ciphertext followed by the tag. The bounds
  of the Web Cryptography API on the lengths (\<open>2^39 - 256\<close> bytes of text) are above
  what the engine can hold in a string and are left out.
\<close>

definition AES_GCM_encrypt :: "byte list \<Rightarrow> byte list \<Rightarrow> byte list \<Rightarrow> byte list" where
  "AES_GCM_encrypt k iv plaintext =
     (let c = gctr k (inc32 (J0 (aes k 0) iv)) plaintext in c @ gcmTag k iv c)"

text \<open>
  \<^verbatim>\<open>crypto.subtle.decrypt({ name: "AES-GCM", iv }, key, data)\<close>: data shorter than
  the tag, or a tag that does not verify, throws \<^verbatim>\<open>OperationError\<close>.
\<close>

definition AES_GCM_decrypt :: "byte list \<Rightarrow> byte list \<Rightarrow> byte list \<Rightarrow> byte list result" where
  "AES_GCM_decrypt k iv dat =
     (if length dat < 16 then Throw OperationError
      else
        (let c = take (length dat - 16) dat;
             tag = drop (length dat - 16) dat
         in if gcmTag k iv c = tag
            then Return (gctr k (inc32 (J0 (aes k 0) iv)) c)
            else Throw OperationError))"

section \<open>The encryption of the script\<close>

text \<open>
  The random source of the platform is a stream of bytes; \<^verbatim>\<open>crypto.getRandomValues\<close>
  and \<^verbatim>\<open>crypto.randomUUID\<close> take the bytes they need from its front.
\<close>

type_synonym rng = "nat \<Rightarrow> byte"

definition getRandomValues :: "nat \<Rightarrow> rng \<Rightarrow> byte list \<times> rng" where
  "getRandomValues n g = (map g [0..<n], \<lambda>i. g (n + i))"

definition hexByte :: "byte \<Rightarrow> string" where
  "hexByte b = [hexDigit (unat b div 16), hexDigit (unat b mod 16)]"

text \<open>A version 4 UUID (RFC 4122) of sixteen random bytes.\<close>

definition randomUUID :: "rng \<Rightarrow> string \<times> rng" where
  "randomUUID g =
     (let (b, g') = getRandomValues 16 g;
          b' = b[6 := (b ! 6 AND 0x0f) OR 0x40, 8 := (b ! 8 AND 0x3f) OR 0x80];
          h = map hexByte b'
      in (concat (take 4 h) @ ''-'' @ concat (take 2 (drop 4 h)) @ ''-''
            @ concat (take 2 (drop 6 h)) @ ''-'' @ concat (take 2 (drop 8 h)) @ ''-''
            @ concat (drop 10 h), g'))"

definition PBKDF2_ITERATIONS :: nat where
  "PBKDF2_ITERATIONS = 100000"

definition SALT_LENGTH :: nat where
  "SALT_LENGTH = 16"

definition IV_LENGTH :: nat where
  "IV_LENGTH = 12"

text \<open>
  \<^verbatim>\<open>deriveKey\<close>, lines 25 to 50: the bytes of the AES-256 key that PBKDF2 with
  HMAC-SHA-256 derives from the encoded master key and the salt.
\<close>

definition deriveKey :: "string \<Rightarrow> byte list \<Rightarrow> byte list" where
  "deriveKey masterKey saltBytes =
     (let keyMaterial = TextEncoder_encode (Val masterKey)
      in take 32 (pbkdf2 keyMaterial saltBytes PBKDF2_ITERATIONS))"

record EncryptedJwk =
  encrypted :: string
  salt :: string

text \<open>
  \<^verbatim>\<open>String.fromCharCode(...bytes)\<close>, lines 74 and 75: every byte is an argument of the
  call. JavaScriptCore, the engine of Bun, accepts at most 65536 arguments; with more the
  call throws a \<^verbatim>\<open>RangeError\<close>. Otherwise the result is the binary string of the bytes.
\<close>

definition maxArguments :: nat where
  "maxArguments = 65536"

definition fromCharCodeSpread :: "byte list \<Rightarrow> byte list result" where
  "fromCharCodeSpread bytes =
     (if maxArguments < length bytes then Throw (RangeError ''String.fromCharCode'')
      else Return bytes)"

text \<open>\<^verbatim>\<open>encryptJwk\<close>, lines 52 to 77.\<close>

definition encryptJwk :: "jsval \<Rightarrow> string \<Rightarrow> rng \<Rightarrow> (EncryptedJwk \<times> rng) result" where
  "encryptJwk jwk masterKey g =
     (let (saltBytes, g1) = getRandomValues SALT_LENGTH g;
          (iv, g2) = getRandomValues IV_LENGTH g1;
          key = deriveKey masterKey saltBytes
      in andThen (JSON_stringify jwk) (\<lambda>text.
           let plaintext = TextEncoder_encode text;
               ciphertext = AES_GCM_encrypt key iv plaintext;
               combined = iv @ ciphertext
           in andThen (fromCharCodeSpread combined) (\<lambda>combinedChars.
              andThen (fromCharCodeSpread saltBytes) (\<lambda>saltChars.
                Return (\<lparr>encrypted = btoa combinedChars, salt = btoa saltChars\<rparr>, g2)))))"

text \<open>
  The number of bytes of the blob that \<^verbatim>\<open>encryptJwk\<close> builds for a value: the nonce, the
  encoded JSON text, and the tag of 16 bytes.
\<close>

definition blobLength :: "jsval \<Rightarrow> nat" where
  "blobLength jwk =
     (case JSON_stringify jwk of
        Return text \<Rightarrow> IV_LENGTH + length (TextEncoder_encode text) + 16
      | _ \<Rightarrow> 0)"

text \<open>\<^verbatim>\<open>decryptJwk\<close>, lines 79 to 99.\<close>

definition decryptJwk :: "string \<Rightarrow> string \<Rightarrow> string \<Rightarrow> jsval result" where
  "decryptJwk encryptedB64 saltB64 masterKey =
     andThen (atob encryptedB64) (\<lambda>combined.
     andThen (atob saltB64) (\<lambda>saltBytes.
       let iv = take IV_LENGTH combined;
           ciphertext = drop IV_LENGTH combined;
           key = deriveKey masterKey saltBytes
       in andThen (AES_GCM_decrypt key iv ciphertext) (\<lambda>plaintext.
            JSON_parse (TextDecoder_decode plaintext))))"

section \<open>Key validation\<close>

datatype channel = Log | Warn | Err | Out

type_synonym console = "(channel \<times> string) list"

text \<open>
  How a run or a part of it ends: it goes on (\<open>Done\<close>), the process exits with a code,
  an error is not caught (the runtime prints it and exits with code 1), or the input
  lies beyond the embedding.
\<close>

datatype status = Done | Exit int | Uncaught error | Unmodelled

text \<open>
  The message of an error. The engine writes the messages of its own \<^verbatim>\<open>SyntaxError\<close>
  and \<^verbatim>\<open>TypeError\<close>; their wording is a parameter \<open>E\<close> of the embedding.
\<close>

definition message :: "(error \<Rightarrow> string) \<Rightarrow> error \<Rightarrow> string" where
  "message E e = (case e of DOMException nm msg \<Rightarrow> msg | Error msg \<Rightarrow> msg | _ \<Rightarrow> E e)"

definition nl :: string where
  "nl = [CHR 0x0A]"

definition testJwk :: jsval where
  "testJwk = JObj [(''kty'', JStr ''RSA''), (''n'', JStr ''test-n''), (''e'', JStr ''AQAB''),
                   (''d'', JStr ''test-d'')]"

text \<open>The comparison of line 117 and the \<^verbatim>\<open>throw\<close> of line 118.\<close>

definition selfTestCheck :: "jsval \<Rightarrow> unit result" where
  "selfTestCheck decrypted =
     andThen (getProp decrypted ''kty'') (\<lambda>kty.
     andThen (getProp testJwk ''kty'') (\<lambda>kty0.
       if kty \<noteq> kty0 then Throw (Error ''Decrypted JWK does not match original'')
       else
         andThen (getProp decrypted ''n'') (\<lambda>n.
         andThen (getProp testJwk ''n'') (\<lambda>n0.
           if n \<noteq> n0 then Throw (Error ''Decrypted JWK does not match original'')
           else
             andThen (getProp decrypted ''d'') (\<lambda>d.
             andThen (getProp testJwk ''d'') (\<lambda>d0.
               if d \<noteq> d0 then Throw (Error ''Decrypted JWK does not match original'')
               else Return ()))))))"

text \<open>The body of the first \<^verbatim>\<open>try\<close>, lines 115 to 119.\<close>

definition selfTest :: "string \<Rightarrow> rng \<Rightarrow> rng result" where
  "selfTest masterKey g =
     andThen (encryptJwk testJwk masterKey g) (\<lambda>(enc, g').
     andThen (decryptJwk (encrypted enc) (salt enc) masterKey) (\<lambda>decrypted.
     andThen (selfTestCheck decrypted) (\<lambda>_. Return g')))"

text \<open>
  What \<^verbatim>\<open>Bun.spawn\<close> and the reads of lines 152 to 154 give: the call fails, or the
  process ends with an exit code, its standard output and its standard error.
\<close>

datatype spawn = SpawnFails error | Exited int string string

definition showInt :: "int \<Rightarrow> string" where
  "showInt i = (if i < 0 then ''-'' else []) @ decimal (nat \<bar>i\<bar>)"

definition wsLengthEnd :: "string \<Rightarrow> nat" where
  "wsLengthEnd s =
     (if s = [] then 0
      else if wsAscii (last s) then 1
      else (case filter (\<lambda>w. suffix w s) wsMultibyte of [] \<Rightarrow> 0 | w # ws \<Rightarrow> length w))"

function trimEnd :: "string \<Rightarrow> string" where
  "trimEnd s = (if wsLengthEnd s = 0 then s else trimEnd (take (length s - wsLengthEnd s) s))"
  by pat_completeness auto
termination
  by (relation "measure length") (auto simp: wsLengthEnd_def split: list.splits if_splits)

declare trimEnd.simps [simp del]

text \<open>\<^verbatim>\<open>s.trim().split("\n").pop()\<close>: what follows the last line feed of the trimmed text.\<close>

definition lastLine :: "string \<Rightarrow> string" where
  "lastLine s = rev (takeWhile (\<lambda>c. c \<noteq> CHR 0x0A) (rev (trimEnd (trimStart s))))"

text \<open>\<^verbatim>\<open>v?.[0]\<close> and \<^verbatim>\<open>v?.results\<close>.\<close>

definition optIndex0 :: "jsval \<Rightarrow> jsval result" where
  "optIndex0 v = (if v = JNull \<or> v = JUndefined then Return JUndefined else getIndex0 v)"

definition optProp :: "jsval \<Rightarrow> string \<Rightarrow> jsval result" where
  "optProp v k = (if v = JNull \<or> v = JUndefined then Return JUndefined else getProp v k)"

text \<open>The test of line 181 and the \<^verbatim>\<open>throw\<close> of line 182.\<close>

definition requiredFields :: "jsval \<Rightarrow> unit result" where
  "requiredFields jwk =
     andThen (getProp jwk ''kty'') (\<lambda>kty.
     andThen (getProp jwk ''n'') (\<lambda>n.
     andThen (getProp jwk ''e'') (\<lambda>e.
     andThen (getProp jwk ''d'') (\<lambda>d.
       if \<not> truthy kty \<or> \<not> truthy n \<or> \<not> truthy e \<or> \<not> truthy d
       then Throw (Error ''Decrypted production JWK is missing required fields'')
       else Return ()))))"

text \<open>
  Lines 178 to 188: the first row is taken apart, decrypted and checked. The arguments
  of \<^verbatim>\<open>decryptJwk\<close> are whatever the row holds; \<^verbatim>\<open>atob\<close> converts them to strings.
\<close>

definition checkSample :: "jsval \<Rightarrow> string \<Rightarrow> console result" where
  "checkSample rows masterKey =
     andThen (getIndex0 rows) (\<lambda>row.
     andThen (getProp row ''encrypted_jwk'') (\<lambda>encrypted_jwk.
     andThen (getProp row ''salt'') (\<lambda>walletSalt.
     andThen (getProp row ''address'') (\<lambda>address.
     andThen (toStringArg encrypted_jwk) (\<lambda>encryptedB64.
     andThen (toStringArg walletSalt) (\<lambda>saltB64.
     andThen (decryptJwk encryptedB64 saltB64 masterKey) (\<lambda>jwk.
     andThen (requiredFields jwk) (\<lambda>_.
     andThen (toStringArg address) (\<lambda>addressText.
       Return
         [(Log, ''        Successfully decrypted production wallet (address: '' @ addressText @ '').''),
          (Log, ''        Encryption key is valid.'' @ nl)])))))))))"

text \<open>
  The body of the second \<^verbatim>\<open>try\<close>, lines 133 to 188: the lines it prints and how it
  ends (\<open>Return\<close> for both \<^verbatim>\<open>return\<close> statements and for reaching its end).
\<close>

definition liveValidate :: "spawn \<Rightarrow> string \<Rightarrow> console \<times> unit result" where
  "liveValidate proc masterKey =
     (case proc of
        SpawnFails e \<Rightarrow> ([], Throw e)
      | Exited exitCode stdout stderr \<Rightarrow>
          if exitCode \<noteq> 0 then
            ([(Warn, ''        Could not query production DB (exit code '' @ showInt exitCode @ '').'')]
             @ (if stderr \<noteq> [] then [(Warn, ''        stderr: '' @ lastLine stderr)] else [])
             @ [(Warn, ''        Skipping production validation. Proceeding with self-test only.'')],
             Return ())
          else
            (case JSON_parse stdout of
               Throw e \<Rightarrow> ([], Throw e)
             | Beyond \<Rightarrow> ([], Beyond)
             | Return results \<Rightarrow>
                 (case andThen (optIndex0 results) (\<lambda>first. optProp first ''results'') of
                    Throw e \<Rightarrow> ([], Throw e)
                  | Beyond \<Rightarrow> ([], Beyond)
                  | Return rows \<Rightarrow>
                      if \<not> truthy rows \<or> lengthIsZero rows then
                        ([(Warn, ''        No wallets found in production DB. Skipping production validation.'')],
                         Return ())
                      else
                        (case checkSample rows masterKey of
                           Throw e \<Rightarrow> ([], Throw e)
                         | Beyond \<Rightarrow> ([], Beyond)
                         | Return logs \<Rightarrow> (logs, Return ())))))"

text \<open>The test of the \<^verbatim>\<open>catch\<close> clause, lines 190 to 195.\<close>

definition isDecryptFailure :: "(error \<Rightarrow> string) \<Rightarrow> error \<Rightarrow> bool" where
  "isDecryptFailure E e =
     (sublist ''Unsupported state'' (message E e)
      \<or> sublist ''decrypt'' (message E e)
      \<or> sublist ''operation'' (message E e))"

definition keyMismatchDiagnostic :: console where
  "keyMismatchDiagnostic =
     [(Err, nl @ ''  ERROR: Encryption key does NOT match production.''),
      (Err, ''  The provided WALLET_ENCRYPTION_KEY cannot decrypt existing production wallets.''),
      (Err, ''  Aborting migration to prevent data corruption.'' @ nl)]"

text \<open>
  The second step, lines 128 to 206, given what the body of its \<^verbatim>\<open>try\<close> did: the
  \<^verbatim>\<open>catch\<close> clause exits with code 1 on a decrypt failure and throws any other error
  again.
\<close>

definition liveValidateStep :: "(error \<Rightarrow> string) \<Rightarrow> console \<times> unit result \<Rightarrow> status \<times> console" where
  "liveValidateStep E body =
     (case snd body of
        Return _ \<Rightarrow> (Done, fst body)
      | Beyond \<Rightarrow> (Unmodelled, fst body)
      | Throw e \<Rightarrow>
          if isDecryptFailure E e then (Exit 1, fst body @ keyMismatchDiagnostic)
          else (Uncaught e, fst body))"

text \<open>
  \<^verbatim>\<open>validateEncryptionKey\<close> from the first \<^verbatim>\<open>catch\<close> on, lines 120 to 207, given what
  the body of the first \<^verbatim>\<open>try\<close> did.
\<close>

definition validateFrom ::
  "(error \<Rightarrow> string) \<Rightarrow> spawn \<Rightarrow> string \<Rightarrow> rng \<Rightarrow> rng result \<Rightarrow> status \<times> console \<times> rng" where
  "validateFrom E proc masterKey g body1 =
     (case body1 of
        Throw e \<Rightarrow>
          (Exit 1, [(Err, ''        Round-trip self-test FAILED: '' @ message E e)], g)
      | Beyond \<Rightarrow> (Unmodelled, [], g)
      | Return g' \<Rightarrow>
          (let (st, logs) = liveValidateStep E (liveValidate proc masterKey)
           in (st,
               [(Log, ''        Round-trip self-test passed.''),
                (Log, ''  [2/2] Validating against production D1 database...'')] @ logs,
               g')))"

text \<open>\<^verbatim>\<open>validateEncryptionKey\<close>, lines 108 to 207.\<close>

definition validateEncryptionKey ::
  "(error \<Rightarrow> string) \<Rightarrow> spawn \<Rightarrow> string \<Rightarrow> rng \<Rightarrow> status \<times> console \<times> rng" where
  "validateEncryptionKey E proc masterKey g =
     (let (st, logs, g') = validateFrom E proc masterKey g (selfTest masterKey g)
      in (st,
          [(Log, nl @ ''Validating encryption key...''),
           (Log, ''  [1/2] Round-trip self-test...'')] @ logs,
          g'))"

section \<open>SQL helpers\<close>

text \<open>\<^verbatim>\<open>value.replace(/'/g, "''")\<close>: every single quote is doubled.\<close>

definition doubleQuotes :: "string \<Rightarrow> string" where
  "doubleQuotes v = concat (map (\<lambda>c. if c = CHR 0x27 then [CHR 0x27, CHR 0x27] else [c]) v)"

text \<open>\<^verbatim>\<open>sqlEscape\<close>, lines 212 to 215. \<^verbatim>\<open>value == null\<close> holds for null and undefined.\<close>

definition sqlEscape :: "string nullish \<Rightarrow> string" where
  "sqlEscape v =
     (if v = Null \<or> v = Undefined \<or> v = Val '''' then ''NULL''
      else (case v of Val s \<Rightarrow> [CHR 0x27] @ doubleQuotes s @ [CHR 0x27] | _ \<Rightarrow> ''NULL''))"

section \<open>Values that JSON carries unchanged\<close>

text \<open>Well-formed UTF-8: the byte sequences that the decoder leaves as they are.\<close>

fun validUtf8 :: "string \<Rightarrow> bool" where
  "validUtf8 [] = True"
| "validUtf8 (c # cs) =
     (if (of_char c :: nat) < 0x80 then validUtf8 cs
      else
        (case utf8Lead (of_char c) of
           None \<Rightarrow> False
         | Some (n, lo, hi) \<Rightarrow>
             continuation n lo hi (map byteOfChar cs) = n \<and> validUtf8 (drop n cs)))"

definition asciiText :: "string \<Rightarrow> bool" where
  "asciiText t = list_all (\<lambda>c. (of_char c :: nat) < 0x80) t"

text \<open>What can follow a value inside a JSON text, and what a value can start with.\<close>

definition delimited :: "string \<Rightarrow> bool" where
  "delimited rest =
     (rest = [] \<or> hd rest = CHR 0x2C \<or> hd rest = CHR 0x5D \<or> hd rest = CHR 0x7D)"

definition startChar :: "char \<Rightarrow> bool" where
  "startChar c =
     (c = CHR 0x7B \<or> c = CHR 0x5B \<or> c = CHR 0x22 \<or> c = CHR ''t'' \<or> c = CHR ''f''
      \<or> c = CHR ''n'' \<or> c = CHR ''-'' \<or> isDigit c)"

text \<open>
  The own properties of a JavaScript object come in the order \<^verbatim>\<open>objSet\<close> keeps: adding
  them one by one gives the same list.
\<close>

definition jsOrdered :: "(string \<times> jsval) list \<Rightarrow> bool" where
  "jsOrdered ms = (foldl (\<lambda>acc m. objSet acc (fst m) (snd m)) [] ms = ms)"

text \<open>
  The values that \<^verbatim>\<open>JSON.stringify\<close> followed by \<^verbatim>\<open>JSON.parse\<close> gives back as they
  are: no \<^verbatim>\<open>undefined\<close> inside, numbers that print as they are written, strings
  that are well-formed, objects whose properties are in the order of JavaScript.
\<close>

fun representable :: "jsval \<Rightarrow> bool"
  and representableElements :: "jsval list \<Rightarrow> bool"
  and representableMembers :: "(string \<times> jsval) list \<Rightarrow> bool"
where
  "representable JUndefined = False"
| "representable JNull = True"
| "representable (JBool b) = True"
| "representable (JNum lexeme) = (numberText lexeme = Some lexeme)"
| "representable (JStr str) = validUtf8 str"
| "representable (JArr vs) = representableElements vs"
| "representable (JObj ms) = (representableMembers ms \<and> jsOrdered ms)"
| "representableElements [] = True"
| "representableElements (v # vs) = (representable v \<and> representableElements vs)"
| "representableMembers [] = True"
| "representableMembers (m # ms) =
     (validUtf8 (fst m) \<and> representable (snd m) \<and> representableMembers ms)"

text \<open>
  A valid wallet secret: a JSON Web Key, that is an object, with a modulus \<^verbatim>\<open>n\<close>, a
  public exponent \<^verbatim>\<open>e\<close> and a private exponent \<^verbatim>\<open>d\<close> that the test of line 318
  accepts.
\<close>

definition validWalletSecret :: "jsval \<Rightarrow> bool" where
  "validWalletSecret w =
     (representable w
      \<and> (case w of
            JObj ms \<Rightarrow> truthy (lookup ms ''n'') \<and> truthy (lookup ms ''e'') \<and> truthy (lookup ms ''d'')
          | _ \<Rightarrow> False))"

text \<open>
  What \<^verbatim>\<open>encryptJwk\<close> draws from the random source \<open>g\<close>, the salt and then the nonce,
  and the ciphertext it computes from them, without the tag.
\<close>

definition saltOf :: "rng \<Rightarrow> byte list" where
  "saltOf g = fst (getRandomValues SALT_LENGTH g)"

definition ivOf :: "rng \<Rightarrow> byte list" where
  "ivOf g = fst (getRandomValues IV_LENGTH (snd (getRandomValues SALT_LENGTH g)))"


text \<open>
  The values that \<^verbatim>\<open>encryptJwk\<close> takes without running into a limit of the engine.
\<close>

definition withinLimits :: "jsval \<Rightarrow> bool" where
  "withinLimits w = (depth w \<le> maxDepth \<and> blobLength w \<le> maxArguments)"

text \<open>
  \<^verbatim>\<open>decryptJwk(encryptJwk(w, k1), k2)\<close>: a secret is encrypted under one master key and
  what comes out is decrypted under another.
\<close>

definition crossDecrypt :: "jsval \<Rightarrow> string \<Rightarrow> string \<Rightarrow> rng \<Rightarrow> jsval result" where
  "crossDecrypt w k1 k2 g =
     andThen (encryptJwk w k1 g) (\<lambda>r. decryptJwk (encrypted (fst r)) (salt (fst r)) k2)"

section \<open>The migration\<close>

text \<open>A row of the query of lines 252 to 279 (\<^verbatim>\<open>interface LegacyRow\<close>).\<close>

record LegacyRow =
  user_id :: string
  email :: string
  name :: string
  created :: string
  updated :: string
  wallet_address :: string
  regular_jwk :: string
  wallet_created :: string
  wallet_updated :: string
  github_id :: "string nullish"
  google_id :: "string nullish"

text \<open>
  Line 329: \<^verbatim>\<open>row.github_id ? parseInt(row.github_id, 10) : null\<close>. A string is truthy
  when it is not empty.
\<close>

definition githubIdOf :: "string nullish \<Rightarrow> jsnumber nullish" where
  "githubIdOf gid = (case gid of Val str \<Rightarrow> if str \<noteq> [] then Val (parseInt10 str) else Null | _ \<Rightarrow> Null)"

text \<open>Line 345: \<^verbatim>\<open>${githubId ?? "NULL"}\<close>.\<close>

definition githubIdText :: "jsnumber nullish \<Rightarrow> string result" where
  "githubIdText githubId = (case githubId of Val x \<Rightarrow> numberToString x | _ \<Rightarrow> Return ''NULL'')"

text \<open>The guard of the user insert, line 348.\<close>

definition userGuard :: "LegacyRow \<Rightarrow> string" where
  "userGuard row =
     '' WHERE NOT EXISTS (SELECT 1 FROM users WHERE email = '' @ sqlEscape (Val (email row)) @ '');''"

text \<open>The statement of lines 343 to 348.\<close>

definition userInsert :: "string \<Rightarrow> LegacyRow \<Rightarrow> string \<Rightarrow> string" where
  "userInsert userId row githubText =
     ''INSERT INTO users (id, email, name, avatar_url, github_id, github_username, github_access_token, google_id, google_access_token, created_at, updated_at)''
     @ '' SELECT '' @ sqlEscape (Val userId) @ '', '' @ sqlEscape (Val (email row)) @ '', ''
     @ sqlEscape (Val (name row)) @ '', NULL,''
     @ '' '' @ githubText @ '', NULL, NULL,''
     @ '' '' @ sqlEscape (google_id row) @ '', NULL,''
     @ '' '' @ sqlEscape (Val (created row)) @ '', '' @ sqlEscape (Val (updated row))
     @ userGuard row"

text \<open>The two guards of the wallet insert, lines 359 and 360.\<close>

definition walletGuard :: "LegacyRow \<Rightarrow> string" where
  "walletGuard row =
     '' WHERE NOT EXISTS (SELECT 1 FROM wallets WHERE user_id = (SELECT id FROM users WHERE email = ''
     @ sqlEscape (Val (email row)) @ ''))''
     @ ''   AND NOT EXISTS (SELECT 1 FROM wallets WHERE address = ''
     @ sqlEscape (Val (wallet_address row)) @ '');''"

text \<open>The statement of lines 354 to 360.\<close>

definition walletInsert :: "string \<Rightarrow> LegacyRow \<Rightarrow> EncryptedJwk \<Rightarrow> string" where
  "walletInsert walletId row enc =
     ''INSERT INTO wallets (id, user_id, address, encrypted_jwk, salt, created_at, updated_at)''
     @ '' SELECT '' @ sqlEscape (Val walletId) @ '',''
     @ '' (SELECT id FROM users WHERE email = '' @ sqlEscape (Val (email row)) @ ''),''
     @ '' '' @ sqlEscape (Val (wallet_address row)) @ '', '' @ sqlEscape (Val (encrypted enc))
     @ '', '' @ sqlEscape (Val (salt enc)) @ '',''
     @ '' '' @ sqlEscape (Val (wallet_created row)) @ '', '' @ sqlEscape (Val (wallet_updated row))
     @ walletGuard row"

text \<open>The variables of the loop: the statements, the two counters, the random source.\<close>

record loopState =
  sqlStatements :: "string list"
  migrated :: nat
  skipped :: nat
  rnd :: rng

text \<open>The test of line 318, \<^verbatim>\<open>!jwk.n || !jwk.e || !jwk.d\<close>.\<close>

definition missingFields :: "jsval \<Rightarrow> bool result" where
  "missingFields jwk =
     andThen (getProp jwk ''n'') (\<lambda>n.
     andThen (getProp jwk ''e'') (\<lambda>e.
     andThen (getProp jwk ''d'') (\<lambda>d.
       Return (\<not> truthy n \<or> \<not> truthy e \<or> \<not> truthy d))))"

text \<open>Lines 326 to 366: a record that passed both checks is encrypted and emitted.\<close>

definition emitRow :: "string \<Rightarrow> string \<Rightarrow> string \<Rightarrow> LegacyRow \<Rightarrow> jsval \<Rightarrow> loopState \<Rightarrow> console \<times> loopState result" where
  "emitRow masterKey userId walletId row jwk st =
     (case encryptJwk jwk masterKey (rnd st) of
        Throw e \<Rightarrow> ([], Throw e)
      | Beyond \<Rightarrow> ([], Beyond)
      | Return (enc, g) \<Rightarrow>
          (case githubIdText (githubIdOf (github_id row)) of
             Throw e \<Rightarrow> ([], Throw e)
           | Beyond \<Rightarrow> ([], Beyond)
           | Return githubText \<Rightarrow>
               ([(Out, ''  Encrypted wallet for '' @ email row @ nl)],
                Return
                  (st\<lparr>sqlStatements :=
                        sqlStatements st
                        @ [''-- User: '' @ email row @ '' (legacy ID: '' @ user_id row @ '')'',
                           userInsert userId row githubText,
                           walletInsert walletId row enc,
                           ''''],
                      migrated := migrated st + 1,
                      rnd := g\<rparr>))))"

text \<open>The body of the loop, lines 302 to 366, for one row.\<close>

definition migrateRow :: "string \<Rightarrow> LegacyRow \<Rightarrow> loopState \<Rightarrow> console \<times> loopState result" where
  "migrateRow masterKey row st0 =
     (let (userId, g1) = randomUUID (rnd st0);
          (walletId, g2) = randomUUID g1;
          st = st0\<lparr>rnd := g2\<rparr>
      in case JSON_parse (regular_jwk row) of
           Throw e \<Rightarrow>
             ([(Warn, ''  Skipping user '' @ email row @ '': invalid JWK JSON'')],
              Return (st\<lparr>skipped := skipped st + 1\<rparr>))
         | Beyond \<Rightarrow> ([], Beyond)
         | Return jwk \<Rightarrow>
             (case missingFields jwk of
                Throw e \<Rightarrow> ([], Throw e)
              | Beyond \<Rightarrow> ([], Beyond)
              | Return missing \<Rightarrow>
                  if missing then
                    ([(Warn, ''  Skipping user '' @ email row @ '': JWK missing required fields (n, e, d)'')],
                     Return (st\<lparr>skipped := skipped st + 1\<rparr>))
                  else emitRow masterKey userId walletId row jwk st))"

text \<open>The loop of line 301: an error that is thrown ends it.\<close>

fun migrateRows :: "string \<Rightarrow> LegacyRow list \<Rightarrow> loopState \<Rightarrow> console \<times> loopState result" where
  "migrateRows masterKey [] st = ([], Return st)"
| "migrateRows masterKey (row # rows) st =
     (case migrateRow masterKey row st of
        (printed, Return st') \<Rightarrow>
          (let (printed', res) = migrateRows masterKey rows st' in (printed @ printed', res))
      | (printed, Throw e) \<Rightarrow> (printed, Throw e)
      | (printed, Beyond) \<Rightarrow> (printed, Beyond))"

text \<open>
  What the run reads from its environment: the variable \<^verbatim>\<open>WALLET_ENCRYPTION_KEY\<close>, the
  random source, the outcome of the query of the production store, the two resolved
  paths, the rows of the legacy store (or the error that opening or querying it throws),
  the time of day, and the wording of the messages of the engine.
\<close>

record world =
  envKey :: "string nullish"
  random :: rng
  wrangler :: spawn
  pbDbPath :: string
  outputPath :: string
  legacyRows :: "LegacyRow list result"
  now :: string
  engine :: "error \<Rightarrow> string"

text \<open>What the run leaves: how it ended, what it printed, the file it wrote if any.\<close>

record run =
  status :: status
  printed :: console
  written :: "(string \<times> string) option"

definition header :: "world \<Rightarrow> nat \<Rightarrow> string list" where
  "header w n =
     [''-- Legacy PocketBase user migration'',
      ''-- Generated: '' @ now w,
      ''-- Users to migrate: '' @ decimal n,
      '''']"

definition summary :: "world \<Rightarrow> loopState \<Rightarrow> console" where
  "summary w st =
     [(Log, nl @ ''Done!''),
      (Log, ''  Migrated: '' @ decimal (migrated st)),
      (Log, ''  Skipped:  '' @ decimal (skipped st)),
      (Log, ''  Output:   '' @ outputPath w),
      (Log, nl @ ''To apply locally:''),
      (Log, ''  cd worker && npx wrangler d1 execute arlinkauth-db --local --file=../scripts/legacy-migration.sql''),
      (Log, nl @ ''To apply to production:''),
      (Log, ''  cd worker && npx wrangler d1 execute arlinkauth-db --remote --file=../scripts/legacy-migration.sql'')]"

text \<open>
  The script from line 231 on, once the key is validated: the rows are read, turned into
  statements, and the file is written.
\<close>

definition migrate :: "world \<Rightarrow> string \<Rightarrow> rng \<Rightarrow> run" where
  "migrate w masterKey g =
     (let reading = [(Log, ''Reading PocketBase database: '' @ pbDbPath w)]
      in case legacyRows w of
           Throw e \<Rightarrow> \<lparr>status = Uncaught e, printed = reading, written = None\<rparr>
         | Beyond \<Rightarrow> \<lparr>status = Unmodelled, printed = reading, written = None\<rparr>
         | Return rows \<Rightarrow>
             (let found = reading
                    @ [(Log, ''Found '' @ decimal (length rows) @ '' users with unencrypted wallets'')]
              in if length rows = 0 then
                   \<lparr>status = Exit 0, printed = found @ [(Log, ''Nothing to migrate.'')],
                    written = None\<rparr>
                 else
                   (case migrateRows masterKey rows
                           \<lparr>sqlStatements = header w (length rows), migrated = 0, skipped = 0,
                            rnd = g\<rparr> of
                      (out, Throw e) \<Rightarrow>
                        \<lparr>status = Uncaught e, printed = found @ out, written = None\<rparr>
                    | (out, Beyond) \<Rightarrow>
                        \<lparr>status = Unmodelled, printed = found @ out, written = None\<rparr>
                    | (out, Return st) \<Rightarrow>
                        \<lparr>status = Exit 0, printed = found @ out @ summary w st,
                         written = Some (outputPath w, joinWith nl (sqlStatements st))\<rparr>)))"



text \<open>The exit code of the process.\<close>

definition exitCode :: "status \<Rightarrow> int option" where
  "exitCode st = (case st of Exit c \<Rightarrow> Some c | Uncaught e \<Rightarrow> Some 1 | _ \<Rightarrow> None)"

section \<open>The statements of an SQL text\<close>












text \<open>A record and a random source to evaluate the definitions on.\<close>

definition sampleJwkText :: string where
  \<open>sampleJwkText = ''{"n":"x","e":"y","d":"z"}''\<close>

definition sampleJwk :: jsval where
  "sampleJwk = JObj [(''n'', JStr ''x''), (''e'', JStr ''y''), (''d'', JStr ''z'')]"

definition sampleRow :: LegacyRow where
  "sampleRow =
     \<lparr>user_id = ''u1'', email = ''ann@example.org'', name = ''Ann'', created = ''2025-07-24'',
      updated = ''2025-07-25'', wallet_address = ''addr1'', regular_jwk = sampleJwkText,
      wallet_created = ''2025-07-26'', wallet_updated = ''2025-07-27'',
      github_id = Val ''abc'', google_id = Null\<rparr>"

definition sampleRng :: rng where
  "sampleRng i = word_of_nat i"

definition sampleState :: loopState where
  "sampleState = \<lparr>sqlStatements = [], migrated = 0, skipped = 0, rnd = sampleRng\<rparr>"

text \<open>A key whose modulus has a million characters.\<close>

definition bigModulus :: string where
  "bigModulus = replicate 1000000 (CHR ''A'')"

definition bigJwk :: jsval where
  "bigJwk = JObj [(''kty'', JStr ''RSA''), (''n'', JStr bigModulus), (''e'', JStr ''AQAB''),
                  (''d'', JStr ''test-d'')]"

definition sampleEngine :: "error \<Rightarrow> string" where
  "sampleEngine e = ''message of the engine''"

text \<open>
  Output of the query of the production store: one wallet whose blob is not base64, one
  whose blob is empty, and no wallet at all.
\<close>

definition stdoutBadBase64 :: string where
  \<open>stdoutBadBase64 = ''[{"results":[{"encrypted_jwk":"!","salt":"","address":"a"}],"success":true}]''\<close>

definition stdoutShortBlob :: string where
  \<open>stdoutShortBlob = ''[{"results":[{"encrypted_jwk":"","salt":"","address":"a"}],"success":true}]''\<close>

definition stdoutNoRows :: string where
  \<open>stdoutNoRows = ''[{"results":[],"success":true}]''\<close>




section \<open>Properties of the platform functions\<close>

lemma andThen_Return_iff:
  "andThen r f = Return y \<longleftrightarrow> (\<exists>x. r = Return x \<and> f x = Return y)"
  by (cases r) auto

lemma andThen_Throw_iff:
  "andThen r f = Throw e \<longleftrightarrow> r = Throw e \<or> (\<exists>x. r = Return x \<and> f x = Throw e)"
  by (cases r) auto

lemma atob_cases: "atob s = Throw InvalidCharacterError \<or> (\<exists>bs. atob s = Return bs)"
  by (simp add: atob_def Let_def)

lemma AES_GCM_decrypt_short: "length dat < 16 \<Longrightarrow> AES_GCM_decrypt k iv dat = Throw OperationError"
  by (simp add: AES_GCM_decrypt_def)

lemma AES_GCM_decrypt_cases:
  "AES_GCM_decrypt k iv dat = Throw OperationError \<or> (\<exists>p. AES_GCM_decrypt k iv dat = Return p)"
  by (simp add: AES_GCM_decrypt_def Let_def)

lemma doubleQuotes_append: "doubleQuotes (a @ b) = doubleQuotes a @ doubleQuotes b"
  by (simp add: doubleQuotes_def)

section \<open>The loop on the sample record\<close>


lemma parse_sampleJwkText: "JSON_parse sampleJwkText = Return sampleJwk"
  by code_simp

lemma parse_null: "JSON_parse ''null'' = Return JNull"
  by code_simp

lemma stringify_sampleJwk: "JSON_stringify sampleJwk = Return (Val sampleJwkText)"
  by code_simp

lemma missingFields_sampleJwk: "missingFields sampleJwk = Return False"
  by (simp add: missingFields_def sampleJwk_def lookup_def)

lemma migrateRow_null:
  "migrateRow masterKey (row\<lparr>regular_jwk := ''null''\<rparr>) st = ([], Throw (TypeError ''n''))"
  by (simp add: migrateRow_def parse_null missingFields_def split: prod.splits)

lemma migrate_Throw:
  assumes "legacyRows w = Return rows" and "rows \<noteq> []"
    and "\<And>st. snd (migrateRows masterKey rows st) = Throw e"
  shows "status (migrate w masterKey g) = Uncaught e \<and> written (migrate w masterKey g) = None"
proof -
  let ?st0 = "\<lparr>sqlStatements = header w (length rows), migrated = 0, skipped = 0, rnd = g\<rparr>"
  obtain out where "migrateRows masterKey rows ?st0 = (out, Throw e)"
    using assms(3) [of ?st0] by (cases "migrateRows masterKey rows ?st0") auto
  then show ?thesis
    using assms(1,2) by (simp add: migrate_def Let_def)
qed

lemma userInsert_NaN:
  "userInsert userId row ''NaN'' =
     ''INSERT INTO users (id, email, name, avatar_url, github_id, github_username, github_access_token, google_id, google_access_token, created_at, updated_at)''
     @ '' SELECT '' @ sqlEscape (Val userId) @ '', '' @ sqlEscape (Val (email row)) @ '', ''
     @ sqlEscape (Val (name row)) @ '', NULL, NaN, NULL, NULL, '' @ sqlEscape (google_id row)
     @ '', NULL, '' @ sqlEscape (Val (created row)) @ '', '' @ sqlEscape (Val (updated row))
     @ userGuard row"
  by (simp add: userInsert_def)

lemma trimStart_abc: "trimStart ''abc'' = ''abc''"
  by (simp add: trimStart.simps wsLength_def wsAscii_def wsMultibyte_def)

lemma parseInt_abc: "parseInt10 ''abc'' = NaN"
  by (simp add: parseInt10_def trimStart_abc isDigit_def)

section \<open>\<^verbatim>\<open>atob\<close> undoes \<^verbatim>\<open>btoa\<close>\<close>


lemma unat_byte_lt: "unat (b :: byte) < 256"
  using unsigned_less [of b, where 'a = nat] by simp

lemma word_of_unat_byte: "word_of_nat (unat (b :: byte)) = b"
  by simp

lemma b64Value_b64Char: "k < 64 \<Longrightarrow> b64Value (b64Char k) = Some k"
  by (auto simp: b64Value_def b64Char_def Let_def)

lemma asciiWs_no_value: "asciiWs c \<Longrightarrow> b64Value c = None"
  by (auto simp: asciiWs_def b64Value_def)

lemma pad_no_value: "b64Value (CHR ''='') = None"
  by (simp add: b64Value_def)

lemma b64Char_not_ws: "k < 64 \<Longrightarrow> \<not> asciiWs (b64Char k)"
  using b64Value_b64Char [of k] asciiWs_no_value [of "b64Char k"] by auto

lemma b64Char_not_pad: "k < 64 \<Longrightarrow> b64Char k \<noteq> CHR ''=''"
  using b64Value_b64Char [of k] pad_no_value by auto

lemma sextet_bound1: "(x::nat) < 256 \<Longrightarrow> x div 4 < 64"
  by simp

lemma sextet_bound2: "(x::nat) < 256 \<Longrightarrow> y < 256 \<Longrightarrow> x mod 4 * 16 + y div 16 < 64"
proof -
  assume "y < 256"
  then have "y div 16 < 16" by simp
  moreover have "x mod 4 < 4" by simp
  ultimately show ?thesis by linarith
qed

lemma sextet_bound3: "(x::nat) < 256 \<Longrightarrow> y < 256 \<Longrightarrow> x mod 16 * 4 + y div 64 < 64"
proof -
  assume "y < 256"
  then have "y div 64 < 4" by simp
  moreover have "x mod 16 < 16" by simp
  ultimately show ?thesis by linarith
qed

lemma sextet_bound4: "(x::nat) mod 4 * 16 < 64"
proof -
  have "x mod 4 < 4" by simp
  then show ?thesis by linarith
qed

lemma sextet_bound5: "(x::nat) mod 16 * 4 < 64"
proof -
  have "x mod 16 < 16" by simp
  then show ?thesis by linarith
qed

lemma sextet_join1: "(y::nat) < 256 \<Longrightarrow> x div 4 * 4 + (x mod 4 * 16 + y div 16) div 16 = x"
proof -
  assume "y < 256"
  then have "y div 16 < 16" by simp
  then have "(x mod 4 * 16 + y div 16) div 16 = x mod 4" by simp
  then show ?thesis by simp
qed

lemma sextet_join2:
  "(y::nat) < 256 \<Longrightarrow> z < 256 \<Longrightarrow>
   (x mod 4 * 16 + y div 16) mod 16 * 16 + (y mod 16 * 4 + z div 64) div 4 = y"
proof -
  assume "y < 256" "z < 256"
  then have a: "y div 16 < 16" and b: "z div 64 < 4" by simp_all
  from a have "(x mod 4 * 16 + y div 16) mod 16 = y div 16" by simp
  moreover from b have "(y mod 16 * 4 + z div 64) div 4 = y mod 16" by simp
  ultimately show ?thesis by simp
qed

lemma sextet_join3: "(z::nat) < 256 \<Longrightarrow> (y mod 16 * 4 + z div 64) mod 4 * 64 + z mod 64 = z"
proof -
  assume "z < 256"
  then have b: "z div 64 < 4" by simp
  then have "(y mod 16 * 4 + z div 64) mod 4 = z div 64" by simp
  then show ?thesis by simp
qed

lemma sextet_join4: "(x::nat) div 4 * 4 + (x mod 4 * 16) div 16 = x"
  by simp

lemma sextet_join5:
  "(y::nat) < 256 \<Longrightarrow> (x mod 4 * 16 + y div 16) mod 16 * 16 + (y mod 16 * 4) div 4 = y"
proof -
  assume "y < 256"
  then have a: "y div 16 < 16" by simp
  from a have "(x mod 4 * 16 + y div 16) mod 16 = y div 16" by simp
  then show ?thesis by simp
qed


lemma sextets_lt: "list_all (\<lambda>k. k < 64) (sextets bs)"
proof (induction bs rule: sextets.induct)
  case 1
  show ?case by simp
next
  case (2 a)
  show ?case
    using sextet_bound1 [OF unat_byte_lt [of a]] sextet_bound4 [of "unat a"] by simp
next
  case (3 a b)
  show ?case
    using sextet_bound1 [OF unat_byte_lt [of a]]
      sextet_bound2 [OF unat_byte_lt [of a] unat_byte_lt [of b]]
      sextet_bound5 [of "unat b"] by simp
next
  case (4 a b c rest)
  then show ?case
    using sextet_bound1 [OF unat_byte_lt [of a]]
      sextet_bound2 [OF unat_byte_lt [of a] unat_byte_lt [of b]]
      sextet_bound3 [OF unat_byte_lt [of b] unat_byte_lt [of c]] by simp
qed

lemma decodeSextets_sextets: "decodeSextets (sextets bs) = bs"
proof (induction bs rule: sextets.induct)
  case 1
  show ?case by simp
next
  case (2 a)
  show ?case
    by (simp only: sextets.simps decodeSextets.simps sextet_join4 word_of_unat_byte)
next
  case (3 a b)
  show ?case
    by (simp only: sextets.simps decodeSextets.simps sextet_join1 [OF unat_byte_lt]
        sextet_join5 [OF unat_byte_lt] word_of_unat_byte)
next
  case (4 a b c rest)
  then show ?case
    by (simp only: sextets.simps decodeSextets.simps append_Cons append_Nil
        sextet_join1 [OF unat_byte_lt]
        sextet_join2 [OF unat_byte_lt unat_byte_lt]
        sextet_join3 [OF unat_byte_lt] word_of_unat_byte)
qed


lemma btoa_sextets:
  "btoa bs = map b64Char (sextets bs) @ replicate ((3 - length bs mod 3) mod 3) (CHR ''='')"
proof (induction bs rule: btoa.induct)
  case 1
  show ?case by simp
next
  case (2 a)
  have "replicate 2 (CHR ''='') = [CHR ''='', CHR ''='']"
    by (simp add: numeral_2_eq_2)
  then show ?case by simp
next
  case (3 a b)
  show ?case by simp
next
  case (4 a b c rest)
  have "length (a # b # c # rest) mod 3 = length rest mod 3"
    by simp
  with 4 show ?case by (simp del: length_Cons)
qed

lemma length_sextets_mod: "length (sextets bs) mod 4 \<noteq> 1"
  by (induction bs rule: sextets.induct) simp_all

lemma length_btoa: "length (btoa bs) mod 4 = 0"
  by (induction bs rule: btoa.induct) simp_all

lemma filter_btoa: "filter (\<lambda>c. \<not> asciiWs c) (btoa bs) = btoa bs"
proof -
  have "\<not> asciiWs (CHR ''='')"
    by (simp add: asciiWs_def)
  moreover have "\<forall>c \<in> set (map b64Char (sextets bs)). \<not> asciiWs c"
    using sextets_lt [of bs] b64Char_not_ws by (auto simp: list_all_iff)
  ultimately show ?thesis
    by (auto simp: btoa_sextets filter_id_conv)
qed

lemma pad_cases: "(3 - length bs mod 3) mod 3 = 0 \<or> (3 - length bs mod 3) mod 3 = 1
    \<or> (3 - length bs mod 3) mod 3 = 2"
proof -
  have "(3 - length bs mod 3) mod 3 < 3"
    by simp
  then show ?thesis
    by linarith
qed

lemma last_sextet_char: "bs \<noteq> [] \<Longrightarrow> sextets bs \<noteq> [] \<and> last (map b64Char (sextets bs)) \<noteq> CHR ''=''"
proof -
  assume "bs \<noteq> []"
  then have n: "sextets bs \<noteq> []"
    by (cases bs rule: sextets.cases) simp_all
  then have "last (sextets bs) < 64"
    using sextets_lt [of bs] by (simp add: list_all_iff)
  then show ?thesis
    using n b64Char_not_pad by (simp add: last_map)
qed

lemma stripPadding_btoa: "stripPadding (btoa bs) = map b64Char (sextets bs)"
proof (cases "bs = []")
  case True
  then show ?thesis by (simp add: stripPadding_def)
next
  case False
  let ?body = "map b64Char (sextets bs)"
  have nb: "?body \<noteq> []" and lb: "last ?body \<noteq> CHR ''=''"
    using last_sextet_char [OF False] by simp_all
  have len: "length (btoa bs) mod 4 = 0"
    by (rule length_btoa)
  from pad_cases [of bs] show ?thesis
  proof (elim disjE)
    assume p: "(3 - length bs mod 3) mod 3 = 0"
    then have b: "btoa bs = ?body"
      by (simp add: btoa_sextets)
    have "\<not> suffix ''='' ?body" and "\<not> suffix ''=='' ?body"
      using nb lb by (auto simp: suffix_def)
    with len b show ?thesis
      by (simp add: stripPadding_def)
  next
    assume p: "(3 - length bs mod 3) mod 3 = 1"
    then have b: "btoa bs = ?body @ ''=''"
      by (simp add: btoa_sextets)
    have "\<not> suffix ''=='' (?body @ ''='')"
    proof
      assume "suffix ''=='' (?body @ ''='')"
      then obtain zs where "?body @ ''='' = zs @ ''==''"
        by (auto simp: suffix_def)
      then have "?body = zs @ ''=''"
        by simp
      with lb show False
        by simp
    qed
    moreover have "suffix ''='' (?body @ ''='')"
      by (simp add: suffix_def)
    ultimately show ?thesis
      using len b by (simp add: stripPadding_def)
  next
    assume p: "(3 - length bs mod 3) mod 3 = 2"
    then have b: "btoa bs = ?body @ ''==''"
      by (simp add: btoa_sextets numeral_2_eq_2)
    have "suffix ''=='' (?body @ ''=='')"
      by (simp add: suffix_def)
    then show ?thesis
      using len b by (simp add: stripPadding_def)
  qed
qed

lemma atob_btoa: "atob (btoa bs) = Return bs"
proof -
  have v: "list_all (\<lambda>c. b64Value c \<noteq> None) (map b64Char (sextets bs))"
    using sextets_lt [of bs] b64Value_b64Char by (auto simp: list_all_iff)
  have m: "map (\<lambda>c. the (b64Value c)) (map b64Char (sextets bs)) = sextets bs"
    using sextets_lt [of bs] b64Value_b64Char by (auto simp: list_all_iff map_idI)
  show ?thesis
    using v m length_sextets_mod [of bs]
    by (simp add: atob_def filter_btoa stripPadding_btoa decodeSextets_sextets)
qed

section \<open>Decryption undoes encryption; keys that HMAC does not tell apart\<close>


lemma length_bytes128: "length (bytes128 w) = 16"
  by (simp add: bytes128_def)

lemma length_keystream: "length (keystream k ctr n) = 16 * n"
  by (induction n arbitrary: ctr) (simp_all add: length_bytes128)

lemma length_xorBytes: "length (xorBytes xs ys) = min (length xs) (length ys)"
  by (simp add: xorBytes_def)

lemma xorBytes_twice: "length xs \<le> length ks \<Longrightarrow> xorBytes (xorBytes xs ks) ks = xs"
proof (induction xs arbitrary: ks)
  case Nil
  show ?case by (simp add: xorBytes_def)
next
  case (Cons x xs)
  then obtain k ks' where "ks = k # ks'"
    by (cases ks) auto
  with Cons show ?case
    by (simp add: xorBytes_def xor.assoc)
qed

lemma keystream_covers: "length xs \<le> length (keystream k ctr ((length xs + 15) div 16))"
  by (simp add: length_keystream)

lemma length_gctr: "length (gctr k ctr xs) = length xs"
  using keystream_covers [of xs k ctr] by (simp add: gctr_def length_xorBytes)

lemma gctr_twice: "gctr k ctr (gctr k ctr xs) = xs"
  using keystream_covers [of xs k ctr]
  by (simp add: gctr_def [of k ctr "gctr k ctr xs"] length_gctr) (simp add: gctr_def xorBytes_twice)

lemma length_gcmTag: "length (gcmTag k iv c) = 16"
  by (simp add: gcmTag_def Let_def length_bytes128)

lemma AES_GCM_decrypt_encrypt: "AES_GCM_decrypt k iv (AES_GCM_encrypt k iv p) = Return p"
  by (simp add: AES_GCM_decrypt_def AES_GCM_encrypt_def Let_def length_gcmTag gctr_twice)

lemma length_AES_GCM_encrypt: "length (AES_GCM_encrypt k iv p) = length p + 16"
  by (simp add: AES_GCM_encrypt_def Let_def length_gcmTag length_gctr)

text \<open>Two keys that give the same tag and key stream decrypt alike.\<close>

lemma AES_GCM_decrypt_wrong_tag:
  "gcmTag k' iv (gctr k (inc32 (J0 (aes k 0) iv)) p) \<noteq> gcmTag k iv (gctr k (inc32 (J0 (aes k 0) iv)) p) \<Longrightarrow>
   AES_GCM_decrypt k' iv (AES_GCM_encrypt k iv p) = Throw OperationError"
  by (simp add: AES_GCM_decrypt_def AES_GCM_encrypt_def Let_def length_gcmTag)









section \<open>Well-formed text is decoded as it is\<close>




lemma of_char_lt: "(of_char c :: nat) < 256"
  by simp

lemma unat_byteOfChar: "unat (byteOfChar c) = of_char c"
  by (simp add: byteOfChar_def unat_of_nat)

lemma charOfByte_byteOfChar: "charOfByte (byteOfChar c) = c"
  by (simp add: charOfByte_def unat_byteOfChar)

lemma map_charOfByte: "map charOfByte (map byteOfChar cs) = cs"
  by (simp add: charOfByte_byteOfChar map_idI)

lemma continuation_le: "continuation n lo hi bs \<le> length bs"
  by (induction n lo hi bs rule: continuation.induct) auto

lemma utf8Decode_valid: "validUtf8 t \<Longrightarrow> utf8Decode (map byteOfChar t) = t"
proof (induction t rule: validUtf8.induct)
  case 1
  show ?case by simp
next
  case (2 c cs)
  show ?case
  proof (cases "(of_char c :: nat) < 0x80")
    case True
    with 2 show ?thesis
      by (simp add: unat_byteOfChar charOfByte_byteOfChar)
  next
    case False
    with "2.prems" obtain n lo hi where
      l: "utf8Lead (of_char c) = Some (n, lo, hi)" and
      k: "continuation n lo hi (map byteOfChar cs) = n" and
      v: "validUtf8 (drop n cs)"
      by (auto split: option.splits)
    have "n \<le> length cs"
      using continuation_le [of n lo hi "map byteOfChar cs"] k by simp
    then have tk: "take n cs @ drop n cs = cs"
      by simp
    have ih: "utf8Decode (map byteOfChar (drop n cs)) = drop n cs"
      using "2.IH"(2) [OF False l refl refl] v by simp
    have "utf8Decode (map byteOfChar (c # cs)) =
        map charOfByte (byteOfChar c # take n (map byteOfChar cs))
          @ utf8Decode (drop n (map byteOfChar cs))"
      using False l k by (simp add: unat_byteOfChar)
    also have "\<dots> = map charOfByte (map byteOfChar (c # take n cs))
          @ utf8Decode (map byteOfChar (drop n cs))"
      by (simp add: take_map drop_map)
    also have "\<dots> = (c # take n cs) @ drop n cs"
      by (simp only: map_charOfByte ih)
    also have "\<dots> = c # cs"
      using tk by simp
    finally show ?thesis .
  qed
qed


lemma continuation_append:
  "continuation n lo hi bs = n \<Longrightarrow> continuation n lo hi (bs @ cs) = n"
proof (induction n lo hi bs rule: continuation.induct)
  case (1 n lo hi)
  then show ?case by (cases cs) simp_all
next
  case (2 n lo hi b bs)
  then show ?case by (auto split: if_splits)
qed

lemma validUtf8_append: "validUtf8 a \<Longrightarrow> validUtf8 b \<Longrightarrow> validUtf8 (a @ b)"
proof (induction a rule: validUtf8.induct)
  case 1
  then show ?case by simp
next
  case (2 c cs)
  show ?case
  proof (cases "(of_char c :: nat) < 0x80")
    case True
    with 2 show ?thesis by simp
  next
    case False
    with "2.prems" obtain n lo hi where
      l: "utf8Lead (of_char c) = Some (n, lo, hi)" and
      k: "continuation n lo hi (map byteOfChar cs) = n" and
      v: "validUtf8 (drop n cs)"
      by (auto split: option.splits)
    have n: "n \<le> length cs"
      using continuation_le [of n lo hi "map byteOfChar cs"] k by simp
    have "continuation n lo hi (map byteOfChar (cs @ b)) = n"
      using continuation_append [OF k] by simp
    moreover have "validUtf8 (drop n (cs @ b))"
      using "2.IH"(2) [OF False l refl refl v "2.prems"(2)] n by simp
    ultimately show ?thesis
      using False l by simp
  qed
qed

lemma validUtf8_ascii: "asciiText t \<Longrightarrow> validUtf8 t"
  by (induction t) (simp_all add: asciiText_def)

lemma utf8Lead_lo: "utf8Lead b = Some (n, lo, hi) \<Longrightarrow> 0x80 \<le> lo"
  by (auto simp: utf8Lead_def split: if_splits)

lemma continuation_high:
  "continuation n lo hi bs = n \<Longrightarrow> 0x80 \<le> lo \<Longrightarrow> \<forall>x \<in> set (take n bs). 0x80 \<le> unat x"
proof (induction n lo hi bs rule: continuation.induct)
  case (1 n lo hi)
  then show ?case by simp
next
  case (2 n lo hi b bs)
  show ?case
  proof (cases "n = 0")
    case True
    then show ?thesis by simp
  next
    case False
    with "2.prems" have b: "lo \<le> unat b" and r: "continuation (n - 1) 0x80 0xBF bs = n - 1"
      by (auto split: if_splits)
    from "2.IH" [OF False _ r] b have "\<forall>x \<in> set (take (n - 1) bs). 0x80 \<le> unat x"
      using "2.prems" by (auto split: if_splits)
    moreover obtain m where "n = Suc m"
      using False by (cases n) auto
    ultimately show ?thesis
      using b "2.prems"(2) by auto
  qed
qed

lemma continuation_take:
  "continuation n lo hi bs = n \<Longrightarrow> continuation n lo hi (take n bs) = n"
proof (induction n lo hi bs rule: continuation.induct)
  case (1 n lo hi)
  then show ?case by simp
next
  case (2 n lo hi b bs)
  show ?case
  proof (cases "n = 0")
    case True
    then show ?thesis by simp
  next
    case False
    then obtain m where m: "n = Suc m"
      by (cases n) auto
    with "2.prems" have b: "lo \<le> unat b \<and> unat b \<le> hi" and r: "continuation m 0x80 0xBF bs = m"
      by (auto split: if_splits)
    from "2.IH" [OF False b] r m have "continuation m 0x80 0xBF (take m bs) = m"
      by simp
    with b m show ?thesis
      by simp
  qed
qed

lemma char_neqI: "(of_char c :: nat) \<noteq> of_char d \<Longrightarrow> c \<noteq> d"
  by auto

lemma of_char_char_of_small: "n < 256 \<Longrightarrow> (of_char (char_of n) :: nat) = n"
  by (simp add: of_char_of)

lemma quoteChar_high: "0x80 \<le> (of_char c :: nat) \<Longrightarrow> quoteChar c = [c]"
proof -
  assume h: "0x80 \<le> (of_char c :: nat)"
  have "c \<noteq> CHR 0x22" "c \<noteq> CHR 0x5C" "c \<noteq> CHR 0x08" "c \<noteq> CHR 0x0C" "c \<noteq> CHR 0x0A"
    "c \<noteq> CHR 0x0D" "c \<noteq> CHR 0x09"
    using h by (auto intro!: char_neqI)
  moreover have "\<not> (of_char c :: nat) < 0x20"
    using h by simp
  ultimately show ?thesis
    by (simp only: quoteChar_def if_False)
qed

lemma hexDigit_ascii: "k < 16 \<Longrightarrow> (of_char (hexDigit k) :: nat) < 0x80"
proof -
  assume "k < 16"
  then have "48 + k < 256" "87 + k < 256" "48 + k < 128" "87 + k < 128"
    by simp_all
  then show ?thesis
    by (simp only: hexDigit_def of_char_char_of_small split: if_split) simp
qed


lemma quoteChar_ascii: "(of_char c :: nat) < 0x80 \<Longrightarrow> asciiText (quoteChar c)"
  by (simp add: quoteChar_def asciiText_def hexDigit_ascii)

lemma concat_quote_high:
  "\<forall>x \<in> set cs. 0x80 \<le> (of_char x :: nat) \<Longrightarrow> concat (map quoteChar cs) = cs"
  by (induction cs) (simp_all add: quoteChar_high)

lemma validUtf8_quoted: "validUtf8 t \<Longrightarrow> validUtf8 (concat (map quoteChar t))"
proof (induction t rule: validUtf8.induct)
  case 1
  show ?case by simp
next
  case (2 c cs)
  show ?case
  proof (cases "(of_char c :: nat) < 0x80")
    case True
    with 2 have "validUtf8 (concat (map quoteChar cs))"
      by simp
    with True show ?thesis
      by (simp add: validUtf8_append validUtf8_ascii quoteChar_ascii)
  next
    case False
    with "2.prems" obtain n lo hi where
      l: "utf8Lead (of_char c) = Some (n, lo, hi)" and
      k: "continuation n lo hi (map byteOfChar cs) = n" and
      v: "validUtf8 (drop n cs)"
      by (auto split: option.splits)
    have n: "n \<le> length cs"
      using continuation_le [of n lo hi "map byteOfChar cs"] k by simp
    have "\<forall>x \<in> set (take n (map byteOfChar cs)). 0x80 \<le> unat x"
      using continuation_high [OF k utf8Lead_lo [OF l]] .
    then have h: "\<forall>x \<in> set (take n cs). 0x80 \<le> (of_char x :: nat)"
      by (simp add: take_map unat_byteOfChar)
    have "concat (map quoteChar cs) = concat (map quoteChar (take n cs @ drop n cs))"
      by simp
    also have "\<dots> = take n cs @ concat (map quoteChar (drop n cs))"
      using concat_quote_high [OF h] by (simp del: append_take_drop_id)
    finally have e: "concat (map quoteChar (c # cs)) = (c # take n cs) @ concat (map quoteChar (drop n cs))"
      using False by (simp add: quoteChar_high)
    have t: "validUtf8 (c # take n cs)"
    proof -
      have "continuation n lo hi (map byteOfChar (take n cs)) = n"
        using continuation_take [OF k] by (simp add: take_map)
      then show ?thesis
        using False l n by simp
    qed
    have "validUtf8 (concat (map quoteChar (drop n cs)))"
      using "2.IH"(2) [OF False l refl refl v] .
    with t show ?thesis
      by (simp only: e validUtf8_append)
  qed
qed

section \<open>Parsing what \<^verbatim>\<open>JSON.stringify\<close> wrote\<close>


lemma hexValue_hexDigit: "k < 16 \<Longrightarrow> hexValue (hexDigit k) = Some k"
proof -
  assume k: "k < 16"
  show ?thesis
  proof (cases "k < 10")
    case True
    then have "(of_char (char_of (48 + k)) :: nat) = 48 + k"
      by (simp add: of_char_char_of_small)
    with True show ?thesis
      by (simp add: hexValue_def hexDigit_def Let_def)
  next
    case False
    with k have "(of_char (char_of (87 + k)) :: nat) = 87 + k"
      by (simp add: of_char_char_of_small)
    with False k show ?thesis
      by (simp add: hexValue_def hexDigit_def Let_def)
  qed
qed

lemma hexValue_zero: "hexValue (CHR ''0'') = Some 0"
  by (simp add: hexValue_def)

lemma hex4_control:
  "a < 16 \<Longrightarrow> b < 16 \<Longrightarrow>
   hex4 (CHR ''0'' # CHR ''0'' # hexDigit a # hexDigit b # tail) = Some (a * 16 + b)"
  by (simp add: hex4_def hexValue_hexDigit hexValue_zero)

lemma unicodeEscape_control:
  assumes "n < 0x20"
  shows "unicodeEscape (CHR ''0'' # CHR ''0'' # hexDigit (n div 16) # hexDigit (n mod 16) # tail)
    = Parsed ([char_of n], 4) []"
proof -
  have "n div 16 < 16"
    using assms by simp
  then have "hex4 (CHR ''0'' # CHR ''0'' # hexDigit (n div 16) # hexDigit (n mod 16) # tail)
      = Some (n div 16 * 16 + n mod 16)"
    by (simp add: hex4_control)
  then have "hex4 (CHR ''0'' # CHR ''0'' # hexDigit (n div 16) # hexDigit (n mod 16) # tail) = Some n"
    by simp
  then show ?thesis
    using assms by (simp add: unicodeEscape_def utf8_def)
qed

lemma parseChars_quoteChar:
  "parseChars (quoteChar c @ tail) =
     (case parseChars tail of Parsed str r \<Rightarrow> Parsed (c # str) r | Reject \<Rightarrow> Reject
      | Unrepresentable \<Rightarrow> Unrepresentable)"
proof -
  consider (q) "c = CHR 0x22" | (b) "c = CHR 0x5C" | (bs) "c = CHR 0x08" | (ff) "c = CHR 0x0C"
    | (lf) "c = CHR 0x0A" | (cr) "c = CHR 0x0D" | (tab) "c = CHR 0x09"
    | (ctl) "c \<noteq> CHR 0x22" "c \<noteq> CHR 0x5C" "c \<noteq> CHR 0x08" "c \<noteq> CHR 0x0C" "c \<noteq> CHR 0x0A"
        "c \<noteq> CHR 0x0D" "c \<noteq> CHR 0x09" "(of_char c :: nat) < 0x20"
    | (plain) "c \<noteq> CHR 0x22" "c \<noteq> CHR 0x5C" "\<not> (of_char c :: nat) < 0x20"
    by blast
  then show ?thesis
  proof cases
    case q
    then show ?thesis by (simp add: quoteChar_def simpleEscape_def split: parse.splits)
  next
    case b
    then show ?thesis by (simp add: quoteChar_def simpleEscape_def split: parse.splits)
  next
    case bs
    then show ?thesis by (simp add: quoteChar_def simpleEscape_def split: parse.splits)
  next
    case ff
    then show ?thesis by (simp add: quoteChar_def simpleEscape_def split: parse.splits)
  next
    case lf
    then show ?thesis by (simp add: quoteChar_def simpleEscape_def split: parse.splits)
  next
    case cr
    then show ?thesis by (simp add: quoteChar_def simpleEscape_def split: parse.splits)
  next
    case tab
    then show ?thesis by (simp add: quoteChar_def simpleEscape_def split: parse.splits)
  next
    case ctl
    let ?n = "of_char c :: nat"
    have q: "quoteChar c = [CHR 0x5C, CHR ''u'', CHR ''0'', CHR ''0'', hexDigit (?n div 16), hexDigit (?n mod 16)]"
      using ctl by (simp add: quoteChar_def)
    have u: "unicodeEscape (CHR ''0'' # CHR ''0'' # hexDigit (?n div 16) # hexDigit (?n mod 16) # tail)
        = Parsed ([c], 4) []"
      using unicodeEscape_control [OF ctl(8), of tail] by simp
    show ?thesis
      by (simp add: q u split: parse.splits)
  next
    case plain
    then show ?thesis
      by (auto simp: quoteChar_def split: parse.splits)
  qed
qed

lemma parseChars_quoted:
  "parseChars (concat (map quoteChar str) @ CHR 0x22 # rest) = Parsed str rest"
  by (induction str) (simp_all add: parseChars_quoteChar)

lemma isDigit_not_delim: "isDigit c \<Longrightarrow> c \<noteq> CHR 0x2C \<and> c \<noteq> CHR 0x5D \<and> c \<noteq> CHR 0x7D \<and> c \<noteq> CHR ''.''
    \<and> c \<noteq> CHR ''e'' \<and> c \<noteq> CHR ''E'' \<and> c \<noteq> CHR ''-''"
  by (auto simp: isDigit_def)

lemma takeWhile_digits_delimited:
  assumes "list_all isDigit body" and "delimited rest"
  shows "takeWhile isDigit (body @ rest) = body" and "dropWhile isDigit (body @ rest) = rest"
proof -
  have r: "takeWhile isDigit rest = [] \<and> dropWhile isDigit rest = rest"
    using assms(2) isDigit_not_delim by (cases rest) (auto simp: delimited_def)
  have "\<forall>c \<in> set body. isDigit c"
    using assms(1) by (simp add: list_all_iff)
  then show "takeWhile isDigit (body @ rest) = body" and "dropWhile isDigit (body @ rest) = rest"
    using r by (simp_all add: takeWhile_append2 dropWhile_append2)
qed

lemma lexFrac_delimited: "delimited rest \<Longrightarrow> lexFrac rest = Some ([], rest)"
  by (cases rest) (auto simp: lexFrac_def delimited_def)

lemma lexExp_delimited: "delimited rest \<Longrightarrow> lexExp rest = Some ([], rest)"
  by (cases rest) (auto simp: lexExp_def delimited_def)

lemma lexInt_canonical:
  assumes "body \<noteq> []" and "list_all isDigit body" and "body = ''0'' \<or> hd body \<noteq> CHR ''0''"
    and "delimited rest"
  shows "lexInt (body @ rest) = Some (body, rest)"
proof -
  obtain c cs where b: "body = c # cs"
    using assms(1) by (cases body) auto
  show ?thesis
  proof (cases "c = CHR ''0''")
    case True
    with assms(3) b have "body = ''0''"
      by simp
    then show ?thesis
      by (simp add: lexInt_def)
  next
    case False
    have "isDigit c"
      using assms(2) b by simp
    with False b takeWhile_digits_delimited [OF assms(2,4)] show ?thesis
      by (simp add: lexInt_def)
  qed
qed

lemma lexNumber_canonical:
  assumes "numberText lexeme = Some lexeme" and "delimited rest"
  shows "lexNumber (lexeme @ rest) = Parsed lexeme rest"
proof -
  let ?neg = "lexeme \<noteq> [] \<and> hd lexeme = CHR ''-''"
  let ?body = "if ?neg then tl lexeme else lexeme"
  from assms(1) have c: "?body \<noteq> []" "list_all isDigit ?body" "?body = ''0'' \<or> hd ?body \<noteq> CHR ''0''"
    by (auto simp: numberText_def Let_def split: if_splits)
  then have ne: "lexeme \<noteq> []"
    by auto
  let ?sign = "if ?neg then ''-'' else []"
  have s: "lexeme = ?sign @ ?body"
    using ne by (cases lexeme) auto
  have h: "(lexeme @ rest \<noteq> [] \<and> hd (lexeme @ rest) = CHR ''-'') = ?neg"
    using ne by simp
  have d: "drop (length ?sign) (lexeme @ rest) = ?body @ rest"
    using ne by (cases lexeme) auto
  have "lexNumber (lexeme @ rest) = Parsed (?sign @ ?body) rest"
    unfolding lexNumber_def Let_def h d
    using lexInt_canonical [OF c assms(2)] lexFrac_delimited [OF assms(2)] lexExp_delimited [OF assms(2)]
    by simp
  with s show ?thesis
    by simp
qed

lemma numberText_start: "numberText lexeme = Some lexeme \<Longrightarrow> lexeme \<noteq> [] \<and> startChar (hd lexeme)
    \<and> (hd lexeme = CHR ''-'' \<or> isDigit (hd lexeme))"
  by (cases lexeme) (auto simp: numberText_def Let_def startChar_def split: if_splits)

lemma numberText_ascii: "numberText lexeme = Some lexeme \<Longrightarrow> asciiText lexeme"
  by (cases lexeme)
     (auto simp: numberText_def Let_def asciiText_def isDigit_def list_all_iff split: if_splits)

lemma skipWs_start: "\<not> jsonWs c \<Longrightarrow> skipWs (c # r) = c # r"
  by (simp add: skipWs_def)

lemma expect_hit: "\<not> jsonWs c \<Longrightarrow> expect c (c # r) = Some r"
  by (simp add: expect_def skipWs_def)

lemma expect_miss: "\<not> jsonWs d \<Longrightarrow> d \<noteq> c \<Longrightarrow> expect c (d # r) = None"
  by (simp add: expect_def skipWs_def)

lemma punctuation_not_ws:
  "\<not> jsonWs (CHR 0x2C)" "\<not> jsonWs (CHR 0x5D)" "\<not> jsonWs (CHR 0x7D)" "\<not> jsonWs (CHR 0x3A)"
  "\<not> jsonWs (CHR 0x22)" "\<not> jsonWs (CHR 0x7B)" "\<not> jsonWs (CHR 0x5B)"
  by (simp_all add: jsonWs_def)

lemma startChar_facts:
  assumes "startChar c"
  shows "\<not> jsonWs c" and "c \<noteq> CHR 0x5D" and "c \<noteq> CHR 0x7D" and "c \<noteq> CHR 0x2C"
    and "(of_char c :: nat) < 0x80"
  using assms by (auto simp: startChar_def jsonWs_def isDigit_def)

lemma joinWith_Cons: "ps \<noteq> [] \<Longrightarrow> joinWith sep (p # ps) = p @ sep @ joinWith sep ps"
  by (cases ps) (simp_all add: joinWith_def)

lemma joinWith_single: "joinWith sep [p] = p"
  by (simp add: joinWith_def)

lemma serializeElements_length: "serializeElements vs = Some parts \<Longrightarrow> length parts = length vs"
  by (induction vs arbitrary: parts) (auto split: option.splits)

lemma serializeMembers_length:
  "representableMembers ms \<Longrightarrow> serializeMembers ms = Some parts \<Longrightarrow> length parts = length ms"
proof (induction ms arbitrary: parts)
  case Nil
  then show ?case by simp
next
  case (Cons m ms)
  then have "snd m \<noteq> JUndefined"
    by auto
  with Cons show ?case
    by (auto split: option.splits)
qed

lemma serialize_start:
  "representable v \<Longrightarrow> serialize v = Some t \<Longrightarrow> t \<noteq> [] \<and> startChar (hd t)"
proof (cases v)
  case (JNum lexeme)
  assume "representable v" "serialize v = Some t"
  with JNum numberText_start [of lexeme] show ?thesis
    by auto
next
  case (JArr vs)
  assume "serialize v = Some t"
  with JArr show ?thesis
    by (auto simp: startChar_def split: option.splits)
next
  case (JObj ms)
  assume "serialize v = Some t"
  with JObj show ?thesis
    by (auto simp: startChar_def split: option.splits)
qed (auto simp: startChar_def quoteJSONString_def split: if_splits)


lemma parseElements_serialized:
  assumes ih: "\<And>v t rest n. v \<in> set vs \<Longrightarrow> representable v \<Longrightarrow> serialize v = Some t
      \<Longrightarrow> delimited rest \<Longrightarrow> length t < n \<Longrightarrow> parseValue n (t @ rest) = Parsed v rest"
  shows "vs \<noteq> [] \<Longrightarrow> representableElements vs \<Longrightarrow> serializeElements vs = Some parts
      \<Longrightarrow> length (joinWith '','' parts) + 1 < n
      \<Longrightarrow> parseElements n (joinWith '','' parts @ CHR 0x5D # rest) = Parsed vs rest"
  using ih
proof (induction vs arbitrary: parts n)
  case Nil
  then show ?case by simp
next
  case (Cons v vs)
  from Cons.prems(3) obtain p ps where
    p: "serialize v = Some p" and ps: "serializeElements vs = Some ps" and parts: "parts = p # ps"
    by (auto split: option.splits)
  from Cons.prems(2) have rv: "representable v" and rvs: "representableElements vs"
    by simp_all
  obtain n' where n: "n = Suc n'"
    using Cons.prems(4) by (cases n) auto
  have lps: "length ps = length vs"
    using serializeElements_length [OF ps] .
  show ?case
  proof (cases "vs = []")
    case True
    with ps have e: "ps = []"
      by simp
    have "length p < n'"
      using Cons.prems(4) n parts e by (simp add: joinWith_single)
    then have "parseValue n' (p @ CHR 0x5D # rest) = Parsed v (CHR 0x5D # rest)"
      using Cons.prems(5) [of v p "CHR 0x5D # rest" n'] rv p by (simp add: delimited_def)
    then show ?thesis
      using True n parts e
      by (simp add: joinWith_single expect_hit expect_miss punctuation_not_ws)
  next
    case False
    then have ne: "ps \<noteq> []"
      using lps by auto
    have j: "joinWith '','' parts = p @ '','' @ joinWith '','' ps"
      using parts joinWith_Cons [OF ne] by simp
    have "length p < n'"
      using Cons.prems(4) n j by simp
    then have a: "parseValue n' (p @ CHR 0x2C # joinWith '','' ps @ CHR 0x5D # rest)
        = Parsed v (CHR 0x2C # joinWith '','' ps @ CHR 0x5D # rest)"
      using Cons.prems(5) [of v p "CHR 0x2C # joinWith '','' ps @ CHR 0x5D # rest" n'] rv p
      by (simp add: delimited_def)
    have "length (joinWith '','' ps) + 1 < n'"
      using Cons.prems(4) n j by simp
    then have b: "parseElements n' (joinWith '','' ps @ CHR 0x5D # rest) = Parsed vs rest"
      using Cons.IH [OF False rvs ps] Cons.prems(5) by simp
    show ?thesis
      using a b n j by (simp add: expect_hit punctuation_not_ws)
  qed
qed


lemma parseMembers_serialized:
  assumes ih: "\<And>m t rest n. m \<in> set ms \<Longrightarrow> representable (snd m) \<Longrightarrow> serialize (snd m) = Some t
      \<Longrightarrow> delimited rest \<Longrightarrow> length t < n \<Longrightarrow> parseValue n (t @ rest) = Parsed (snd m) rest"
  shows "ms \<noteq> [] \<Longrightarrow> representableMembers ms \<Longrightarrow> serializeMembers ms = Some parts
      \<Longrightarrow> length (joinWith '','' parts) + 1 < n
      \<Longrightarrow> parseMembers n acc (joinWith '','' parts @ CHR 0x7D # rest)
          = Parsed (foldl (\<lambda>a m. objSet a (fst m) (snd m)) acc ms) rest"
  using ih
proof (induction ms arbitrary: parts n acc)
  case Nil
  then show ?case by simp
next
  case (Cons m ms)
  from Cons.prems(2) have rv: "representable (snd m)" and rms: "representableMembers ms"
    by simp_all
  then have nu: "snd m \<noteq> JUndefined"
    by auto
  with Cons.prems(3) obtain p ps where
    p: "serialize (snd m) = Some p" and ps: "serializeMembers ms = Some ps"
    and parts: "parts = (quoteJSONString (fst m) @ '':'' @ p) # ps"
    by (auto split: option.splits)
  obtain n' where n: "n = Suc n'"
    using Cons.prems(4) by (cases n) auto
  have lps: "length ps = length ms"
    using serializeMembers_length [OF rms ps] .
  let ?key = "concat (map quoteChar (fst m))"
  have q: "quoteJSONString (fst m) = CHR 0x22 # ?key @ [CHR 0x22]"
    by (simp add: quoteJSONString_def)
  show ?case
  proof (cases "ms = []")
    case True
    with ps have e: "ps = []"
      by simp
    have j: "joinWith '','' parts @ CHR 0x7D # rest
        = CHR 0x22 # ?key @ CHR 0x22 # CHR 0x3A # p @ CHR 0x7D # rest"
      using parts e q by (simp add: joinWith_single)
    have "length p < n'"
      using Cons.prems(4) n parts e by (simp add: joinWith_single)
    then have a: "parseValue n' (p @ CHR 0x7D # rest) = Parsed (snd m) (CHR 0x7D # rest)"
      using Cons.prems(5) [of m p "CHR 0x7D # rest" n'] rv p by (simp add: delimited_def)
    show ?thesis
      unfolding j n
      using a True
      by (simp add: expect_hit expect_miss punctuation_not_ws parseChars_quoted)
  next
    case False
    then have ne: "ps \<noteq> []"
      using lps by auto
    have j: "joinWith '','' parts @ CHR 0x7D # rest
        = CHR 0x22 # ?key @ CHR 0x22 # CHR 0x3A # p @ CHR 0x2C # joinWith '','' ps @ CHR 0x7D # rest"
      using parts q joinWith_Cons [OF ne] by simp
    have l: "length (joinWith '','' parts) = length ?key + length p + length (joinWith '','' ps) + 4"
      using parts q joinWith_Cons [OF ne] by simp
    have "length p < n'"
      using Cons.prems(4) n l by simp
    then have a: "parseValue n' (p @ CHR 0x2C # joinWith '','' ps @ CHR 0x7D # rest)
        = Parsed (snd m) (CHR 0x2C # joinWith '','' ps @ CHR 0x7D # rest)"
      using Cons.prems(5) [of m p "CHR 0x2C # joinWith '','' ps @ CHR 0x7D # rest" n'] rv p
      by (simp add: delimited_def)
    have "length (joinWith '','' ps) + 1 < n'"
      using Cons.prems(4) n l by simp
    then have b: "parseMembers n' (objSet acc (fst m) (snd m)) (joinWith '','' ps @ CHR 0x7D # rest)
        = Parsed (foldl (\<lambda>a m. objSet a (fst m) (snd m)) (objSet acc (fst m) (snd m)) ms) rest"
      using Cons.IH [OF False rms ps] Cons.prems(5) by simp
    show ?thesis
      unfolding j n
      using a b
      by (simp add: expect_hit punctuation_not_ws parseChars_quoted)
  qed
qed

lemma prefix_literals:
  "prefix ''true'' (''true'' @ r)" "prefix ''false'' (''false'' @ r)" "prefix ''null'' (''null'' @ r)"
  "\<not> prefix ''true'' (''false'' @ r)" "\<not> prefix ''true'' (''null'' @ r)"
  "\<not> prefix ''false'' (''null'' @ r)"
  by simp_all

lemma parseValue_serialized:
  "representable v \<Longrightarrow> serialize v = Some t \<Longrightarrow> delimited rest \<Longrightarrow> length t < n
   \<Longrightarrow> parseValue n (t @ rest) = Parsed v rest"
proof (induction v arbitrary: t rest n)
  case JUndefined
  then show ?case by simp
next
  case JNull
  then obtain n' where "n = Suc n'"
    by (cases n) auto
  with JNull show ?case
    by (auto simp: skipWs_def jsonWs_def)
next
  case (JBool b)
  then obtain n' where "n = Suc n'"
    by (cases n) auto
  with JBool show ?case
    by (cases b) (auto simp: skipWs_def jsonWs_def)
next
  case (JNum lexeme)
  then obtain n' where n: "n = Suc n'"
    by (cases n) auto
  from JNum have c: "numberText lexeme = Some lexeme" and t: "t = lexeme"
    by simp_all
  from numberText_start [OF c] obtain d ds where l: "lexeme = d # ds"
      and s: "startChar d" and dd: "d = CHR ''-'' \<or> isDigit d"
    by (cases lexeme) auto
  have x: "d \<noteq> CHR 0x7B" "d \<noteq> CHR 0x5B" "d \<noteq> CHR 0x22" "d \<noteq> CHR ''t''" "d \<noteq> CHR ''f''"
    "d \<noteq> CHR ''n''"
    using dd by (auto simp: isDigit_def)
  have "lexNumber (d # ds @ rest) = Parsed lexeme rest"
    using lexNumber_canonical [OF c JNum.prems(3)] l by simp
  then show ?case
    using n t l x startChar_facts(1) [OF s]
    by (simp add: skipWs_start)
next
  case (JStr str)
  then obtain n' where n: "n = Suc n'"
    by (cases n) auto
  from JStr have t: "t = CHR 0x22 # concat (map quoteChar str) @ [CHR 0x22]"
    by (simp add: quoteJSONString_def)
  show ?case
    unfolding t n
    by (simp add: skipWs_start punctuation_not_ws parseChars_quoted)
next
  case (JArr vs)
  then obtain n' where n: "n = Suc n'"
    by (cases n) auto
  from JArr.prems obtain parts where ps: "serializeElements vs = Some parts"
      and t: "t = CHR 0x5B # joinWith '','' parts @ [CHR 0x5D]"
    by (auto split: option.splits)
  show ?case
  proof (cases "vs = []")
    case True
    with ps have "parts = []"
      by simp
    then show ?thesis
      unfolding t n using True
      by (simp add: skipWs_start punctuation_not_ws joinWith_def expect_hit)
  next
    case False
    then obtain v vs' where vs: "vs = v # vs'"
      by (cases vs) auto
    with ps obtain p ps' where p: "serialize v = Some p" and parts: "parts = p # ps'"
      by (auto split: option.splits)
    have "representable v"
      using JArr.prems(1) vs by simp
    from serialize_start [OF this p] obtain c cs where pc: "p = c # cs" and sc: "startChar c"
      by (cases p) auto
    have "\<exists>r. joinWith '','' parts = c # r"
      using parts pc by (simp add: joinWith_def)
    then have miss: "expect (CHR 0x5D) (joinWith '','' parts @ CHR 0x5D # rest) = None"
      using startChar_facts [OF sc] by (auto simp: expect_miss)
    have "length (joinWith '','' parts) + 1 < n'"
      using JArr.prems(4) n t by simp
    then have "parseElements n' (joinWith '','' parts @ CHR 0x5D # rest) = Parsed vs rest"
      using parseElements_serialized [of vs parts n' rest] JArr.IH JArr.prems(1) ps False
      by simp
    then show ?thesis
      unfolding t n using miss
      by (simp add: skipWs_start punctuation_not_ws)
  qed
next
  case (JObj ms)
  then obtain n' where n: "n = Suc n'"
    by (cases n) auto
  from JObj.prems obtain parts where ps: "serializeMembers ms = Some parts"
      and t: "t = CHR 0x7B # joinWith '','' parts @ [CHR 0x7D]"
    by (auto split: option.splits)
  from JObj.prems(1) have rm: "representableMembers ms" and ord: "jsOrdered ms"
    by simp_all
  show ?case
  proof (cases "ms = []")
    case True
    with ps have "parts = []"
      by simp
    then show ?thesis
      unfolding t n using True
      by (simp add: skipWs_start punctuation_not_ws joinWith_def expect_hit)
  next
    case False
    then obtain m ms' where ms: "ms = m # ms'"
      by (cases ms) auto
    with rm have "snd m \<noteq> JUndefined"
      by auto
    with ps ms obtain p ps' where parts: "parts = (quoteJSONString (fst m) @ '':'' @ p) # ps'"
      by (auto split: option.splits)
    then have "\<exists>r. joinWith '','' parts = CHR 0x22 # r"
      by (simp add: joinWith_def quoteJSONString_def)
    then have miss: "expect (CHR 0x7D) (joinWith '','' parts @ CHR 0x7D # rest) = None"
      by (auto simp: expect_miss punctuation_not_ws)
    have "length (joinWith '','' parts) + 1 < n'"
      using JObj.prems(4) n t by simp
    moreover have "\<And>m t rest n. m \<in> set ms \<Longrightarrow> representable (snd m) \<Longrightarrow> serialize (snd m) = Some t
      \<Longrightarrow> delimited rest \<Longrightarrow> length t < n \<Longrightarrow> parseValue n (t @ rest) = Parsed (snd m) rest"
      using JObj.IH by (metis snds.intros)
    ultimately have "parseMembers n' [] (joinWith '','' parts @ CHR 0x7D # rest)
        = Parsed (foldl (\<lambda>a m. objSet a (fst m) (snd m)) [] ms) rest"
      using parseMembers_serialized [of ms parts n' "[]" rest] rm ps False
      by simp
    then show ?thesis
      unfolding t n using miss ord
      by (simp add: skipWs_start punctuation_not_ws jsOrdered_def)
  qed
qed

lemma asciiText_append: "asciiText (a @ b) = (asciiText a \<and> asciiText b)"
  by (simp add: asciiText_def)

lemma validUtf8_Cons_ascii: "(of_char c :: nat) < 0x80 \<Longrightarrow> validUtf8 (c # t) = validUtf8 t"
  by simp

lemma validUtf8_snoc_ascii: "validUtf8 t \<Longrightarrow> (of_char c :: nat) < 0x80 \<Longrightarrow> validUtf8 (t @ [c])"
  by (simp add: validUtf8_append)

lemma validUtf8_quoteJSONString: "validUtf8 str \<Longrightarrow> validUtf8 (quoteJSONString str)"
  by (simp add: quoteJSONString_def validUtf8_append validUtf8_quoted)

lemma validUtf8_separated:
  "validUtf8 sep \<Longrightarrow> list_all validUtf8 ps \<Longrightarrow> validUtf8 (concat (map (\<lambda>q. sep @ q) ps))"
  by (induction ps) (simp_all add: validUtf8_append)

lemma validUtf8_joinWith:
  "validUtf8 sep \<Longrightarrow> list_all validUtf8 parts \<Longrightarrow> validUtf8 (joinWith sep parts)"
  by (cases parts) (simp_all add: joinWith_def validUtf8_append validUtf8_separated)

lemma validUtf8_comma: "validUtf8 '',''"
  by simp

lemma valid_elements:
  assumes "\<And>v t. v \<in> set vs \<Longrightarrow> representable v \<Longrightarrow> serialize v = Some t \<Longrightarrow> validUtf8 t"
  shows "representableElements vs \<Longrightarrow> serializeElements vs = Some parts \<Longrightarrow> list_all validUtf8 parts"
  using assms
proof (induction vs arbitrary: parts)
  case Nil
  then show ?case by simp
next
  case (Cons v vs)
  from Cons.prems(2) obtain p ps where
    p: "serialize v = Some p" and ps: "serializeElements vs = Some ps" and parts: "parts = p # ps"
    by (auto split: option.splits)
  have "validUtf8 p"
    using Cons.prems(1,3) p by auto
  moreover have "list_all validUtf8 ps"
    using Cons.IH [OF _ ps] Cons.prems(1,3) by auto
  ultimately show ?case
    using parts by simp
qed

lemma valid_members:
  assumes "\<And>m t. m \<in> set ms \<Longrightarrow> representable (snd m) \<Longrightarrow> serialize (snd m) = Some t \<Longrightarrow> validUtf8 t"
  shows "representableMembers ms \<Longrightarrow> serializeMembers ms = Some parts \<Longrightarrow> list_all validUtf8 parts"
  using assms
proof (induction ms arbitrary: parts)
  case Nil
  then show ?case by simp
next
  case (Cons m ms)
  from Cons.prems(1) have rv: "representable (snd m)" and rms: "representableMembers ms"
      and k: "validUtf8 (fst m)"
    by simp_all
  then have nu: "snd m \<noteq> JUndefined"
    by auto
  with Cons.prems(2) obtain p ps where
    p: "serialize (snd m) = Some p" and ps: "serializeMembers ms = Some ps"
    and parts: "parts = (quoteJSONString (fst m) @ '':'' @ p) # ps"
    by (auto split: option.splits)
  have "validUtf8 p"
    using Cons.prems(3) [of m p] rv p by simp
  then have "validUtf8 (quoteJSONString (fst m) @ '':'' @ p)"
    using k by (simp add: validUtf8_append validUtf8_quoteJSONString)
  moreover have "list_all validUtf8 ps"
    using Cons.IH [OF rms ps] Cons.prems(3) by auto
  ultimately show ?case
    using parts by simp
qed

lemma valid_serialize: "representable v \<Longrightarrow> serialize v = Some t \<Longrightarrow> validUtf8 t"
proof (induction v arbitrary: t)
  case (JNum lexeme)
  then show ?case
    using numberText_ascii [of lexeme] by (simp add: validUtf8_ascii)
next
  case (JStr str)
  then show ?case
    by (auto simp: validUtf8_quoteJSONString)
next
  case (JArr vs)
  from JArr.prems obtain parts where ps: "serializeElements vs = Some parts"
      and t: "t = CHR 0x5B # joinWith '','' parts @ [CHR 0x5D]"
    by (auto split: option.splits)
  have "list_all validUtf8 parts"
    using valid_elements [of vs parts] JArr.IH JArr.prems(1) ps by simp
  then show ?case
    unfolding t by (simp add: validUtf8_joinWith validUtf8_comma validUtf8_append)
next
  case (JObj ms)
  from JObj.prems obtain parts where ps: "serializeMembers ms = Some parts"
      and t: "t = CHR 0x7B # joinWith '','' parts @ [CHR 0x7D]"
    by (auto split: option.splits)
  have "\<And>m t. m \<in> set ms \<Longrightarrow> representable (snd m) \<Longrightarrow> serialize (snd m) = Some t \<Longrightarrow> validUtf8 t"
    using JObj.IH by (metis snds.intros)
  then have "list_all validUtf8 parts"
    using valid_members [of ms parts] JObj.prems(1) ps by simp
  then show ?case
    unfolding t by (simp add: validUtf8_joinWith validUtf8_comma validUtf8_append)
qed (auto split: if_splits)

lemma serializeElements_defined:
  assumes "\<And>v. v \<in> set vs \<Longrightarrow> representable v \<Longrightarrow> serialize v \<noteq> None"
  shows "representableElements vs \<Longrightarrow> serializeElements vs \<noteq> None"
  using assms
proof (induction vs)
  case Nil
  then show ?case by simp
next
  case (Cons v vs)
  then have "serialize v \<noteq> None" and "serializeElements vs \<noteq> None"
    by auto
  then show ?case
    by auto
qed

lemma serializeMembers_defined:
  assumes "\<And>m. m \<in> set ms \<Longrightarrow> representable (snd m) \<Longrightarrow> serialize (snd m) \<noteq> None"
  shows "representableMembers ms \<Longrightarrow> serializeMembers ms \<noteq> None"
  using assms
proof (induction ms)
  case Nil
  then show ?case by simp
next
  case (Cons m ms)
  then have "serialize (snd m) \<noteq> None" and "serializeMembers ms \<noteq> None"
    by auto
  then show ?case
    by auto
qed

lemma serialize_defined: "representable v \<Longrightarrow> serialize v \<noteq> None"
proof (induction v)
  case (JArr vs)
  then show ?case
    using serializeElements_defined [of vs] by (auto split: option.splits)
next
  case (JObj ms)
  have "\<And>m. m \<in> set ms \<Longrightarrow> representable (snd m) \<Longrightarrow> serialize (snd m) \<noteq> None"
    using JObj.IH by (metis snds.intros)
  then show ?case
    using serializeMembers_defined [of ms] JObj.prems by (auto split: option.splits)
qed auto

lemma TextDecoder_TextEncoder:
  assumes "validUtf8 t" and "t \<noteq> []" and "(of_char (hd t) :: nat) < 0x80"
  shows "TextDecoder_decode (TextEncoder_encode (Val t)) = t"
proof -
  obtain c cs where t: "t = c # cs"
    using assms(2) by (cases t) auto
  have "unat (byteOfChar c) < 0x80"
    using assms(3) t by (simp add: unat_byteOfChar)
  then have "byteOfChar c \<noteq> 0xEF"
    by auto
  then have "take 3 (map byteOfChar t) \<noteq> [0xEF, 0xBB, 0xBF]"
    using t by (auto simp: take_Cons')
  then show ?thesis
    using utf8Decode_valid [OF assms(1)]
    by (simp add: TextDecoder_decode_def TextEncoder_encode_def)
qed

lemma JSON_parse_serialized:
  assumes "representable v" and "serialize v = Some t"
  shows "JSON_parse t = Return v"
proof -
  have "parseValue (Suc (length t)) (t @ []) = Parsed v []"
    using parseValue_serialized [OF assms, of "[]" "Suc (length t)"] by (simp add: delimited_def)
  then show ?thesis
    by (simp add: JSON_parse_def skipWs_def)
qed

lemma JSON_roundtrip:
  assumes "representable v" and "depth v \<le> maxDepth"
  shows "\<exists>t. JSON_stringify v = Return (Val t)
    \<and> JSON_parse (TextDecoder_decode (TextEncoder_encode (Val t))) = Return v"
proof -
  obtain t where t: "serialize v = Some t"
    using serialize_defined [OF assms(1)] by auto
  have nu: "v \<noteq> JUndefined"
    using assms(1) by auto
  from serialize_start [OF assms(1) t] have "t \<noteq> []" and "(of_char (hd t) :: nat) < 0x80"
    using startChar_facts(5) by auto
  then have "TextDecoder_decode (TextEncoder_encode (Val t)) = t"
    using TextDecoder_TextEncoder [OF valid_serialize [OF assms(1) t]] by simp
  then show ?thesis
    using t nu assms(2) JSON_parse_serialized [OF assms(1) t] by (simp add: JSON_stringify_def)
qed

section \<open>\<^verbatim>\<open>decryptJwk\<close> after \<^verbatim>\<open>encryptJwk\<close>\<close>

lemma length_ivOf: "length (ivOf g) = 12"
  by (simp add: ivOf_def getRandomValues_def IV_LENGTH_def)

lemma length_saltOf: "length (saltOf g) = 16"
  by (simp add: saltOf_def getRandomValues_def SALT_LENGTH_def)

lemma fromCharCodeSpread_salt: "fromCharCodeSpread (saltOf g) = Return (saltOf g)"
  by (simp add: fromCharCodeSpread_def length_saltOf maxArguments_def)

lemma encryptJwk_unfold:
  assumes "JSON_stringify jwk = Return text"
    and "IV_LENGTH + length (TextEncoder_encode text) + 16 \<le> maxArguments"
  shows "\<exists>g'. encryptJwk jwk masterKey g =
    Return (\<lparr>encrypted = btoa (ivOf g @ AES_GCM_encrypt (deriveKey masterKey (saltOf g)) (ivOf g)
                                   (TextEncoder_encode text)),
             salt = btoa (saltOf g)\<rparr>, g')"
proof -
  let ?combined = "ivOf g @ AES_GCM_encrypt (deriveKey masterKey (saltOf g)) (ivOf g)
                              (TextEncoder_encode text)"
  have "length ?combined \<le> maxArguments"
    using assms(2) by (simp add: length_ivOf length_AES_GCM_encrypt IV_LENGTH_def)
  then have c: "fromCharCodeSpread ?combined = Return ?combined"
    by (simp add: fromCharCodeSpread_def)
  obtain s g1 where s: "getRandomValues SALT_LENGTH g = (s, g1)"
    by (cases "getRandomValues SALT_LENGTH g")
  obtain iv g2 where iv: "getRandomValues IV_LENGTH g1 = (iv, g2)"
    by (cases "getRandomValues IV_LENGTH g1")
  have so: "saltOf g = s" and io: "ivOf g = iv"
    using s iv by (simp_all add: saltOf_def ivOf_def)
  show ?thesis
    using assms(1) c fromCharCodeSpread_salt [of g] s iv
    by (simp add: encryptJwk_def Let_def so io)
qed

lemma encryptJwk_too_long:
  assumes "JSON_stringify jwk = Return text"
    and "maxArguments < IV_LENGTH + length (TextEncoder_encode text) + 16"
  shows "encryptJwk jwk masterKey g = Throw (RangeError ''String.fromCharCode'')"
proof -
  let ?combined = "ivOf g @ AES_GCM_encrypt (deriveKey masterKey (saltOf g)) (ivOf g)
                              (TextEncoder_encode text)"
  have "maxArguments < length ?combined"
    using assms(2) by (simp add: length_ivOf length_AES_GCM_encrypt IV_LENGTH_def)
  then have c: "fromCharCodeSpread ?combined = Throw (RangeError ''String.fromCharCode'')"
    by (simp add: fromCharCodeSpread_def)
  obtain s g1 where s: "getRandomValues SALT_LENGTH g = (s, g1)"
    by (cases "getRandomValues SALT_LENGTH g")
  obtain iv g2 where iv: "getRandomValues IV_LENGTH g1 = (iv, g2)"
    by (cases "getRandomValues IV_LENGTH g1")
  have so: "saltOf g = s" and io: "ivOf g = iv"
    using s iv by (simp_all add: saltOf_def ivOf_def)
  show ?thesis
    using assms(1) c s iv
    by (simp add: encryptJwk_def Let_def so io)
qed

lemma encryptJwk_returns:
  assumes "JSON_stringify jwk = Return text"
    and "IV_LENGTH + length (TextEncoder_encode text) + 16 \<le> maxArguments"
  shows "\<exists>enc g'. encryptJwk jwk masterKey g = Return (enc, g')"
  using encryptJwk_unfold [OF assms] by blast

lemma encryptJwk_Beyond:
  "JSON_stringify jwk = Beyond \<Longrightarrow> encryptJwk jwk masterKey g = Beyond"
  by (simp add: encryptJwk_def Let_def split: prod.splits)

lemma decryptJwk_after_encryptJwk:
  assumes "JSON_stringify jwk = Return text"
    and "IV_LENGTH + length (TextEncoder_encode text) + 16 \<le> maxArguments"
  shows "\<exists>enc g'. encryptJwk jwk k1 g = Return (enc, g')
    \<and> decryptJwk (encrypted enc) (salt enc) k2 =
        andThen (AES_GCM_decrypt (deriveKey k2 (saltOf g)) (ivOf g)
                   (AES_GCM_encrypt (deriveKey k1 (saltOf g)) (ivOf g) (TextEncoder_encode text)))
          (\<lambda>plaintext. JSON_parse (TextDecoder_decode plaintext))"
proof -
  obtain g' where e: "encryptJwk jwk k1 g =
    Return (\<lparr>encrypted = btoa (ivOf g @ AES_GCM_encrypt (deriveKey k1 (saltOf g)) (ivOf g)
                                   (TextEncoder_encode text)),
             salt = btoa (saltOf g)\<rparr>, g')"
    using encryptJwk_unfold [OF assms] by blast
  show ?thesis
    by (simp add: e decryptJwk_def atob_btoa IV_LENGTH_def length_ivOf)
qed

text \<open>What \<^verbatim>\<open>JSON.stringify\<close> gives for a value within the limits.\<close>

lemma withinLimits_text:
  assumes "representable w" and "withinLimits w"
  shows "\<exists>t. JSON_stringify w = Return (Val t)
    \<and> JSON_parse (TextDecoder_decode (TextEncoder_encode (Val t))) = Return w
    \<and> IV_LENGTH + length (TextEncoder_encode (Val t)) + 16 \<le> maxArguments"
proof -
  obtain t where t: "JSON_stringify w = Return (Val t)"
      and p: "JSON_parse (TextDecoder_decode (TextEncoder_encode (Val t))) = Return w"
    using JSON_roundtrip [OF assms(1)] assms(2) by (auto simp: withinLimits_def)
  have "blobLength w = IV_LENGTH + length (TextEncoder_encode (Val t)) + 16"
    by (simp add: blobLength_def t)
  then show ?thesis
    using t p assms(2) by (simp add: withinLimits_def)
qed

lemma decryptJwk_encryptJwk:
  assumes "representable w" and "withinLimits w"
  shows "\<exists>enc g'. encryptJwk w masterKey g = Return (enc, g')
    \<and> decryptJwk (encrypted enc) (salt enc) masterKey = Return w"
proof -
  obtain t where t: "JSON_stringify w = Return (Val t)"
      and p: "JSON_parse (TextDecoder_decode (TextEncoder_encode (Val t))) = Return w"
      and l: "IV_LENGTH + length (TextEncoder_encode (Val t)) + 16 \<le> maxArguments"
    using withinLimits_text [OF assms] by blast
  from decryptJwk_after_encryptJwk [OF t l, of masterKey g masterKey] p show ?thesis
    by (simp add: AES_GCM_decrypt_encrypt)
qed

lemma decryptJwk_same_derived_key:
  assumes "representable w" and "withinLimits w"
    and "deriveKey k2 (saltOf g) = deriveKey k1 (saltOf g)"
  shows "\<exists>enc g'. encryptJwk w k1 g = Return (enc, g')
    \<and> decryptJwk (encrypted enc) (salt enc) k2 = Return w"
proof -
  obtain t where t: "JSON_stringify w = Return (Val t)"
      and p: "JSON_parse (TextDecoder_decode (TextEncoder_encode (Val t))) = Return w"
      and l: "IV_LENGTH + length (TextEncoder_encode (Val t)) + 16 \<le> maxArguments"
    using withinLimits_text [OF assms(1,2)] by blast
  from decryptJwk_after_encryptJwk [OF t l, of k1 g k2] p assms(3) show ?thesis
    by (simp add: AES_GCM_decrypt_encrypt)
qed

lemma representable_testJwk: "representable testJwk"
  by (simp add: testJwk_def jsOrdered_def objSet_def isArrayIndex_def isDigit_def)

lemma stringify_testJwk:
  \<open>JSON_stringify testJwk = Return (Val ''{"kty":"RSA","n":"test-n","e":"AQAB","d":"test-d"}'')\<close>
  by code_simp

lemma withinLimits_testJwk: "withinLimits testJwk"
proof -
  have "depth testJwk \<le> maxDepth"
    by (simp add: testJwk_def maxDepth_def)
  moreover have "blobLength testJwk \<le> maxArguments"
    by (simp add: blobLength_def stringify_testJwk TextEncoder_encode_def IV_LENGTH_def
        maxArguments_def)
  ultimately show ?thesis
    by (simp add: withinLimits_def)
qed

lemma selfTestCheck_testJwk: "selfTestCheck testJwk = Return ()"
  by (simp add: selfTestCheck_def testJwk_def lookup_def)

lemma selfTest_passes: "\<exists>g'. selfTest masterKey g = Return g'"
proof -
  obtain enc g' where "encryptJwk testJwk masterKey g = Return (enc, g')"
      and "decryptJwk (encrypted enc) (salt enc) masterKey = Return testJwk"
    using decryptJwk_encryptJwk [OF representable_testJwk withinLimits_testJwk] by blast
  then show ?thesis
    by (simp add: selfTest_def selfTestCheck_testJwk)
qed

subsection \<open>Encrypting under one key, decrypting under another\<close>

lemma validWalletSecret_representable: "validWalletSecret w \<Longrightarrow> representable w"
  by (simp add: validWalletSecret_def)

lemma validWalletSecret_testJwk: "validWalletSecret testJwk"
  using representable_testJwk by (simp add: validWalletSecret_def testJwk_def lookup_def)

lemma crossDecrypt_same_derived_key:
  assumes "representable w" and "withinLimits w"
    and "deriveKey k2 (saltOf g) = deriveKey k1 (saltOf g)"
  shows "crossDecrypt w k1 k2 g = Return w"
  using decryptJwk_same_derived_key [OF assms] by (auto simp: crossDecrypt_def)


lemma crossDecrypt_too_long:
  assumes "representable w" and "depth w \<le> maxDepth" and "maxArguments < blobLength w"
  shows "crossDecrypt w k1 k2 g = Throw (RangeError ''String.fromCharCode'')"
proof -
  obtain t where t: "JSON_stringify w = Return (Val t)"
    using JSON_roundtrip [OF assms(1,2)] by blast
  have "maxArguments < IV_LENGTH + length (TextEncoder_encode (Val t)) + 16"
    using assms(3) by (simp add: blobLength_def t)
  from encryptJwk_too_long [OF t this] show ?thesis
    by (simp add: crossDecrypt_def)
qed

subsection \<open>A key with a modulus of a million characters\<close>

lemma length_bigModulus: "length bigModulus = 1000000"
  unfolding bigModulus_def by (rule length_replicate)

lemma asciiText_replicate_A: "asciiText (replicate n (CHR ''A''))"
  by (induction n) (simp_all add: asciiText_def)

lemma validUtf8_bigModulus: "validUtf8 bigModulus"
  unfolding bigModulus_def by (rule validUtf8_ascii [OF asciiText_replicate_A])

lemma representable_bigJwk: "representable bigJwk"
  using validUtf8_bigModulus
  by (simp add: bigJwk_def jsOrdered_def objSet_def isArrayIndex_def isDigit_def)

lemma validWalletSecret_bigJwk: "validWalletSecret bigJwk"
proof -
  have "bigModulus \<noteq> []"
    using length_bigModulus by auto
  then show ?thesis
    using representable_bigJwk by (simp add: validWalletSecret_def bigJwk_def lookup_def)
qed

lemma length_quoted: "length s \<le> length (concat (map quoteChar s))"
proof (induction s)
  case Nil
  show ?case by simp
next
  case (Cons c cs)
  have "quoteChar c \<noteq> []"
    by (simp add: quoteChar_def)
  then have "1 \<le> length (quoteChar c)"
    by (cases "quoteChar c") simp_all
  then show ?case
    using Cons by simp
qed

lemma depth_bigJwk: "depth bigJwk \<le> maxDepth"
  by (simp add: bigJwk_def maxDepth_def)

lemma blobLength_bigJwk: "maxArguments < blobLength bigJwk"
proof -
  obtain t where t: "JSON_stringify bigJwk = Return (Val t)"
    using JSON_roundtrip [OF representable_bigJwk depth_bigJwk] by blast
  then have "serialize bigJwk = Some t"
    by (simp add: JSON_stringify_def split: if_splits option.splits)
  then have ab: "length (concat (map quoteChar bigModulus)) \<le> length t"
    by (auto simp: bigJwk_def quoteJSONString_def joinWith_def)
  have "1000000 \<le> length t"
    using ab length_bigModulus length_quoted [of bigModulus] by simp
  then show ?thesis
    by (simp add: blobLength_def t TextEncoder_encode_def maxArguments_def)
qed

subsection \<open>The loop on the sample record\<close>

lemma migrateRow_sampleRow:
  "\<exists>out st'. migrateRow masterKey (sampleRow\<lparr>github_id := Null\<rparr>) st = (out, Return st')"
proof -
  obtain userId g1 where u: "randomUUID (rnd st) = (userId, g1)"
    by (cases "randomUUID (rnd st)")
  obtain walletId g2 where v: "randomUUID g1 = (walletId, g2)"
    by (cases "randomUUID g1")
  have "IV_LENGTH + length (TextEncoder_encode (Val sampleJwkText)) + 16 \<le> maxArguments"
    by (simp add: sampleJwkText_def IV_LENGTH_def maxArguments_def TextEncoder_encode_def)
  then obtain enc g3 where e: "encryptJwk sampleJwk masterKey g2 = Return (enc, g3)"
    using encryptJwk_returns [OF stringify_sampleJwk] by blast
  show ?thesis
    using u v e
    by (simp add: migrateRow_def emitRow_def sampleRow_def parse_sampleJwkText
        missingFields_sampleJwk githubIdText_def githubIdOf_def)
qed

lemma sibling_then_null:
  "snd (migrateRows masterKey [sampleRow\<lparr>github_id := Null\<rparr>, sampleRow\<lparr>regular_jwk := ''null''\<rparr>] st)
     = Throw (TypeError ''n'')"
proof -
  obtain out st' where a: "migrateRow masterKey (sampleRow\<lparr>github_id := Null\<rparr>) st = (out, Return st')"
    using migrateRow_sampleRow by blast
  then show ?thesis
    by (simp add: migrateRow_null)
qed

section \<open>The run as a whole\<close>


lemma validateEncryptionKey_passed:
  "\<exists>g'. validateEncryptionKey E proc masterKey g =
     (fst (liveValidateStep E (liveValidate proc masterKey)),
      [(Log, nl @ ''Validating encryption key...''),
       (Log, ''  [1/2] Round-trip self-test...''),
       (Log, ''        Round-trip self-test passed.''),
       (Log, ''  [2/2] Validating against production D1 database...'')]
      @ snd (liveValidateStep E (liveValidate proc masterKey)),
      g')"
proof -
  obtain g' where "selfTest masterKey g = Return g'"
    using selfTest_passes by blast
  then show ?thesis
    by (simp add: validateEncryptionKey_def validateFrom_def split: prod.splits)
qed




lemma liveValidateStep_Return:
  "snd body = Return u \<Longrightarrow> liveValidateStep E body = (Done, fst body)"
  by (simp add: liveValidateStep_def)

lemma liveValidateStep_caught:
  "snd body = Throw e \<Longrightarrow> isDecryptFailure E e \<Longrightarrow>
   liveValidateStep E body = (Exit 1, fst body @ keyMismatchDiagnostic)"
  by (simp add: liveValidateStep_def)

lemma liveValidateStep_rethrown:
  "snd body = Throw e \<Longrightarrow> \<not> isDecryptFailure E e \<Longrightarrow>
   liveValidateStep E body = (Uncaught e, fst body)"
  by (simp add: liveValidateStep_def)

lemma sublist_operation:
  "sublist ''operation'' ''The operation failed for an operation-specific reason''"
proof -
  have "''The operation failed for an operation-specific reason''
        = ''The '' @ ''operation'' @ '' failed for an operation-specific reason''"
    by simp
  then show ?thesis
    unfolding sublist_def by blast
qed

lemma isDecryptFailure_OperationError: "isDecryptFailure E OperationError"
  using sublist_operation by (simp add: isDecryptFailure_def message_def OperationError_def)

lemma isDecryptFailure_InvalidCharacterError: "\<not> isDecryptFailure E InvalidCharacterError"
  by (simp add: isDecryptFailure_def message_def InvalidCharacterError_def sublist_code
      prefix_code)

lemma liveValidate_query_failed:
  "c \<noteq> 0 \<Longrightarrow>
   liveValidate (Exited c out err) k =
     ([(Warn, ''        Could not query production DB (exit code '' @ showInt c @ '').'')]
      @ (if err \<noteq> [] then [(Warn, ''        stderr: '' @ lastLine err)] else [])
      @ [(Warn, ''        Skipping production validation. Proceeding with self-test only.'')],
      Return ())"
  by (simp add: liveValidate_def)

lemma liveValidate_no_rows:
  assumes "JSON_parse out = Return results"
    and "andThen (optIndex0 results) (\<lambda>first. optProp first ''results'') = Return rows"
    and "\<not> truthy rows \<or> lengthIsZero rows"
  shows "liveValidate (Exited 0 out err) k =
     ([(Warn, ''        No wallets found in production DB. Skipping production validation.'')],
      Return ())"
  using assms by (auto simp: liveValidate_def)

lemma liveValidate_decrypt_throws:
  assumes "JSON_parse out = Return results"
    and "andThen (optIndex0 results) (\<lambda>first. optProp first ''results'') = Return rows"
    and "truthy rows" and "\<not> lengthIsZero rows"
    and "getIndex0 rows = Return (JObj ms)"
    and "lookup ms ''encrypted_jwk'' = JStr enc" and "lookup ms ''salt'' = JStr s"
    and "decryptJwk enc s k = Throw e"
  shows "liveValidate (Exited 0 out err) k = ([], Throw e)"
  using assms by (simp add: liveValidate_def checkSample_def)

lemma parse_stdoutBadBase64:
  "JSON_parse stdoutBadBase64 =
     Return (JArr [JObj [(''results'', JArr [JObj [(''encrypted_jwk'', JStr ''!''), (''salt'', JStr []),
                                                  (''address'', JStr ''a'')]]),
                         (''success'', JBool True)]])"
  by code_simp

lemma parse_stdoutShortBlob:
  "JSON_parse stdoutShortBlob =
     Return (JArr [JObj [(''results'', JArr [JObj [(''encrypted_jwk'', JStr []), (''salt'', JStr []),
                                                  (''address'', JStr ''a'')]]),
                         (''success'', JBool True)]])"
  by code_simp

lemma parse_stdoutNoRows:
  "JSON_parse stdoutNoRows = Return (JArr [JObj [(''results'', JArr []), (''success'', JBool True)]])"
  by code_simp

lemma atob_bang: "atob ''!'' = Throw InvalidCharacterError"
  by code_simp

lemma atob_empty: "atob [] = Return []"
  by code_simp

lemma decryptJwk_bang: "decryptJwk ''!'' s k = Throw InvalidCharacterError"
  by (simp add: decryptJwk_def atob_bang)

lemma decryptJwk_empty: "decryptJwk [] [] k = Throw OperationError"
  by (simp add: decryptJwk_def atob_empty AES_GCM_decrypt_def Let_def)

lemma liveValidate_badBase64:
  "liveValidate (Exited 0 stdoutBadBase64 err) k = ([], Throw InvalidCharacterError)"
  by (simp add: liveValidate_def parse_stdoutBadBase64 optIndex0_def optProp_def lookup_def
      checkSample_def decryptJwk_bang)

lemma liveValidate_shortBlob:
  "liveValidate (Exited 0 stdoutShortBlob err) k = ([], Throw OperationError)"
  by (simp add: liveValidate_def parse_stdoutShortBlob optIndex0_def optProp_def lookup_def
      checkSample_def decryptJwk_empty)

lemma liveValidate_noRows:
  "liveValidate (Exited 0 stdoutNoRows err) k =
     ([(Warn, ''        No wallets found in production DB. Skipping production validation.'')],
      Return ())"
  by (simp add: liveValidate_def parse_stdoutNoRows optIndex0_def optProp_def lookup_def)

subsection \<open>How the run ends\<close>










subsection \<open>How the validation ends\<close>

lemma validateEncryptionKey_caught:
  assumes "snd (liveValidate proc k) = Throw e" and "isDecryptFailure E e"
  shows "fst (validateEncryptionKey E proc k g) = Exit 1
         \<and> suffix keyMismatchDiagnostic (fst (snd (validateEncryptionKey E proc k g)))"
proof -
  obtain g' where v: "validateEncryptionKey E proc k g =
     (fst (liveValidateStep E (liveValidate proc k)),
      [(Log, nl @ ''Validating encryption key...''),
       (Log, ''  [1/2] Round-trip self-test...''),
       (Log, ''        Round-trip self-test passed.''),
       (Log, ''  [2/2] Validating against production D1 database...'')]
      @ snd (liveValidateStep E (liveValidate proc k)),
      g')"
    using validateEncryptionKey_passed by blast
  show ?thesis
    unfolding v liveValidateStep_caught [OF assms]
    by (simp add: suffix_def)
qed

lemma validateEncryptionKey_rethrown:
  assumes "snd (liveValidate proc k) = Throw e" and "\<not> isDecryptFailure E e"
  shows "fst (validateEncryptionKey E proc k g) = Uncaught e
         \<and> fst (snd (validateEncryptionKey E proc k g)) =
             [(Log, nl @ ''Validating encryption key...''),
              (Log, ''  [1/2] Round-trip self-test...''),
              (Log, ''        Round-trip self-test passed.''),
              (Log, ''  [2/2] Validating against production D1 database...'')]
             @ fst (liveValidate proc k)"
proof -
  obtain g' where v: "validateEncryptionKey E proc k g =
     (fst (liveValidateStep E (liveValidate proc k)),
      [(Log, nl @ ''Validating encryption key...''),
       (Log, ''  [1/2] Round-trip self-test...''),
       (Log, ''        Round-trip self-test passed.''),
       (Log, ''  [2/2] Validating against production D1 database...'')]
      @ snd (liveValidateStep E (liveValidate proc k)),
      g')"
    using validateEncryptionKey_passed by blast
  show ?thesis
    unfolding v liveValidateStep_rethrown [OF assms]
    by simp
qed

lemma validateEncryptionKey_degraded:
  assumes "liveValidate proc k = (logs @ [line], Return ())"
  shows "fst (validateEncryptionKey E proc k g) = Done
         \<and> suffix [line] (fst (snd (validateEncryptionKey E proc k g)))"
proof -
  obtain g' where v: "validateEncryptionKey E proc k g =
     (fst (liveValidateStep E (liveValidate proc k)),
      [(Log, nl @ ''Validating encryption key...''),
       (Log, ''  [1/2] Round-trip self-test...''),
       (Log, ''        Round-trip self-test passed.''),
       (Log, ''  [2/2] Validating against production D1 database...'')]
      @ snd (liveValidateStep E (liveValidate proc k)),
      g')"
    using validateEncryptionKey_passed by blast
  have "liveValidateStep E (liveValidate proc k) = (Done, logs @ [line])"
    using liveValidateStep_Return [of "liveValidate proc k" "()" E] assms by simp
  then show ?thesis
    unfolding v by (simp add: suffix_def)
qed

lemma validateEncryptionKey_query_failed:
  assumes "c \<noteq> 0"
  shows "fst (validateEncryptionKey E (Exited c out err) k g) = Done
     \<and> suffix [(Warn, ''        Skipping production validation. Proceeding with self-test only.'')]
          (fst (snd (validateEncryptionKey E (Exited c out err) k g)))"
proof (rule validateEncryptionKey_degraded)
  show "liveValidate (Exited c out err) k =
     (([(Warn, ''        Could not query production DB (exit code '' @ showInt c @ '').'')]
       @ (if err \<noteq> [] then [(Warn, ''        stderr: '' @ lastLine err)] else []))
      @ [(Warn, ''        Skipping production validation. Proceeding with self-test only.'')],
      Return ())"
    using liveValidate_query_failed [OF assms] by simp
qed

lemma validateEncryptionKey_no_rows:
  assumes "JSON_parse out = Return results"
    and "andThen (optIndex0 results) (\<lambda>first. optProp first ''results'') = Return rows"
    and "\<not> truthy rows \<or> lengthIsZero rows"
  shows "fst (validateEncryptionKey E (Exited 0 out err) k g) = Done
     \<and> suffix [(Warn, ''        No wallets found in production DB. Skipping production validation.'')]
          (fst (snd (validateEncryptionKey E (Exited 0 out err) k g)))"
proof (rule validateEncryptionKey_degraded)
  show "liveValidate (Exited 0 out err) k =
     ([] @ [(Warn, ''        No wallets found in production DB. Skipping production validation.'')],
      Return ())"
    using liveValidate_no_rows [OF assms] by simp
qed

section \<open>What the loop appends\<close>





section \<open>Scanning what the loop appends\<close>











subsection \<open>The statements of the groups\<close>







subsection \<open>The statements of the file\<close>






subsection \<open>A run on one row\<close>






section \<open>SQL literals\<close>

text \<open>
  Claim C9. \<^verbatim>\<open>sqlEscape\<close> returns the unquoted token \<^verbatim>\<open>NULL\<close> for null, for
  undefined and for the empty string; any other string comes back between single
  quotes, each single quote in it doubled. So for a record whose email is the empty
  string both guards compare \<^verbatim>\<open>email\<close> with \<^verbatim>\<open>NULL\<close>, not with an empty literal.
\<close>

theorem sqlEscape_null_or_quoted:
  "sqlEscape Null = ''NULL''
   \<and> sqlEscape Undefined = ''NULL''
   \<and> sqlEscape (Val []) = ''NULL''
   \<and> sqlEscape (Val (c # cs)) = [CHR 0x27] @ doubleQuotes (c # cs) @ [CHR 0x27]
   \<and> doubleQuotes [] = []
   \<and> doubleQuotes (c # cs) = (if c = CHR 0x27 then [CHR 0x27, CHR 0x27] else [c]) @ doubleQuotes cs
   \<and> userGuard (row\<lparr>email := []\<rparr>)
       = '' WHERE NOT EXISTS (SELECT 1 FROM users WHERE email = NULL);''
   \<and> walletGuard (row\<lparr>email := []\<rparr>)
       = '' WHERE NOT EXISTS (SELECT 1 FROM wallets WHERE user_id = (SELECT id FROM users WHERE email = NULL))''
         @ ''   AND NOT EXISTS (SELECT 1 FROM wallets WHERE address = ''
         @ sqlEscape (Val (wallet_address row)) @ '');''"
  by (simp add: sqlEscape_def doubleQuotes_def userGuard_def walletGuard_def)

theorem sqlEscape_null_or_quoted_witness:
  "sqlEscape (Val [CHR ''O'', CHR 0x27, CHR ''B'']) = [CHR 0x27, CHR ''O'', CHR 0x27, CHR 0x27, CHR ''B'', CHR 0x27]
   \<and> userGuard (sampleRow\<lparr>email := []\<rparr>)
       = '' WHERE NOT EXISTS (SELECT 1 FROM users WHERE email = NULL);''"
  using sqlEscape_null_or_quoted [of "CHR ''O''" "[CHR 0x27, CHR ''B'']" sampleRow]
  by (simp add: doubleQuotes_def)

section \<open>Validation against the production store\<close>

text \<open>
  A sampled wallet whose blob is not base64 makes \<^verbatim>\<open>atob\<close> throw an
  \<^verbatim>\<open>InvalidCharacterError\<close>. Its message has none of the three substrings that the
  \<^verbatim>\<open>catch\<close> clause of lines 189 to 206 looks for, so the error is thrown again: the
  validation ends with the uncaught error and prints no diagnostic of a key mismatch.
\<close>

theorem base64_error_not_diagnosed_counterexample:
  "fst (validateEncryptionKey sampleEngine (Exited 0 stdoutBadBase64 []) ''k'' sampleRng)
     = Uncaught InvalidCharacterError
   \<and> fst (snd (validateEncryptionKey sampleEngine (Exited 0 stdoutBadBase64 []) ''k'' sampleRng))
     = [(Log, nl @ ''Validating encryption key...''),
        (Log, ''  [1/2] Round-trip self-test...''),
        (Log, ''        Round-trip self-test passed.''),
        (Log, ''  [2/2] Validating against production D1 database...'')]"
  using validateEncryptionKey_rethrown [of "Exited 0 stdoutBadBase64 []" "''k''"
      InvalidCharacterError sampleEngine sampleRng]
  by (simp add: liveValidate_badBase64 isDecryptFailure_InvalidCharacterError)

text \<open>
  Claim C1, amended. After the self-test, which always passes: when the live validation
  throws an error whose message contains \<^verbatim>\<open>Unsupported state\<close>, \<^verbatim>\<open>decrypt\<close> or
  \<^verbatim>\<open>operation\<close>, the validation exits with code 1 and the last lines it prints are the
  diagnostic of a key mismatch; any other error is thrown again, without a diagnostic.
  The \<^verbatim>\<open>OperationError\<close> of the cipher (a tag that does not verify, a blob too short) is
  of the first kind, the \<^verbatim>\<open>InvalidCharacterError\<close> of a base64 failure of the second. An
  error of \<^verbatim>\<open>decryptJwk\<close> on the first row of the query is the error the live validation
  throws. When the query exits with a code other than 0, or returns no rows, the
  validation returns after a warning.
\<close>

theorem live_validation_outcomes:
  "(snd (liveValidate proc k) = Throw e \<and> isDecryptFailure E e \<longrightarrow>
      fst (validateEncryptionKey E proc k g) = Exit 1
      \<and> suffix keyMismatchDiagnostic (fst (snd (validateEncryptionKey E proc k g))))
   \<and> (snd (liveValidate proc k) = Throw e \<and> \<not> isDecryptFailure E e \<longrightarrow>
      fst (validateEncryptionKey E proc k g) = Uncaught e
      \<and> fst (snd (validateEncryptionKey E proc k g)) =
          [(Log, nl @ ''Validating encryption key...''),
           (Log, ''  [1/2] Round-trip self-test...''),
           (Log, ''        Round-trip self-test passed.''),
           (Log, ''  [2/2] Validating against production D1 database...'')]
          @ fst (liveValidate proc k))
   \<and> isDecryptFailure E OperationError
   \<and> \<not> isDecryptFailure E InvalidCharacterError
   \<and> (JSON_parse out = Return results
        \<and> andThen (optIndex0 results) (\<lambda>first. optProp first ''results'') = Return rows
        \<and> truthy rows \<and> \<not> lengthIsZero rows \<and> getIndex0 rows = Return (JObj ms)
        \<and> lookup ms ''encrypted_jwk'' = JStr enc \<and> lookup ms ''salt'' = JStr s
        \<and> decryptJwk enc s k = Throw e \<longrightarrow>
      liveValidate (Exited 0 out err) k = ([], Throw e))
   \<and> (c \<noteq> 0 \<longrightarrow>
      fst (validateEncryptionKey E (Exited c out err) k g) = Done
      \<and> suffix [(Warn, ''        Skipping production validation. Proceeding with self-test only.'')]
           (fst (snd (validateEncryptionKey E (Exited c out err) k g))))
   \<and> (JSON_parse out = Return results
        \<and> andThen (optIndex0 results) (\<lambda>first. optProp first ''results'') = Return rows
        \<and> (\<not> truthy rows \<or> lengthIsZero rows) \<longrightarrow>
      fst (validateEncryptionKey E (Exited 0 out err) k g) = Done
      \<and> suffix [(Warn, ''        No wallets found in production DB. Skipping production validation.'')]
           (fst (snd (validateEncryptionKey E (Exited 0 out err) k g))))"
proof -
  have a: "snd (liveValidate proc k) = Throw e \<and> isDecryptFailure E e \<longrightarrow>
      fst (validateEncryptionKey E proc k g) = Exit 1
      \<and> suffix keyMismatchDiagnostic (fst (snd (validateEncryptionKey E proc k g)))"
    using validateEncryptionKey_caught [of proc k e E g] by blast
  have b: "snd (liveValidate proc k) = Throw e \<and> \<not> isDecryptFailure E e \<longrightarrow>
      fst (validateEncryptionKey E proc k g) = Uncaught e
      \<and> fst (snd (validateEncryptionKey E proc k g)) =
          [(Log, nl @ ''Validating encryption key...''),
           (Log, ''  [1/2] Round-trip self-test...''),
           (Log, ''        Round-trip self-test passed.''),
           (Log, ''  [2/2] Validating against production D1 database...'')]
          @ fst (liveValidate proc k)"
    using validateEncryptionKey_rethrown [of proc k e E g] by blast
  have c: "JSON_parse out = Return results
        \<and> andThen (optIndex0 results) (\<lambda>first. optProp first ''results'') = Return rows
        \<and> truthy rows \<and> \<not> lengthIsZero rows \<and> getIndex0 rows = Return (JObj ms)
        \<and> lookup ms ''encrypted_jwk'' = JStr enc \<and> lookup ms ''salt'' = JStr s
        \<and> decryptJwk enc s k = Throw e \<longrightarrow>
      liveValidate (Exited 0 out err) k = ([], Throw e)"
    using liveValidate_decrypt_throws [of out results rows ms enc s k e err] by blast
  have d: "c \<noteq> 0 \<longrightarrow>
      fst (validateEncryptionKey E (Exited c out err) k g) = Done
      \<and> suffix [(Warn, ''        Skipping production validation. Proceeding with self-test only.'')]
           (fst (snd (validateEncryptionKey E (Exited c out err) k g)))"
    using validateEncryptionKey_query_failed [of c E out err k g] by blast
  have e: "JSON_parse out = Return results
        \<and> andThen (optIndex0 results) (\<lambda>first. optProp first ''results'') = Return rows
        \<and> (\<not> truthy rows \<or> lengthIsZero rows) \<longrightarrow>
      fst (validateEncryptionKey E (Exited 0 out err) k g) = Done
      \<and> suffix [(Warn, ''        No wallets found in production DB. Skipping production validation.'')]
           (fst (snd (validateEncryptionKey E (Exited 0 out err) k g)))"
    using validateEncryptionKey_no_rows [of out results rows E err k g] by blast
  show ?thesis
    by (intro conjI a b c d e isDecryptFailure_OperationError isDecryptFailure_InvalidCharacterError)
qed

theorem live_validation_outcomes_witness:
  "fst (validateEncryptionKey sampleEngine (Exited 0 stdoutShortBlob []) ''k'' sampleRng) = Exit 1
   \<and> suffix keyMismatchDiagnostic
        (fst (snd (validateEncryptionKey sampleEngine (Exited 0 stdoutShortBlob []) ''k'' sampleRng)))
   \<and> fst (validateEncryptionKey sampleEngine (Exited 0 stdoutBadBase64 []) ''k'' sampleRng)
       = Uncaught InvalidCharacterError
   \<and> liveValidate (Exited 0 stdoutShortBlob []) ''k'' = ([], Throw OperationError)
   \<and> fst (validateEncryptionKey sampleEngine (Exited 1 [] ''network error'') ''k'' sampleRng) = Done
   \<and> fst (validateEncryptionKey sampleEngine (Exited 0 stdoutNoRows []) ''k'' sampleRng) = Done"
proof -
  let ?ms = "[(''encrypted_jwk'', JStr []), (''salt'', JStr []), (''address'', JStr ''a'')]"
  let ?short = "JArr [JObj [(''results'', JArr [JObj ?ms]), (''success'', JBool True)]]"
  let ?none = "JArr [JObj [(''results'', JArr []), (''success'', JBool True)]]"
  have 1: "snd (liveValidate (Exited 0 stdoutShortBlob []) ''k'') = Throw OperationError
      \<and> isDecryptFailure sampleEngine OperationError"
    by (simp add: liveValidate_shortBlob isDecryptFailure_OperationError)
  have 2: "snd (liveValidate (Exited 0 stdoutBadBase64 []) ''k'') = Throw InvalidCharacterError
      \<and> \<not> isDecryptFailure sampleEngine InvalidCharacterError"
    by (simp add: liveValidate_badBase64 isDecryptFailure_InvalidCharacterError)
  have 5: "JSON_parse stdoutShortBlob = Return ?short
      \<and> andThen (optIndex0 ?short) (\<lambda>first. optProp first ''results'') = Return (JArr [JObj ?ms])
      \<and> truthy (JArr [JObj ?ms]) \<and> \<not> lengthIsZero (JArr [JObj ?ms])
      \<and> getIndex0 (JArr [JObj ?ms]) = Return (JObj ?ms)
      \<and> lookup ?ms ''encrypted_jwk'' = JStr [] \<and> lookup ?ms ''salt'' = JStr []
      \<and> decryptJwk [] [] ''k'' = Throw OperationError"
    by (simp add: parse_stdoutShortBlob optIndex0_def optProp_def lookup_def decryptJwk_empty)
  have 6: "(1::int) \<noteq> 0"
    by simp
  have 7: "JSON_parse stdoutNoRows = Return ?none
      \<and> andThen (optIndex0 ?none) (\<lambda>first. optProp first ''results'') = Return (JArr [])
      \<and> (\<not> truthy (JArr []) \<or> lengthIsZero (JArr []))"
    by (simp add: parse_stdoutNoRows optIndex0_def optProp_def lookup_def)
  note r1 = live_validation_outcomes [where E = sampleEngine and g = sampleRng,
      THEN conjunct1, THEN mp, OF 1]
  note r2 = live_validation_outcomes [where E = sampleEngine and g = sampleRng,
      THEN conjunct2, THEN conjunct1, THEN mp, OF 2]
  note r5 = live_validation_outcomes [where err = "[]", THEN conjunct2, THEN conjunct2,
      THEN conjunct2, THEN conjunct2, THEN conjunct1, THEN mp, OF 5]
  note r6 = live_validation_outcomes [where E = sampleEngine and g = sampleRng and k = "''k''"
      and out = "[]" and err = "''network error''",
      THEN conjunct2, THEN conjunct2, THEN conjunct2, THEN conjunct2, THEN conjunct2,
      THEN conjunct1, THEN mp, OF 6]
  note r7 = live_validation_outcomes [where E = sampleEngine and g = sampleRng and k = "''k''"
      and err = "[]",
      THEN conjunct2, THEN conjunct2, THEN conjunct2, THEN conjunct2, THEN conjunct2,
      THEN conjunct2, THEN mp, OF 7]
  show ?thesis
    by (intro conjI r1 [THEN conjunct1] r1 [THEN conjunct2] r2 [THEN conjunct1] r5
        r6 [THEN conjunct1] r7 [THEN conjunct1])
qed

section \<open>Round trip of a wallet secret\<close>

text \<open>
  \<^verbatim>\<open>encryptJwk\<close> passes every byte of the blob as an argument of one call (line 74). A
  key whose modulus has a million characters is a valid wallet secret, and its blob has
  more bytes than the engine accepts arguments: the call throws a \<^verbatim>\<open>RangeError\<close> and
  nothing is returned that could be decrypted.
\<close>

theorem large_secret_not_encrypted_counterexample:
  "validWalletSecret bigJwk
   \<and> crossDecrypt bigJwk ''master key'' ''master key'' sampleRng
       = Throw (RangeError ''String.fromCharCode'')"
  using validWalletSecret_bigJwk
    crossDecrypt_too_long [OF representable_bigJwk depth_bigJwk blobLength_bigJwk]
  by simp

text \<open>
  Claim C2, amended. For every valid wallet secret \<open>w\<close> (a JSON object with non-empty \<^verbatim>\<open>n\<close>,
  \<^verbatim>\<open>e\<close> and \<^verbatim>\<open>d\<close>) nested no deeper than \<open>maxDepth\<close> and every master secret: when the
  blob of \<open>w\<close>, that is 28 bytes and the bytes of its JSON text, has at most 65536 bytes,
  \<^verbatim>\<open>decryptJwk\<close> applied with that secret to the blob and salt that \<^verbatim>\<open>encryptJwk\<close> produced
  returns a value equal to \<open>w\<close>, whatever the random salt and nonce were; when it has
  more, \<^verbatim>\<open>encryptJwk\<close> throws a \<^verbatim>\<open>RangeError\<close>.
\<close>

theorem decrypt_of_encrypt_returns_secret:
  assumes "validWalletSecret w" and "depth w \<le> maxDepth"
  shows "(blobLength w \<le> maxArguments \<longrightarrow> crossDecrypt w masterKey masterKey g = Return w)
         \<and> (maxArguments < blobLength w \<longrightarrow>
              crossDecrypt w masterKey masterKey g = Throw (RangeError ''String.fromCharCode''))
         \<and> maxArguments = 65536
         \<and> (JSON_stringify w = Return (Val t) \<longrightarrow> blobLength w = 28 + length t)"
proof -
  have r: "representable w"
    using assms(1) by (rule validWalletSecret_representable)
  have a: "blobLength w \<le> maxArguments \<longrightarrow> crossDecrypt w masterKey masterKey g = Return w"
    using crossDecrypt_same_derived_key [OF r _ refl, of masterKey g] assms(2)
    by (simp add: withinLimits_def)
  have b: "maxArguments < blobLength w \<longrightarrow>
      crossDecrypt w masterKey masterKey g = Throw (RangeError ''String.fromCharCode'')"
    using crossDecrypt_too_long [OF r assms(2)] by blast
  have c: "JSON_stringify w = Return (Val t) \<longrightarrow> blobLength w = 28 + length t"
    by (simp add: blobLength_def TextEncoder_encode_def IV_LENGTH_def)
  show ?thesis
    by (intro conjI a b c maxArguments_def)
qed

theorem decrypt_of_encrypt_returns_secret_witness:
  "validWalletSecret testJwk \<and> depth testJwk \<le> maxDepth \<and> blobLength testJwk \<le> maxArguments
   \<and> crossDecrypt testJwk ''master key'' ''master key'' sampleRng = Return testJwk
   \<and> blobLength testJwk = 28 + 50
   \<and> validWalletSecret bigJwk \<and> depth bigJwk \<le> maxDepth \<and> maxArguments < blobLength bigJwk
   \<and> crossDecrypt bigJwk ''master key'' ''master key'' sampleRng
       = Throw (RangeError ''String.fromCharCode'')"
proof -
  have d: "depth testJwk \<le> maxDepth" and l: "blobLength testJwk \<le> maxArguments"
    using withinLimits_testJwk by (simp_all add: withinLimits_def)
  note small = decrypt_of_encrypt_returns_secret [OF validWalletSecret_testJwk d,
      THEN conjunct1, THEN mp, OF l]
  note big = decrypt_of_encrypt_returns_secret [OF validWalletSecret_bigJwk depth_bigJwk,
      THEN conjunct2, THEN conjunct1, THEN mp, OF blobLength_bigJwk]
  have len: "blobLength testJwk = 28 + 50"
    using decrypt_of_encrypt_returns_secret [OF validWalletSecret_testJwk d,
      THEN conjunct2, THEN conjunct2, THEN conjunct2, THEN mp, OF stringify_testJwk]
    by simp
  show ?thesis
    by (intro conjI validWalletSecret_testJwk d l small len validWalletSecret_bigJwk depth_bigJwk
        blobLength_bigJwk big)
qed

section \<open>Decrypting under another master secret\<close>




section \<open>The self-test\<close>


section \<open>Malformed input to \<^verbatim>\<open>decryptJwk\<close>\<close>

text \<open>
  Claim C5 says that a blob shorter than the nonce, like a blob or a salt that is not
  base64, fails with an error of its own kind. The script has no check of the length: a
  blob of three bytes is sliced into a short nonce and an empty ciphertext, and it is
  the cipher that refuses it, with the error it also throws when the tag does not
  verify.
\<close>

theorem decryptJwk_short_blob_counterexample:
  "decryptJwk ''AAAA'' [] ''k'' = Throw OperationError
   \<and> atob ''AAAA'' = Return [0, 0, 0]
   \<and> AES_GCM_decrypt (deriveKey ''k'' []) [0, 0, 0] [] = Throw OperationError"
  by (simp add: decryptJwk_def atob_def stripPadding_def asciiWs_def b64Value_def
      AES_GCM_decrypt_def IV_LENGTH_def Let_def suffix_to_prefix)

text \<open>
  Claim C5, amended. A blob or a salt that is not base64 makes \<^verbatim>\<open>decryptJwk\<close> throw
  the \<^verbatim>\<open>InvalidCharacterError\<close> of \<^verbatim>\<open>atob\<close>; a blob of fewer than 28 bytes (twelve of
  nonce and sixteen of tag), so also one shorter than the nonce, makes it throw the
  \<^verbatim>\<open>OperationError\<close> of the cipher; neither returns. Any other blob is split into the
  nonce, its first twelve bytes, and the ciphertext with its tag, the rest.
\<close>

theorem decryptJwk_malformed_input:
  "(atob encryptedB64 = Throw e \<longrightarrow>
      decryptJwk encryptedB64 saltB64 masterKey = Throw InvalidCharacterError)
   \<and> (atob encryptedB64 = Return combined \<and> atob saltB64 = Throw e \<longrightarrow>
      decryptJwk encryptedB64 saltB64 masterKey = Throw InvalidCharacterError)
   \<and> (atob encryptedB64 = Return combined \<and> atob saltB64 = Return saltBytes
        \<and> length combined < 12 + 16 \<longrightarrow>
      decryptJwk encryptedB64 saltB64 masterKey = Throw OperationError)
   \<and> (atob encryptedB64 = Return combined \<and> atob saltB64 = Return saltBytes \<longrightarrow>
      decryptJwk encryptedB64 saltB64 masterKey =
        andThen (AES_GCM_decrypt (deriveKey masterKey saltBytes) (take 12 combined) (drop 12 combined))
          (\<lambda>plaintext. JSON_parse (TextDecoder_decode plaintext)))"
proof (intro conjI impI)
  assume "atob encryptedB64 = Throw e"
  with atob_cases [of encryptedB64]
  show "decryptJwk encryptedB64 saltB64 masterKey = Throw InvalidCharacterError"
    by (auto simp: decryptJwk_def)
next
  assume "atob encryptedB64 = Return combined \<and> atob saltB64 = Throw e"
  with atob_cases [of saltB64]
  show "decryptJwk encryptedB64 saltB64 masterKey = Throw InvalidCharacterError"
    by (auto simp: decryptJwk_def)
next
  assume a: "atob encryptedB64 = Return combined \<and> atob saltB64 = Return saltBytes
    \<and> length combined < 12 + 16"
  then have "length (drop 12 combined) < 16"
    by auto
  then have "AES_GCM_decrypt (deriveKey masterKey saltBytes) (take 12 combined) (drop 12 combined)
      = Throw OperationError"
    by (rule AES_GCM_decrypt_short)
  with a show "decryptJwk encryptedB64 saltB64 masterKey = Throw OperationError"
    by (simp add: decryptJwk_def IV_LENGTH_def)
next
  assume "atob encryptedB64 = Return combined \<and> atob saltB64 = Return saltBytes"
  then show "decryptJwk encryptedB64 saltB64 masterKey =
        andThen (AES_GCM_decrypt (deriveKey masterKey saltBytes) (take 12 combined) (drop 12 combined))
          (\<lambda>plaintext. JSON_parse (TextDecoder_decode plaintext))"
    by (simp add: decryptJwk_def IV_LENGTH_def)
qed

theorem decryptJwk_malformed_input_witness:
  "decryptJwk ''!'' [] ''k'' = Throw InvalidCharacterError
   \<and> decryptJwk ''AAAA'' ''!'' ''k'' = Throw InvalidCharacterError
   \<and> decryptJwk ''AAAA'' ''AAAA'' ''k'' = Throw OperationError"
proof -
  have a: "atob ''!'' = Throw InvalidCharacterError"
    by (simp add: atob_def stripPadding_def asciiWs_def b64Value_def)
  have b: "atob ''AAAA'' = Return [0, 0, 0]"
    by (simp add: atob_def stripPadding_def asciiWs_def b64Value_def suffix_to_prefix)
  have c: "length [0::byte, 0, 0] < 12 + 16"
    by simp
  show ?thesis
    using decryptJwk_malformed_input [of "''!''" InvalidCharacterError "[]" "''k''" "[]" "[]"]
      decryptJwk_malformed_input [of "''AAAA''" InvalidCharacterError "''!''" "''k''" "[0, 0, 0]" "[]"]
      decryptJwk_malformed_input [of "''AAAA''" InvalidCharacterError "''AAAA''" "''k''" "[0, 0, 0]" "[0, 0, 0]"]
      a b c
    by simp
qed

section \<open>Records that are skipped\<close>

text \<open>
  Claim C6 says that a record whose payload is malformed is skipped and never ends the
  batch. A payload that is the JSON text \<^verbatim>\<open>null\<close> parses, and the test of line 318
  then reads a property of \<^verbatim>\<open>null\<close>: the \<^verbatim>\<open>TypeError\<close> is not caught, the loop
  ends, and nothing is written, whatever rows come with it, also after a valid one.
\<close>

theorem null_payload_aborts_batch:
  "snd (migrateRows masterKey (row\<lparr>regular_jwk := ''null''\<rparr> # rows) st) = Throw (TypeError ''n'')
   \<and> status (migrate (w\<lparr>legacyRows :=
          Return [sampleRow\<lparr>github_id := Null\<rparr>, sampleRow\<lparr>regular_jwk := ''null''\<rparr>]\<rparr>) masterKey g)
       = Uncaught (TypeError ''n'')
   \<and> written (migrate (w\<lparr>legacyRows :=
          Return [sampleRow\<lparr>github_id := Null\<rparr>, sampleRow\<lparr>regular_jwk := ''null''\<rparr>]\<rparr>) masterKey g)
       = None"
  using migrate_Throw [of "w\<lparr>legacyRows :=
          Return [sampleRow\<lparr>github_id := Null\<rparr>, sampleRow\<lparr>regular_jwk := ''null''\<rparr>]\<rparr>"
        "[sampleRow\<lparr>github_id := Null\<rparr>, sampleRow\<lparr>regular_jwk := ''null''\<rparr>]"
        masterKey "TypeError ''n''" g]
    sibling_then_null [of masterKey]
  by (simp add: migrateRow_null)

section \<open>The statements of the artifact\<close>




section \<open>Exit status and artifact\<close>



section \<open>The identifier of the GitHub account\<close>

text \<open>
  Claim C10. For a record whose \<^verbatim>\<open>github_id\<close> is a non-empty string that starts
  with no integer, such as \<^verbatim>\<open>abc\<close>, \<^verbatim>\<open>parseInt\<close> gives \<^verbatim>\<open>NaN\<close>; \<^verbatim>\<open>??\<close>
  replaces only null and undefined, so the user insert that is emitted has the bare
  token \<^verbatim>\<open>NaN\<close> in the place of the \<^verbatim>\<open>github_id\<close> column.
\<close>

theorem unparsable_github_id_emits_NaN:
  assumes "github_id row = Val s" and "s \<noteq> []" and "parseInt10 s = NaN"
    and "JSON_parse (regular_jwk row) = Return jwk"
    and "missingFields jwk = Return False"
    and "JSON_stringify jwk = Return text"
    and "IV_LENGTH + length (TextEncoder_encode text) + 16 \<le> maxArguments"
  shows "\<exists>st' userId walletId enc.
           snd (migrateRow masterKey row st) = Return st'
           \<and> sqlStatements st' = sqlStatements st
               @ [''-- User: '' @ email row @ '' (legacy ID: '' @ user_id row @ '')'',
                  userInsert userId row ''NaN'', walletInsert walletId row enc, []]
           \<and> userInsert userId row ''NaN'' =
               ''INSERT INTO users (id, email, name, avatar_url, github_id, github_username, github_access_token, google_id, google_access_token, created_at, updated_at)''
               @ '' SELECT '' @ sqlEscape (Val userId) @ '', '' @ sqlEscape (Val (email row)) @ '', ''
               @ sqlEscape (Val (name row)) @ '', NULL, NaN, NULL, NULL, '' @ sqlEscape (google_id row)
               @ '', NULL, '' @ sqlEscape (Val (created row)) @ '', '' @ sqlEscape (Val (updated row))
               @ userGuard row"
proof -
  obtain userId g1 where u: "randomUUID (rnd st) = (userId, g1)"
    by (cases "randomUUID (rnd st)")
  obtain walletId g2 where v: "randomUUID g1 = (walletId, g2)"
    by (cases "randomUUID g1")
  obtain enc g3 where e: "encryptJwk jwk masterKey g2 = Return (enc, g3)"
    using encryptJwk_returns [OF assms(6,7)] by blast
  have t: "githubIdText (githubIdOf (github_id row)) = Return ''NaN''"
    using assms(1-3) by (simp add: githubIdText_def githubIdOf_def numberToString_def)
  have "snd (migrateRow masterKey row st) =
      Return (st\<lparr>rnd := g3,
                 sqlStatements := sqlStatements st
                   @ [''-- User: '' @ email row @ '' (legacy ID: '' @ user_id row @ '')'',
                      userInsert userId row ''NaN'', walletInsert walletId row enc, []],
                 migrated := migrated st + 1\<rparr>)"
    using u v e t assms(4,5) by (simp add: migrateRow_def emitRow_def)
  then show ?thesis
    using userInsert_NaN by fastforce
qed

theorem unparsable_github_id_emits_NaN_witness:
  "github_id sampleRow = Val ''abc'' \<and> ''abc'' \<noteq> [] \<and> parseInt10 ''abc'' = NaN
   \<and> (\<exists>st' userId walletId enc.
           snd (migrateRow ''k'' sampleRow sampleState) = Return st'
           \<and> sqlStatements st' = sqlStatements sampleState
               @ [''-- User: '' @ email sampleRow @ '' (legacy ID: '' @ user_id sampleRow @ '')'',
                  userInsert userId sampleRow ''NaN'', walletInsert walletId sampleRow enc, []]
           \<and> userInsert userId sampleRow ''NaN'' =
               ''INSERT INTO users (id, email, name, avatar_url, github_id, github_username, github_access_token, google_id, google_access_token, created_at, updated_at)''
               @ '' SELECT '' @ sqlEscape (Val userId) @ '', '' @ sqlEscape (Val (email sampleRow)) @ '', ''
               @ sqlEscape (Val (name sampleRow)) @ '', NULL, NaN, NULL, NULL, '' @ sqlEscape (google_id sampleRow)
               @ '', NULL, '' @ sqlEscape (Val (created sampleRow)) @ '', '' @ sqlEscape (Val (updated sampleRow))
               @ userGuard sampleRow)"
proof -
  have a: "github_id sampleRow = Val ''abc''"
    by (simp add: sampleRow_def)
  have b: "''abc'' \<noteq> []"
    by simp
  have c: "JSON_parse (regular_jwk sampleRow) = Return sampleJwk"
    by (simp add: sampleRow_def parse_sampleJwkText)
  have d: "IV_LENGTH + length (TextEncoder_encode (Val sampleJwkText)) + 16 \<le> maxArguments"
    by (simp add: sampleJwkText_def IV_LENGTH_def maxArguments_def TextEncoder_encode_def)
  show ?thesis
    using a b parseInt_abc
      unparsable_github_id_emits_NaN [OF a b parseInt_abc c missingFields_sampleJwk stringify_sampleJwk d,
        of "''k''" sampleState]
    by blast
qed

end
